(* ===== verification/Broker_Prelude.thy ===== *)
theory Broker_Prelude
  imports Main "HOL-Library.Word" "HOL-Library.Char_ord" "HOL-Library.List_Lexorder"
begin

text \<open>
  What the component theories share: the model of Go's maps and strings, and generic
  lemmas about them.

  A Go map that is only read is a \<open>gomap\<close>: its entries in the order in which a \<open>range\<close>
  loop visits them. Go leaves that order open, so a theorem about every such list is a
  theorem about every order. A map that is written is a HOL map \<open>string \<rightharpoonup> 'v\<close>.
  A Go string is its bytes, a \<open>string\<close> (\<open>char list\<close>).
\<close>

section \<open>Collections of facts\<close>

named_theorems frame \<open>what an operation leaves unchanged\<close>
named_theorems preserve \<open>an operation keeps an invariant\<close>
named_theorems go_defs \<open>definitions of Go library operations\<close>

section \<open>Maps\<close>

type_synonym 'v gomap = "(string \<times> 'v) list"

text \<open>Indexing a \<open>map[string]string\<close>: the zero value \<open>""\<close> for a missing key.\<close>

definition gindex :: "string gomap \<Rightarrow> string \<Rightarrow> string" where
  "gindex m k = (case map_of m k of None \<Rightarrow> [] | Some v \<Rightarrow> v)"

text \<open>\<open>m[k] = v\<close> on a Go map.\<close>

fun gupdate :: "'v gomap \<Rightarrow> string \<Rightarrow> 'v \<Rightarrow> 'v gomap" where
  "gupdate [] k v = [(k, v)]"
| "gupdate ((k', v') # m) k v = (if k' = k then (k, v) # m else (k', v') # gupdate m k v)"

section \<open>Strings\<close>

definition HasPrefix :: "string \<Rightarrow> string \<Rightarrow> bool" where
  "HasPrefix s p = (take (length p) s = p)"

definition CutPrefix :: "string \<Rightarrow> string \<Rightarrow> string \<times> bool" where
  "CutPrefix s p = (if HasPrefix s p then (drop (length p) s, True) else (s, False))"

definition TrimPrefix :: "string \<Rightarrow> string \<Rightarrow> string" where
  "TrimPrefix s p = (if HasPrefix s p then drop (length p) s else s)"

text \<open>\<open>strings.Cut\<close> with a one-byte separator: before, after, found.\<close>

fun Cut :: "string \<Rightarrow> char \<Rightarrow> string \<times> string \<times> bool" where
  "Cut [] c = ([], [], False)"
| "Cut (x # xs) c =
     (if x = c then ([], xs, True)
      else (let (b, a, ok) = Cut xs c in (x # b, a, ok)))"

text \<open>\<open>strings.Split\<close> with a one-byte separator.\<close>

fun Split :: "string \<Rightarrow> char \<Rightarrow> string list" where
  "Split [] c = [[]]"
| "Split (x # xs) c =
     (if x = c then [] # Split xs c
      else (case Split xs c of [] \<Rightarrow> [[x]] | p # ps \<Rightarrow> (x # p) # ps))"

text \<open>\<open>strings.TrimRight\<close> with a one-byte cutset.\<close>

definition TrimRight :: "string \<Rightarrow> char \<Rightarrow> string" where
  "TrimRight s c = rev (dropWhile (\<lambda>x. x = c) (rev s))"

text \<open>\<open>hex.EncodeToString\<close>.\<close>

definition hex_digit :: "nat \<Rightarrow> char" where
  "hex_digit n = (if n < 10 then char_of (48 + n) else char_of (87 + n))"

definition hex_encode :: "string \<Rightarrow> string" where
  "hex_encode bs = concat (map (\<lambda>c. [hex_digit (of_char c div 16), hex_digit (of_char c mod 16)]) bs)"

section \<open>Lemmas\<close>

lemma HasPrefix_append [simp]: "HasPrefix (p @ s) p"
  by (simp add: HasPrefix_def)

lemma HasPrefix_iff: "HasPrefix s p \<longleftrightarrow> (\<exists>t. s = p @ t)"
  unfolding HasPrefix_def by (metis append_eq_conv_conj append_take_drop_id)

lemma CutPrefix_append [simp]: "CutPrefix (p @ s) p = (s, True)"
  by (simp add: CutPrefix_def)

lemma TrimPrefix_append [simp]: "TrimPrefix (p @ s) p = s"
  by (simp add: TrimPrefix_def)

lemma Cut_found: "c \<notin> set b \<Longrightarrow> Cut (b @ c # a) c = (b, a, True)"
  by (induction b) auto

lemma Cut_not_found: "c \<notin> set s \<Longrightarrow> Cut s c = (s, [], False)"
  by (induction s) auto

lemma Cut_TrueD: "Cut s c = (b, a, True) \<Longrightarrow> s = b @ c # a \<and> c \<notin> set b"
  by (induction s arbitrary: b) (auto split: if_splits prod.splits)

lemma Split_not_Nil [simp]: "Split s c \<noteq> []"
  by (cases s) (auto split: list.splits)

lemma Split_no_sep: "c \<notin> set s \<Longrightarrow> Split s c = [s]"
  by (induction s) auto

lemma Split_append_sep: "c \<notin> set a \<Longrightarrow> Split (a @ c # w) c = a # Split w c"
  by (induction a) auto

lemma append_sep_inj:
  "(c :: char) \<notin> set a \<Longrightarrow> c \<notin> set a' \<Longrightarrow> a @ c # b = a' @ c # b' \<longleftrightarrow> a = a' \<and> b = b'"
proof -
  assume "c \<notin> set a" "c \<notin> set a'"
  then have "Cut (a @ c # b) c = (a, b, True)" "Cut (a' @ c # b') c = (a', b', True)"
    by (simp_all add: Cut_found)
  then show ?thesis by (metis Pair_inject)
qed

lemma map_of_gupdate [simp]: "map_of (gupdate m k v) k' = (if k' = k then Some v else map_of m k')"
  by (induction m k v rule: gupdate.induct) auto

lemma gindex_empty [simp]: "gindex [] k = []"
  by (simp add: gindex_def)

section \<open>Serving the last good value\<close>

text \<open>A cell that is refreshed from an outside source: a step either takes the value the world
  offers or keeps the one it has. The policy store and the certificate reloader are such cells.\<close>

locale last_good_cell =
  fixes step :: "'w \<Rightarrow> 's \<Rightarrow> 's"
    and current :: "'s \<Rightarrow> 'v"
    and offers :: "'w \<Rightarrow> 's \<Rightarrow> 'v option"
  assumes takes: "offers w s = Some v \<Longrightarrow> current (step w s) = v"
    and keeps: "offers w s = None \<Longrightarrow> current (step w s) = current s"
begin

lemma run_current:
  "current (fold step ws s) = current s \<or>
   (\<exists>before w after. ws = before @ w # after \<and> offers w (fold step before s) = Some (current (fold step ws s)))"
proof (induction ws rule: rev_induct)
  case (snoc w ws)
  let ?s = "fold step ws s"
  show ?case
  proof (cases "offers w ?s")
    case None
    then have "current (fold step (ws @ [w]) s) = current ?s" by (simp add: keeps)
    with snoc show ?thesis by (metis append.assoc append_Cons)
  next
    case (Some v)
    then show ?thesis using takes [OF Some] by auto
  qed
qed simp

lemma run_invariant:
  assumes "P (current s)" "\<And>w s v. offers w s = Some v \<Longrightarrow> P v"
  shows "P (current (fold step ws s))"
  using run_current [of ws s] assms by fastforce

end

end
