(* ===== verification/Go_Time.thy ===== *)
theory Go_Time
  imports Broker_Prelude
begin

text \<open>
  The part of Go's package \<open>time\<close> that the broker uses.

  An instant is the number of nanoseconds since the Unix epoch (UTC), an unbounded \<open>int\<close>.
  A \<open>time.Duration\<close> is an \<open>int64\<close> of nanoseconds, a \<open>64 word\<close> read with \<open>sint\<close>:
  multiplication wraps, \<open>Time.Sub\<close> saturates, division truncates towards zero.
  The UTC calendar date is computed in the proleptic Gregorian calendar.
\<close>

type_synonym time = int
type_synonym duration = "64 word"
type_synonym int64 = "64 word"

definition Second :: duration where
  "Second = 1000000000"

definition Minute :: duration where
  "Minute = 60 * Second"

definition Hour :: duration where
  "Hour = 60 * Minute"

text \<open>\<open>time.Time{}\<close> is 1 January of year 1.\<close>

definition zero_time :: time where
  "zero_time = - 62135596800 * 1000000000"

definition IsZero :: "time \<Rightarrow> bool" where
  "IsZero t = (t = zero_time)"

definition After :: "time \<Rightarrow> time \<Rightarrow> bool" where
  "After t u = (u < t)"

definition Add :: "time \<Rightarrow> duration \<Rightarrow> time" where
  "Add t d = t + sint d"

definition max_int64 :: int where
  "max_int64 = 2 ^ 63 - 1"

definition min_int64 :: int where
  "min_int64 = - (2 ^ 63)"

definition Sub :: "time \<Rightarrow> time \<Rightarrow> duration" where
  "Sub t u = word_of_int (max min_int64 (min max_int64 (t - u)))"

definition quot :: "int \<Rightarrow> int \<Rightarrow> int" where
  "quot a b = sgn a * sgn b * (\<bar>a\<bar> div \<bar>b\<bar>)"

definition unix_seconds :: "time \<Rightarrow> int" where
  "unix_seconds t = t div 1000000000"

definition unix_days :: "time \<Rightarrow> int" where
  "unix_days t = t div (86400 * 1000000000)"

section \<open>Calendar dates\<close>

definition year_days :: "int \<Rightarrow> int" where
  "year_days yoe = 365 * yoe + yoe div 4 - yoe div 100"

text \<open>Year of the 400-year era and day of the year (from 1 March) of a day of the era.\<close>

definition split_era :: "int \<Rightarrow> int \<times> int" where
  "split_era doe =
     (let n100 = min 3 (doe div 36524);
          r100 = doe - 36524 * n100;
          n4 = r100 div 1461;
          r4 = r100 mod 1461;
          n1 = min 3 (r4 div 365)
      in (100 * n100 + 4 * n4 + n1, r4 - 365 * n1))"

definition civil_from_days :: "int \<Rightarrow> int \<times> int \<times> int" where
  "civil_from_days z =
     (let (yoe, doy) = split_era ((z + 719468) mod 146097);
          mp = (5 * doy + 2) div 153;
          m = (if mp < 10 then mp + 3 else mp - 9)
      in (yoe + (z + 719468) div 146097 * 400 + (if m \<le> 2 then 1 else 0), m,
          doy - (153 * mp + 2) div 5 + 1))"

definition days_from_civil :: "int \<times> int \<times> int \<Rightarrow> int" where
  "days_from_civil ymd =
     (case ymd of (y0, m, d) \<Rightarrow>
        let y = (if m \<le> 2 then y0 - 1 else y0);
            era = y div 400;
            yoe = y mod 400;
            mp = (if m \<le> 2 then m + 9 else m - 3);
            doy = (153 * mp + 2) div 5 + d - 1;
            doe = year_days yoe + doy
        in era * 146097 + doe - 719468)"

fun itoa :: "nat \<Rightarrow> string" where
  "itoa n = (if n < 10 then [char_of (48 + n)] else itoa (n div 10) @ [char_of (48 + n mod 10)])"

declare itoa.simps [simp del]

text \<open>\<open>appendInt\<close> of package \<open>time\<close>: decimal, zero-padded to a width, sign first.\<close>

definition appendInt :: "int \<Rightarrow> nat \<Rightarrow> string" where
  "appendInt x w =
     (let s = itoa (nat \<bar>x\<bar>)
      in (if x < 0 then ''-'' else []) @ replicate (w - length s) (CHR ''0'') @ s)"

definition format_date :: "time \<Rightarrow> string" where
  "format_date t =
     (case civil_from_days (unix_days t) of (y, m, d) \<Rightarrow>
        appendInt y 4 @ ''-'' @ appendInt m 2 @ ''-'' @ appendInt d 2)"

definition format_rfc3339 :: "time \<Rightarrow> string" where
  "format_rfc3339 t =
     (let s = unix_seconds t mod 86400
      in format_date t @ ''T'' @ appendInt (s div 3600) 2 @ '':'' @
         appendInt (s div 60 mod 60) 2 @ '':'' @ appendInt (s mod 60) 2 @ ''Z'')"

lemmas time_defs [go_defs] =
  Second_def Minute_def Hour_def IsZero_def After_def Add_def Sub_def max_int64_def min_int64_def

section \<open>Lemmas\<close>

lemma sint_Second [simp]: "sint Second = 1000000000"
  by (simp add: Second_def)

lemma sint_range: "min_int64 \<le> sint (d :: duration) \<and> sint d \<le> max_int64"
  using sint_ge [of d] sint_lt [of d] by (simp add: min_int64_def max_int64_def)

lemma sint_word_of_int_exact:
  "min_int64 \<le> x \<Longrightarrow> x \<le> max_int64 \<Longrightarrow> sint (word_of_int x :: 64 word) = x"
  by (simp add: min_int64_def max_int64_def sint_sbintrunc' signed_take_bit_int_eq_self)

lemma sint_Sub: "sint (Sub t u) = max min_int64 (min max_int64 (t - u))"
  unfolding Sub_def by (rule sint_word_of_int_exact) (auto simp: min_int64_def max_int64_def)

lemma Sub_exact:
  "min_int64 \<le> t - u \<Longrightarrow> t - u \<le> max_int64 \<Longrightarrow> sint (Sub t u) = t - u"
  by (simp add: sint_Sub)

lemma Sub_self [simp]: "Sub t t = 0"
  by (simp add: Sub_def min_int64_def max_int64_def)

lemma Sub_mono: "t \<le> u \<Longrightarrow> sint (Sub t a) \<le> sint (Sub u a)"
  by (auto simp: sint_Sub)

lemma quot_nonneg: "0 \<le> a \<Longrightarrow> 0 < b \<Longrightarrow> quot a b = a div b"
  by (cases "a = 0") (auto simp: quot_def)

section \<open>The printed date determines the day\<close>

lemma year_days_split:
  assumes "0 \<le> n4" "n4 \<le> 24" "0 \<le> n1" "n1 \<le> 3"
  shows "year_days (100 * n100 + 4 * n4 + n1) = 36524 * n100 + 1461 * n4 + 365 * n1"
proof -
  have "(100 * n100 + 4 * n4 + n1) div 4 = 25 * n100 + n4" using assms by linarith
  moreover have "(100 * n100 + 4 * n4 + n1) div 100 = n100" using assms by linarith
  ultimately show ?thesis by (simp add: year_days_def)
qed

lemma month_bounds:
  fixes doy :: int
  assumes "0 \<le> doy" "doy \<le> 365"
  defines "mp \<equiv> (5 * doy + 2) div 153"
  shows "0 \<le> mp" "mp \<le> 11" "1 \<le> doy - (153 * mp + 2) div 5 + 1" "doy - (153 * mp + 2) div 5 + 1 \<le> 31"
  using assms unfolding mp_def by linarith+

lemma split_era_correct:
  assumes "0 \<le> doe" "doe \<le> 146096" and eq: "split_era doe = (yoe, doy)"
  shows "0 \<le> yoe" "yoe < 400" "0 \<le> doy" "doy \<le> 365" "year_days yoe + doy = doe"
proof -
  define n100 where "n100 = min 3 (doe div 36524)"
  define r100 where "r100 = doe - 36524 * n100"
  define n4 where "n4 = r100 div 1461"
  define r4 where "r4 = r100 mod 1461"
  define n1 where "n1 = min 3 (r4 div 365)"
  have "(100 * n100 + 4 * n4 + n1, r4 - 365 * n1) = (yoe, doy)"
    using eq by (simp only: split_era_def Let_def n100_def r100_def n4_def r4_def n1_def)
  then have yoe: "yoe = 100 * n100 + 4 * n4 + n1" and doy: "doy = r4 - 365 * n1" by simp_all
  have n100: "0 \<le> n100" "n100 \<le> 3" unfolding n100_def using assms by simp_all
  have r100: "0 \<le> r100" "r100 \<le> 36524"
    unfolding r100_def n100_def using assms by linarith+
  have n4: "0 \<le> n4" "n4 \<le> 24" unfolding n4_def using r100 by linarith+
  have r4: "0 \<le> r4" "r4 \<le> 1460" "r100 = 1461 * n4 + r4"
    unfolding r4_def n4_def by simp_all
  have n1: "0 \<le> n1" "n1 \<le> 3" unfolding n1_def using r4 by simp_all
  show "0 \<le> doy" "doy \<le> 365" unfolding doy n1_def using r4 by linarith+
  show "0 \<le> yoe" "yoe < 400" unfolding yoe using n100 n4 n1 by linarith+
  show "year_days yoe + doy = doe"
    using r4(3) by (simp add: yoe year_days_split [OF n4 n1] doy r100_def)
qed

text \<open>Every day has a year, month and day, and they give the day back.\<close>

lemma civil_from_days_cases:
  obtains y m d where "civil_from_days z = (y, m, d)" "1 \<le> m" "m \<le> 12" "1 \<le> d" "d \<le> 31"
    "days_from_civil (y, m, d) = z" "0 \<le> z \<Longrightarrow> 0 \<le> y"
proof -
  define w where "w = z + 719468"
  obtain yoe doy where e: "split_era (w mod 146097) = (yoe, doy)" by fastforce
  have se: "0 \<le> yoe" "yoe < 400" "0 \<le> doy" "doy \<le> 365" "year_days yoe + doy = w mod 146097"
    using split_era_correct [OF _ _ e] by simp_all
  define mp where "mp = (5 * doy + 2) div 153"
  define m where "m = (if mp < 10 then mp + 3 else mp - 9)"
  define y where "y = yoe + w div 146097 * 400 + (if m \<le> 2 then 1 else 0)"
  define d where "d = doy - (153 * mp + 2) div 5 + 1"
  note mb = month_bounds [OF se(3,4), folded mp_def, folded d_def]
  have c: "civil_from_days z = (y, m, d)"
    by (simp only: civil_from_days_def Let_def prod.case e [unfolded w_def] y_def m_def mp_def d_def w_def)
  have m: "1 \<le> m" "m \<le> 12" "(if m \<le> 2 then m + 9 else m - 3) = mp"
    unfolding m_def using mb(1,2) by (auto split: if_splits)
  have yy: "(if m \<le> 2 then y - 1 else y) = w div 146097 * 400 + yoe" by (simp add: y_def)
  have "(w div 146097 * 400 + yoe) div 400 = w div 146097" "(w div 146097 * 400 + yoe) mod 400 = yoe"
    using se(1,2) by simp_all
  then have "days_from_civil (y, m, d) = w div 146097 * 146097 + (year_days yoe + doy) - 719468"
    using d_def by (simp add: days_from_civil_def Let_def yy m(3))
  then have "days_from_civil (y, m, d) = z" by (simp add: se(5) w_def)
  moreover have "0 \<le> z \<Longrightarrow> 0 \<le> y" using se(1) by (simp add: y_def w_def)
  ultimately show ?thesis using c m mb by (intro that)
qed

lemma itoa_nonempty [simp]: "itoa n \<noteq> []"
  by (subst itoa.simps) simp

lemma itoa_digits: "c \<in> set (itoa n) \<Longrightarrow> 48 \<le> (of_char c :: nat) \<and> (of_char c :: nat) \<le> 57"
  by (induction n rule: itoa.induct) (subst (asm) (2) itoa.simps, auto split: if_splits)

text \<open>Reading a decimal number back.\<close>

fun atoi :: "nat \<Rightarrow> string \<Rightarrow> nat" where
  "atoi acc [] = acc"
| "atoi acc (c # cs) = atoi (10 * acc + (of_char c - 48)) cs"

lemma atoi_append: "atoi acc (xs @ ys) = atoi (atoi acc xs) ys"
  by (induction xs arbitrary: acc) auto

lemma atoi_zeros [simp]: "atoi 0 (replicate k (CHR ''0'') @ s) = atoi 0 s"
  by (induction k) auto

lemma atoi_itoa [simp]: "atoi 0 (itoa n) = n"
proof (induction n rule: itoa.induct)
  case (1 n)
  then show ?case by (subst itoa.simps) (auto simp: atoi_append)
qed

lemma itoa_length_le_2: "n < 100 \<Longrightarrow> length (itoa n) \<le> 2"
  by (subst itoa.simps) (auto simp: itoa.simps [of "n div 10"])

lemma appendInt_nonneg: "0 \<le> x \<Longrightarrow> atoi 0 (appendInt x w) = nat x"
  by (simp add: appendInt_def Let_def)

lemma appendInt_no_dash: "0 \<le> x \<Longrightarrow> CHR ''-'' \<notin> set (appendInt x w)"
  by (auto simp: appendInt_def Let_def dest: itoa_digits)

lemma appendInt_inj: "0 \<le> x \<Longrightarrow> 0 \<le> y \<Longrightarrow> appendInt x w = appendInt y w \<longleftrightarrow> x = y"
  by (metis appendInt_nonneg eq_nat_nat_iff)

lemma format_date_eq_iff:
  assumes "0 \<le> t" "0 \<le> u"
  shows "format_date t = format_date u \<longleftrightarrow> unix_days t = unix_days u"
proof
  assume eq: "format_date t = format_date u"
  obtain y m d where c: "civil_from_days (unix_days t) = (y, m, d)" "1 \<le> m" "1 \<le> d"
      "days_from_civil (y, m, d) = unix_days t" "0 \<le> unix_days t \<Longrightarrow> 0 \<le> y"
    by (rule civil_from_days_cases [of "unix_days t"]) blast
  obtain y' m' d' where c': "civil_from_days (unix_days u) = (y', m', d')" "1 \<le> m'" "1 \<le> d'"
      "days_from_civil (y', m', d') = unix_days u" "0 \<le> unix_days u \<Longrightarrow> 0 \<le> y'"
    by (rule civil_from_days_cases [of "unix_days u"]) blast
  have "0 \<le> unix_days t" "0 \<le> unix_days u" using assms by (simp_all add: unix_days_def)
  then have y: "0 \<le> y" "0 \<le> y'" using c(5) c'(5) by blast+
  have "y = y' \<and> m = m' \<and> d = d'"
    using eq c(1-3) c'(1-3) y unfolding format_date_def
    by (simp add: append_sep_inj appendInt_no_dash appendInt_inj)
  then show "unix_days t = unix_days u" using c(4) c'(4) by simp
qed (simp add: format_date_def)

end
