(* ===== verification/Go_Float.thy ===== *)
theory Go_Float
  imports Go_Time Complex_Main "HOL-Library.Log_Nat"
begin

text \<open>
  Go's \<open>float64\<close>: a rational number, every operation rounded to the nearest number with a
  53-bit significand, ties to even. The exponent range is not bounded in the model: the
  broker's floats are token counts, seconds and counters, far from overflow and underflow.

  \<open>rounding\<close> is the interface the rate limiter and the metrics rest on: a monotone
  rounding, exact on integers up to \<open>2 ^ 53\<close>, with a relative error of at most
  \<open>2 ^ (-53)\<close>. It is interpreted on the rounding of the model.
\<close>

type_synonym float64 = rat

definition binexp :: "rat \<Rightarrow> int" where
  "binexp x = (if 1 \<le> x then int (floorlog 2 (nat \<lfloor>x\<rfloor>)) - 1
               else - int (ceillog2 (nat \<lceil>1 / x\<rceil>)))"

definition round_even :: "rat \<Rightarrow> int" where
  "round_even x =
     (let f = \<lfloor>x\<rfloor>; r = x - of_int f
      in if r < 1 / 2 \<or> r = 1 / 2 \<and> even f then f else f + 1)"

definition round64 :: "rat \<Rightarrow> float64" where
  "round64 x =
     (if x = 0 then 0
      else let u = 2 powi (binexp \<bar>x\<bar> - 52) in of_int (round_even (x / u)) * u)"

definition fadd :: "float64 \<Rightarrow> float64 \<Rightarrow> float64" where
  "fadd x y = round64 (x + y)"

definition fsub :: "float64 \<Rightarrow> float64 \<Rightarrow> float64" where
  "fsub x y = round64 (x - y)"

definition fmul :: "float64 \<Rightarrow> float64 \<Rightarrow> float64" where
  "fmul x y = round64 (x * y)"

definition fdiv :: "float64 \<Rightarrow> float64 \<Rightarrow> float64" where
  "fdiv x y = round64 (x / y)"

text \<open>Conversions \<open>float64(i)\<close> and \<open>int64(f)\<close> (towards zero).\<close>

definition float_of_int :: "int \<Rightarrow> float64" where
  "float_of_int i = round64 (of_int i)"

definition int_of_float :: "float64 \<Rightarrow> int64" where
  "int_of_float x = word_of_int (if 0 \<le> x then \<lfloor>x\<rfloor> else \<lceil>x\<rceil>)"

text \<open>\<open>Duration.Seconds\<close>: whole seconds plus the rest, each a float.\<close>

definition Seconds :: "duration \<Rightarrow> float64" where
  "Seconds d =
     (let sec = quot (sint d) 1000000000; nsec = sint d - sec * 1000000000
      in fadd (float_of_int sec) (fdiv (float_of_int nsec) 1000000000))"

section \<open>The interface of rounded arithmetic\<close>

text \<open>The relative error of one rounding.\<close>

definition eps :: rat where
  "eps = 1 / 2 ^ 53"

lemma eps_nonneg [simp]: "0 \<le> eps"
  by (simp add: eps_def)

locale rounding =
  fixes fl :: "rat \<Rightarrow> rat"
  assumes fl_mono: "x \<le> y \<Longrightarrow> fl x \<le> fl y"
    and fl_int: "\<bar>n\<bar> \<le> 2 ^ 53 \<Longrightarrow> fl (of_int n) = of_int n"
    and fl_error: "\<bar>fl x - x\<bar> \<le> \<bar>x\<bar> * eps"
begin

lemma fl_0: "fl 0 = 0"
  using fl_int [of 0] by simp

lemma fl_nat: "n \<le> 2 ^ 53 \<Longrightarrow> fl (of_nat n) = of_nat n"
  using fl_int [of "int n"] by simp

lemma fl_nonneg: "0 \<le> x \<Longrightarrow> 0 \<le> fl x"
  using fl_mono [of 0 x] by (simp add: fl_0)

lemma fl_le_nat: "x \<le> of_nat n \<Longrightarrow> n \<le> 2 ^ 53 \<Longrightarrow> fl x \<le> of_nat n"
  using fl_mono [of x "of_nat n"] by (simp add: fl_nat)

lemma fl_ge_nat: "of_nat n \<le> x \<Longrightarrow> n \<le> 2 ^ 53 \<Longrightarrow> of_nat n \<le> fl x"
  using fl_mono [of "of_nat n" x] by (simp add: fl_nat)

lemma fl_upper: "0 \<le> x \<Longrightarrow> fl x \<le> x * (1 + eps)"
  using order_trans [OF abs_ge_self fl_error [of x]] by (simp add: algebra_simps)

lemma fl_lower: "0 \<le> x \<Longrightarrow> x * (1 - eps) \<le> fl x"
  using order_trans [OF abs_ge_minus_self fl_error [of x]] by (simp add: algebra_simps)

end

section \<open>The model's rounding meets the interface\<close>

lemma powi_2_pos [simp]: "0 < (2 :: rat) powi e"
  by (simp add: zero_less_power_int)

lemma powi_2_mono: "a \<le> b \<Longrightarrow> (2 :: rat) powi a \<le> 2 powi b"
  by (rule power_int_increasing) auto

lemma binexp_ge_1:
  assumes "1 \<le> x"
  shows "2 powi binexp x \<le> x" "x < 2 powi (binexp x + 1)"
proof -
  define n where "n = nat \<lfloor>x\<rfloor>"
  have "0 < \<lfloor>x\<rfloor>" using assms by simp
  then have n: "0 < n" "(of_nat n :: rat) = of_int \<lfloor>x\<rfloor>" by (simp_all add: n_def)
  have nx: "of_nat n \<le> x" "x < of_nat n + 1" unfolding n(2) using floor_correct [of x] by simp_all
  define k where "k = floorlog 2 n"
  have k: "2 ^ (k - 1) \<le> n" "n < 2 ^ k" "0 < k"
    using floorlog_bounds [OF n(1), of 2] n(1) by (simp_all add: k_def floorlog_def)
  have b: "binexp x = int k - 1" using assms by (simp add: binexp_def n_def k_def)
  have "(2 :: rat) powi binexp x = 2 ^ (k - 1)"
    using k(3) by (simp add: b power_int_def nat_diff_distrib)
  also have "\<dots> \<le> of_nat n" using k(1) of_nat_le_iff [of "2 ^ (k - 1)" n, where ?'a = rat] by simp
  finally show "2 powi binexp x \<le> x" using nx by simp
  have "n + 1 \<le> 2 ^ k" using k(2) by simp
  then have "(of_nat (n + 1) :: rat) \<le> of_nat (2 ^ k)" by (simp only: of_nat_le_iff)
  then have "(of_nat n + 1 :: rat) \<le> 2 ^ k" by (simp add: add.commute)
  then show "x < 2 powi (binexp x + 1)" using nx by (simp add: b)
qed

lemma binexp_less_1:
  assumes "0 < x" "x < 1"
  shows "2 powi binexp x \<le> x" "x < 2 powi (binexp x + 1)"
proof -
  define n where "n = nat \<lceil>1 / x\<rceil>"
  have inv: "1 < 1 / x" using assms by (simp add: less_divide_eq_1_pos)
  have c: "1 < \<lceil>1 / x\<rceil>" by (rule less_ceiling_iff [THEN iffD2]) (use inv in simp)
  then have n: "0 < n" "1 < n" "(of_nat n :: rat) = of_int \<lceil>1 / x\<rceil>"
    using assms by (simp_all add: n_def)
  have nx: "1 / x \<le> of_nat n" "of_nat n < 1 / x + 1"
    unfolding n(3) using ceiling_correct [of "1 / x"] by simp_all
  define k where "k = ceillog2 n"
  have k: "n \<le> 2 ^ k" "2 ^ k < 2 * n"
    using le_two_power_ceillog2 two_power_ceillog2_gt [OF n(1)] by (simp_all add: k_def)
  have k1: "0 < k" using k(1) n(2) by (cases k) auto
  have b: "binexp x = - int k" using assms by (simp add: binexp_def n_def k_def)
  have "(of_nat n :: rat) \<le> of_nat (2 ^ k)" using k(1) by (simp only: of_nat_le_iff)
  then have "1 / x \<le> 2 ^ k" using nx(1) by (simp only: of_nat_power of_nat_numeral)
  then show "2 powi binexp x \<le> x" using assms by (simp add: b power_int_minus field_simps)
  have "2 ^ (k - 1) < n" using k(2) k1 by (cases k) auto
  then have "2 ^ (k - 1) + 1 \<le> n" by simp
  then have "(of_nat (2 ^ (k - 1) + 1) :: rat) \<le> of_nat n" by (simp only: of_nat_le_iff)
  then have "(2 :: rat) ^ (k - 1) + 1 \<le> of_nat n" by (simp add: add.commute)
  then have "2 ^ (k - 1) < 1 / x" using nx by simp
  then have "x < inverse (2 ^ (k - 1))" using assms by (simp add: field_simps)
  moreover have "(2 :: rat) powi (binexp x + 1) = inverse (2 ^ (k - 1))"
    using k1 by (simp add: b power_int_def nat_diff_distrib power_one_over divide_simps)
  ultimately show "x < 2 powi (binexp x + 1)" by simp
qed

lemma binexp_bounds:
  assumes "0 < x"
  shows "2 powi binexp x \<le> x" "x < 2 powi (binexp x + 1)"
  using assms binexp_ge_1 [of x] binexp_less_1 [of x] by (cases "1 \<le> x"; simp)+

lemma round_even_near: "\<bar>of_int (round_even x) - x\<bar> \<le> 1 / 2"
  using floor_correct [of x] unfolding round_even_def Let_def by (auto simp: abs_le_iff field_simps)

lemma round_even_cases: "round_even x = \<lfloor>x\<rfloor> \<or> round_even x = \<lfloor>x\<rfloor> + 1"
  by (simp add: round_even_def Let_def)

lemma round_even_int [simp]: "round_even (of_int n) = n"
  by (simp add: round_even_def)

lemma round_even_mono:
  assumes "x \<le> y"
  shows "round_even x \<le> round_even y"
proof (cases "\<lfloor>x\<rfloor> = \<lfloor>y\<rfloor>")
  case True
  then show ?thesis using assms by (auto simp: round_even_def Let_def)
next
  case False
  then have "\<lfloor>x\<rfloor> + 1 \<le> \<lfloor>y\<rfloor>" using floor_mono [OF assms] by simp
  then show ?thesis using round_even_cases [of x] round_even_cases [of y] by auto
qed

lemma round_even_uminus: "round_even (- x) = - round_even x"
proof (cases "x = of_int \<lfloor>x\<rfloor>")
  case True
  then show ?thesis by (metis of_int_minus round_even_int)
next
  case False
  have "of_int \<lfloor>x\<rfloor> < x" "x < of_int \<lfloor>x\<rfloor> + 1"
    using floor_correct [of x] False by (auto simp: less_le)
  then have "\<lfloor>- x\<rfloor> = - \<lfloor>x\<rfloor> - 1" by (intro floor_unique) auto
  moreover from this have "even \<lfloor>- x\<rfloor> \<longleftrightarrow> odd \<lfloor>x\<rfloor>" by simp
  ultimately show ?thesis by (auto simp: round_even_def Let_def field_simps)
qed

lemma binexp_mono:
  assumes "0 < x" "x \<le> y"
  shows "binexp x \<le> binexp y"
proof (rule ccontr)
  assume "\<not> ?thesis"
  then have "(2 :: rat) powi (binexp y + 1) \<le> 2 powi binexp x" by (intro powi_2_mono) simp
  then show False using binexp_bounds [of x] binexp_bounds [of y] assms by simp
qed

lemma round64_pos: "0 < x \<Longrightarrow>
  round64 x = of_int (round_even (x / 2 powi (binexp x - 52))) * 2 powi (binexp x - 52)"
  by (simp add: round64_def Let_def)

text \<open>The scaled significand lies between \<open>2 ^ 52\<close> and \<open>2 ^ 53\<close>.\<close>

lemma significand_bounds:
  assumes "0 < x"
  shows "2 ^ 52 \<le> x / 2 powi (binexp x - 52)" "x / 2 powi (binexp x - 52) < 2 ^ 53"
  using binexp_bounds [OF assms]
  by (simp_all add: power_int_diff power_int_add field_simps)

lemma round64_between:
  assumes "0 < x"
  shows "2 powi binexp x \<le> round64 x" "round64 x \<le> 2 powi (binexp x + 1)"
proof -
  let ?u = "(2 :: rat) powi (binexp x - 52)"
  have "round_even (of_int (2 ^ 52)) \<le> round_even (x / ?u)"
    using significand_bounds [OF assms] by (intro round_even_mono) simp
  then have "(of_int (2 ^ 52) :: rat) \<le> of_int (round_even (x / ?u))"
    by (simp only: round_even_int of_int_le_iff)
  then have "2 ^ 52 * ?u \<le> round64 x" using assms by (simp add: round64_pos)
  then show "2 powi binexp x \<le> round64 x" by (simp add: power_int_diff)
  have "round_even (x / ?u) \<le> round_even (of_int (2 ^ 53))"
    using significand_bounds [OF assms] by (intro round_even_mono) simp
  then have "(of_int (round_even (x / ?u)) :: rat) \<le> of_int (2 ^ 53)"
    by (simp only: round_even_int of_int_le_iff)
  then have "round64 x \<le> 2 ^ 53 * ?u" using assms by (simp add: round64_pos)
  then show "round64 x \<le> 2 powi (binexp x + 1)" by (simp add: power_int_diff power_int_add)
qed

lemma round64_mono_pos:
  assumes "0 < x" "x \<le> y"
  shows "round64 x \<le> round64 y"
proof (cases "binexp x = binexp y")
  case True
  then show ?thesis
    using assms by (simp add: round64_pos round_even_mono divide_right_mono)
next
  case False
  then have "binexp x + 1 \<le> binexp y" using binexp_mono [OF assms] by simp
  then have "(2 :: rat) powi (binexp x + 1) \<le> 2 powi binexp y" by (rule powi_2_mono)
  then show ?thesis
    using round64_between(2) [of x] round64_between(1) [of y] assms by simp
qed

lemma round64_uminus: "round64 (- x) = - round64 x"
  by (simp add: round64_def Let_def round_even_uminus)

lemma round64_0 [simp]: "round64 0 = 0"
  by (simp add: round64_def)

lemma round64_nonneg: "0 \<le> x \<Longrightarrow> 0 \<le> round64 x"
proof (cases "x = 0")
  case False
  assume "0 \<le> x"
  then have "2 powi binexp x \<le> round64 x" using False by (intro round64_between(1)) simp
  then show ?thesis using powi_2_pos [of "binexp x"] by (rule order_trans [OF less_imp_le, rotated])
qed simp

lemma round64_mono: "x \<le> y \<Longrightarrow> round64 x \<le> round64 y"
proof -
  assume le: "x \<le> y"
  consider "0 < x" | "x \<le> 0" "0 \<le> y" | "y < 0" using le by linarith
  then show ?thesis
  proof cases
    case 1
    then show ?thesis using le by (rule round64_mono_pos)
  next
    case 2
    then show ?thesis
      using round64_nonneg [of "- x"] round64_nonneg [of y] by (simp add: round64_uminus)
  next
    case 3
    then show ?thesis
      using round64_mono_pos [of "- y" "- x"] le by (simp add: round64_uminus)
  qed
qed

lemma round64_error: "\<bar>round64 x - x\<bar> \<le> \<bar>x\<bar> * eps"
proof (cases "x = 0")
  case False
  let ?u = "(2 :: rat) powi (binexp \<bar>x\<bar> - 52)"
  have "round64 x - x = (of_int (round_even (x / ?u)) - x / ?u) * ?u"
    using False by (simp add: round64_def Let_def left_diff_distrib)
  then have "\<bar>round64 x - x\<bar> = \<bar>of_int (round_even (x / ?u)) - x / ?u\<bar> * ?u"
    by (simp add: abs_mult)
  also have "\<dots> \<le> 1 / 2 * ?u" by (intro mult_right_mono round_even_near) simp
  also have "\<dots> = 2 powi binexp \<bar>x\<bar> / 2 ^ 53" by (simp add: power_int_diff)
  also have "\<dots> \<le> \<bar>x\<bar> * eps" using binexp_bounds(1) [of "\<bar>x\<bar>"] False by (simp add: eps_def)
  finally show ?thesis .
qed simp

lemma round64_nat:
  assumes "n \<le> 2 ^ 53"
  shows "round64 (of_nat n) = of_nat n"
proof (cases "n = 0 \<or> n = 2 ^ 53")
  case False
  let ?x = "of_nat n :: rat" and ?e = "binexp (of_nat n)"
  have x: "0 < ?x" "?x < 2 ^ 53"
    using False assms of_nat_less_iff [of n "2 ^ 53", where ?'a = rat] by auto
  have "?e \<le> 52"
  proof (rule ccontr)
    assume "\<not> ?thesis"
    then have "(2 :: rat) powi 53 \<le> 2 powi ?e" by (intro powi_2_mono) simp
    then show False using binexp_bounds(1) [OF x(1)] x(2) by simp
  qed
  then have "?x / 2 powi (?e - 52) = of_int (int n * 2 ^ nat (52 - ?e))"
    by (simp add: power_int_def field_simps)
  then show ?thesis using x(1) by (simp only: round64_pos round_even_int) (simp add: field_simps)
next
  case True
  have b: "binexp (2 ^ 53) = 53"
  proof (rule antisym; rule ccontr)
    assume "\<not> binexp (2 ^ 53) \<le> 53"
    then have "(2 :: rat) powi 54 \<le> 2 powi binexp (2 ^ 53)" by (intro powi_2_mono) simp
    then show False using binexp_bounds(1) [of "2 ^ 53"] by simp
  next
    assume "\<not> 53 \<le> binexp (2 ^ 53)"
    then have "(2 :: rat) powi (binexp (2 ^ 53) + 1) \<le> 2 powi 53" by (intro powi_2_mono) simp
    then show False using binexp_bounds(2) [of "2 ^ 53"] by simp
  qed
  show ?thesis
  proof (cases "n = 0")
    case False
    have "round64 (2 ^ 53) = of_int (round_even (of_int (2 ^ 52))) * 2"
      by (simp only: round64_pos [of "2 ^ 53"] zero_less_power zero_less_numeral b) simp
    then have "round64 (2 ^ 53) = 2 ^ 53" by (simp only: round_even_int) simp
    then show ?thesis using True False by simp
  qed simp
qed

interpretation f64: rounding round64
proof
  fix n :: int
  assume "\<bar>n\<bar> \<le> 2 ^ 53"
  then have *: "round64 (of_nat (nat \<bar>n\<bar>)) = of_nat (nat \<bar>n\<bar>)" by (intro round64_nat) simp
  show "round64 (of_int n) = of_int n"
  proof (cases "0 \<le> n")
    case True
    then show ?thesis using * by simp
  next
    case False
    then have "round64 (- of_int n) = - of_int n" using * by simp
    then show ?thesis by (simp add: round64_uminus)
  qed
qed (fact round64_mono round64_error)+

end
