(* ===== verification/Ratelimit.thy ===== *)
theory Ratelimit
  imports Go_Float
begin

text \<open>
  Package \<open>internal/ratelimit\<close>: the per-key token bucket (\<open>Limiter\<close>) and the per-key
  daily byte budget (\<open>ByteBudget\<close>). The clock reading of a call is its first argument;
  the mutex makes each call one step. The test-only clock setters are left out.

  \<open>keyed_gate\<close> is the contract the HTTP servers rely on: a decision for a key depends on
  that key's own past only. It is interpreted on \<open>Allow\<close>.
\<close>

record bucket =
  b_tokens :: float64
  b_last :: time

record Limiter =
  rl_buckets :: "string \<rightharpoonup> bucket"
  rl_rate :: float64
  rl_burst :: float64

definition New_Limiter :: "float64 \<Rightarrow> int \<Rightarrow> Limiter" where
  "New_Limiter ratePerMinute burst =
     \<lparr>rl_buckets = Map.empty, rl_rate = fdiv ratePerMinute 60, rl_burst = float_of_int burst\<rparr>"

text \<open>The first half of \<open>Allow\<close>: the key's bucket (a new one is full), refilled for the time
  since its last use and capped at the burst.\<close>

definition refill :: "time \<Rightarrow> string \<Rightarrow> Limiter \<Rightarrow> float64" where
  "refill now key l =
     (let b = (case rl_buckets l key of
                 None \<Rightarrow> \<lparr>b_tokens = rl_burst l, b_last = now\<rparr>
               | Some b \<Rightarrow> b);
          tok = fadd (b_tokens b) (fmul (Seconds (Sub now (b_last b))) (rl_rate l))
      in if rl_burst l < tok then rl_burst l else tok)"

definition Allow :: "time \<Rightarrow> string \<Rightarrow> Limiter \<Rightarrow> bool \<times> Limiter" where
  "Allow now key l =
     (let tok = refill now key l
      in if tok < 1
         then (False, l\<lparr>rl_buckets := (rl_buckets l)(key \<mapsto> \<lparr>b_tokens = tok, b_last = now\<rparr>)\<rparr>)
         else (True, l\<lparr>rl_buckets := (rl_buckets l)(key \<mapsto> \<lparr>b_tokens = fsub tok 1, b_last = now\<rparr>)\<rparr>))"

record ByteBudget =
  bb_used :: "string \<rightharpoonup> int64"
  bb_day :: string

definition NewByteBudget :: ByteBudget where
  "NewByteBudget = \<lparr>bb_used = Map.empty, bb_day = []\<rparr>"

definition used_of :: "ByteBudget \<Rightarrow> string \<Rightarrow> int64" where
  "used_of b key = (case bb_used b key of None \<Rightarrow> 0 | Some n \<Rightarrow> n)"

definition Spend :: "time \<Rightarrow> string \<Rightarrow> int64 \<Rightarrow> int64 \<Rightarrow> ByteBudget \<Rightarrow> bool \<times> ByteBudget" where
  "Spend now key n limit b =
     (if sint limit \<le> 0 then (True, b)
      else let day = format_date now;
               b1 = (if day \<noteq> bb_day b then \<lparr>bb_used = Map.empty, bb_day = day\<rparr> else b)
           in if sint limit < sint (used_of b1 key + n) then (False, b1)
              else (True, b1\<lparr>bb_used := (bb_used b1)(key \<mapsto> used_of b1 key + n)\<rparr>))"

section \<open>Sequences of calls\<close>

fun run_calls :: "(time \<Rightarrow> string \<Rightarrow> 'l \<Rightarrow> bool \<times> 'l) \<Rightarrow> (time \<times> string) list \<Rightarrow> 'l \<Rightarrow> bool list \<times> 'l" where
  "run_calls op [] l = ([], l)"
| "run_calls op ((t, k) # cs) l =
     (let (ok, l1) = op t k l; (oks, l2) = run_calls op cs l1 in (ok # oks, l2))"

definition decisions_for :: "string \<Rightarrow> (time \<times> string) list \<Rightarrow> bool list \<Rightarrow> bool list" where
  "decisions_for k cs oks = map snd (filter (\<lambda>(c, ok). snd c = k) (zip cs oks))"

definition admitted :: "bool list \<Rightarrow> nat" where
  "admitted oks = length (filter id oks)"

section \<open>The contract of a keyed gate\<close>

locale keyed_gate =
  fixes allow :: "time \<Rightarrow> string \<Rightarrow> 'l \<Rightarrow> bool \<times> 'l"
    and view :: "'l \<Rightarrow> string \<Rightarrow> 'v"
  assumes local: "view l k = view l' k \<Longrightarrow> fst (allow t k l) = fst (allow t k l') \<and>
                    view (snd (allow t k l)) k = view (snd (allow t k l')) k"
    and other: "k' \<noteq> k \<Longrightarrow> view (snd (allow t k' l)) k = view l k"
begin

lemma decisions_local:
  "view l k = view l' k \<Longrightarrow>
   decisions_for k cs (fst (run_calls allow cs l)) =
   fst (run_calls allow (filter (\<lambda>c. snd c = k) cs) l')"
proof (induction cs arbitrary: l l')
  case Nil
  then show ?case by (simp add: decisions_for_def)
next
  case (Cons c cs)
  obtain t k' where c: "c = (t, k')" by fastforce
  show ?case
  proof (cases "k' = k")
    case True
    then show ?thesis
      using Cons.IH [of "snd (allow t k l)" "snd (allow t k l')"] local [OF Cons.prems, of t] c
      by (simp add: decisions_for_def split_beta Let_def)
  next
    case False
    then show ?thesis
      using Cons.IH [of "snd (allow t k' l)" l'] other [OF False, of t l] Cons.prems c
      by (simp add: decisions_for_def split_beta Let_def)
  qed
qed

end

section \<open>The token bucket\<close>

definition limiter_view :: "Limiter \<Rightarrow> string \<Rightarrow> bucket option \<times> float64 \<times> float64" where
  "limiter_view l k = (rl_buckets l k, rl_rate l, rl_burst l)"

lemma Allow_config [simp]:
  "rl_rate (snd (Allow t k l)) = rl_rate l" "rl_burst (snd (Allow t k l)) = rl_burst l"
  by (simp_all add: Allow_def Let_def)

lemma Allow_other [simp]: "k' \<noteq> k \<Longrightarrow> rl_buckets (snd (Allow t k' l)) k = rl_buckets l k"
  by (simp add: Allow_def Let_def)

lemma refill_same:
  "rl_buckets l k = rl_buckets l' k \<Longrightarrow> rl_rate l = rl_rate l' \<Longrightarrow> rl_burst l = rl_burst l' \<Longrightarrow>
   refill t k l = refill t k l'"
  by (cases "rl_buckets l' k") (simp_all add: refill_def Let_def)

lemma Allow_same:
  "rl_buckets l k = rl_buckets l' k \<Longrightarrow> rl_rate l = rl_rate l' \<Longrightarrow> rl_burst l = rl_burst l' \<Longrightarrow>
   fst (Allow t k l) = fst (Allow t k l') \<and>
   rl_buckets (snd (Allow t k l)) k = rl_buckets (snd (Allow t k l')) k"
  using refill_same [of l k l' t] by (simp add: Allow_def Let_def)

interpretation limiter: keyed_gate Allow limiter_view
  by standard (auto simp: limiter_view_def dest: Allow_same)

text \<open>The state of one key's bucket: its tokens, and a full bucket for a new key.\<close>

definition tokens_at :: "Limiter \<Rightarrow> string \<Rightarrow> float64" where
  "tokens_at l k = (case rl_buckets l k of None \<Rightarrow> rl_burst l | Some b \<Rightarrow> b_tokens b)"

definition last_at :: "time \<Rightarrow> Limiter \<Rightarrow> string \<Rightarrow> time" where
  "last_at now l k = (case rl_buckets l k of None \<Rightarrow> now | Some b \<Rightarrow> b_last b)"

lemma refill_eq:
  "refill t k l = min (rl_burst l)
     (round64 (tokens_at l k + round64 (Seconds (Sub t (last_at t l k)) * rl_rate l)))"
  by (cases "rl_buckets l k")
    (auto simp: refill_def Let_def tokens_at_def last_at_def fadd_def fmul_def)

lemma Allow_fst: "fst (Allow t k l) \<longleftrightarrow> 1 \<le> refill t k l"
  by (auto simp: Allow_def Let_def)

lemma Allow_tokens:
  "tokens_at (snd (Allow t k l)) k =
     (if refill t k l < 1 then refill t k l else round64 (refill t k l - 1))"
  by (simp add: Allow_def Let_def tokens_at_def fsub_def)

lemma Allow_last [simp]: "last_at u (snd (Allow t k l)) k = t"
  by (simp add: Allow_def Let_def last_at_def)

lemma Seconds_0 [simp]: "Seconds 0 = 0"
  by (simp add: Seconds_def quot_def float_of_int_def fadd_def fdiv_def)

lemma refill_idle:
  assumes "last_at t l k = t" "tokens_at l k = of_nat n" "rl_burst l = of_nat m" "n \<le> m" "m \<le> 2 ^ 53"
  shows "refill t k l = of_nat n"
  using assms f64.fl_nat [of n] by (simp add: refill_eq min_def)

text \<open>A bucket with a whole number of tokens, hit again and again at one instant.\<close>

lemma burst_from:
  assumes "last_at t l k = t" "tokens_at l k = of_nat n" "rl_burst l = of_nat m" "n \<le> m" "m \<le> 2 ^ 53"
  shows "fst (run_calls Allow (replicate j (t, k)) l) = replicate (min n j) True @ replicate (j - n) False"
  using assms
proof (induction j arbitrary: l n)
  case 0
  then show ?case by simp
next
  case (Suc j)
  note r = refill_idle [OF Suc.prems]
  show ?case
  proof (cases n)
    case 0
    then have "\<not> fst (Allow t k l)" "tokens_at (snd (Allow t k l)) k = of_nat 0"
      using r by (simp_all add: Allow_fst Allow_tokens)
    then show ?thesis
      using Suc.IH [of "snd (Allow t k l)" 0] Suc.prems 0 by (simp add: split_beta Let_def)
  next
    case (Suc n')
    have "round64 (of_nat n' :: rat) = of_nat n'"
      using Suc Suc.prems by (intro f64.fl_nat) simp
    then have "fst (Allow t k l)" "tokens_at (snd (Allow t k l)) k = of_nat n'"
      using r Suc by (simp_all add: Allow_fst Allow_tokens)
    then show ?thesis
      using Suc.IH [of "snd (Allow t k l)" n'] Suc.prems Suc by (simp add: split_beta Let_def)
  qed
qed


section \<open>The sustained rate\<close>

lemma Seconds_bounds:
  assumes "0 \<le> sint d"
  shows "0 \<le> Seconds d" "Seconds d \<le> of_int (sint d) / 1000000000 * (1 + eps) ^ 2"
proof -
  define q r where "q = sint d div 1000000000" and "r = sint d mod 1000000000"
  have "sint d < 9223372036854775808" using sint_range [of d] by (simp add: max_int64_def)
  then have "0 \<le> q" "q \<le> 9007199254740992" unfolding q_def using assms by linarith+
  then have q: "0 \<le> q" "q \<le> 2 ^ 53" by simp_all
  have r: "0 \<le> r" "r \<le> 2 ^ 53" "sint d - q * 1000000000 = r"
    unfolding r_def q_def by (simp_all add: minus_div_mult_eq_mod)
  have d: "(of_int (sint d) :: rat) = of_int q * 1000000000 + of_int r"
  proof -
    have "sint d = q * 1000000000 + r" by (simp add: q_def r_def)
    then show ?thesis by (simp only: of_int_add of_int_mult of_int_numeral)
  qed
  have S: "Seconds d = round64 (of_int q + round64 (of_int r / 1000000000))"
  proof -
    have "quot (sint d) 1000000000 = q" using assms by (simp add: quot_nonneg q_def)
    moreover have "round64 (of_int q) = of_int q" "round64 (of_int r) = of_int r"
      using q r by (auto intro!: f64.fl_int)
    ultimately show ?thesis
      by (simp only: Seconds_def Let_def r(3) float_of_int_def fadd_def fdiv_def)
  qed
  let ?f = "round64 (of_int r / 1000000000)"
  have f: "0 \<le> ?f" "?f \<le> of_int r / 1000000000 * (1 + eps)"
    using r(1) f64.fl_upper [of "of_int r / 1000000000"] by (auto intro!: f64.fl_nonneg)
  show "0 \<le> Seconds d" unfolding S using q f(1) by (intro f64.fl_nonneg) simp
  have "Seconds d \<le> (of_int q + ?f) * (1 + eps)"
    unfolding S using q f(1) by (intro f64.fl_upper) simp
  also have "\<dots> \<le> (of_int q * (1 + eps) + of_int r / 1000000000 * (1 + eps)) * (1 + eps)"
    using q f(2) by (intro mult_right_mono add_mono) (simp_all add: distrib_left)
  also have "\<dots> = of_int (sint d) / 1000000000 * (1 + eps) ^ 2"
    unfolding d by (simp add: add_divide_distrib power2_eq_square algebra_simps)
  finally show "Seconds d \<le> of_int (sint d) / 1000000000 * (1 + eps) ^ 2" .
qed

lemma Seconds_elapsed:
  assumes "u \<le> t"
  shows "0 \<le> Seconds (Sub t u)" "Seconds (Sub t u) \<le> of_int (t - u) / 1000000000 * (1 + eps) ^ 2"
proof -
  have s: "0 \<le> sint (Sub t u)" "sint (Sub t u) \<le> t - u"
    using assms by (simp_all add: sint_Sub max_int64_def min_int64_def)
  then have "(of_int (sint (Sub t u)) :: rat) / 1000000000 * (1 + eps) ^ 2
      \<le> of_int (t - u) / 1000000000 * (1 + eps) ^ 2"
    by (intro mult_right_mono divide_right_mono) (simp_all only: of_int_le_iff, simp_all)
  then show "0 \<le> Seconds (Sub t u)" "Seconds (Sub t u) \<le> of_int (t - u) / 1000000000 * (1 + eps) ^ 2"
    using Seconds_bounds [OF s(1)] by (blast intro: order_trans)+
qed

text \<open>The bucket of one key: rate and tokens not negative, tokens at most the burst.\<close>

definition bucket_ok :: "Limiter \<Rightarrow> string \<Rightarrow> bool" where
  "bucket_ok l k \<longleftrightarrow> 0 \<le> rl_rate l \<and> round64 (rl_burst l) = rl_burst l \<and>
     0 \<le> tokens_at l k \<and> tokens_at l k \<le> rl_burst l"

lemma refill_bounds:
  assumes "bucket_ok l k" "last_at t l k \<le> t"
  shows "0 \<le> refill t k l" "refill t k l \<le> rl_burst l"
    "refill t k l \<le> tokens_at l k + eps * rl_burst l
        + rl_rate l * (of_int (t - last_at t l k) / 1000000000) * (1 + eps) ^ 4"
proof -
  let ?T = "tokens_at l k" and ?B = "rl_burst l" and ?r = "rl_rate l"
    and ?dt = "of_int (t - last_at t l k) / 1000000000 :: rat"
  let ?s = "Seconds (Sub t (last_at t l k))"
  note sec = Seconds_elapsed [OF assms(2)]
  have T: "0 \<le> ?T" "?T \<le> ?B" and r: "0 \<le> ?r" using assms(1) by (auto simp: bucket_ok_def)
  let ?i = "round64 (?s * ?r)"
  have i0: "0 \<le> ?i" using sec(1) r by (intro f64.fl_nonneg) simp
  have "?i \<le> ?s * ?r * (1 + eps)" using sec(1) r by (intro f64.fl_upper) simp
  also have "\<dots> \<le> ?dt * (1 + eps) ^ 2 * ?r * (1 + eps)"
    using sec(2) r by (intro mult_right_mono) auto
  finally have i: "?i \<le> ?r * ?dt * (1 + eps) ^ 3" by (simp add: power3_eq_cube power2_eq_square mult_ac)
  show "0 \<le> refill t k l" using T i0 by (simp add: refill_eq f64.fl_nonneg)
  show "refill t k l \<le> ?B" by (simp add: refill_eq)
  have "refill t k l \<le> round64 (?T + ?i)" by (simp add: refill_eq)
  also have "\<dots> \<le> (?T + ?i) * (1 + eps)" using T i0 by (intro f64.fl_upper) simp
  also have "\<dots> = ?T + eps * ?T + ?i * (1 + eps)" by (simp add: algebra_simps)
  also have "\<dots> \<le> ?T + eps * ?B + (?r * ?dt * (1 + eps) ^ 3) * (1 + eps)"
    using T(2) i by (intro add_mono mult_right_mono mult_left_mono) auto
  finally show "refill t k l \<le> ?T + eps * ?B + ?r * ?dt * (1 + eps) ^ 4"
    by (simp add: power3_eq_cube power4_eq_xxxx mult_ac)
qed

lemma Allow_bucket_ok:
  assumes "bucket_ok l k" "last_at t l k \<le> t"
  shows "bucket_ok (snd (Allow t k l)) k"
proof -
  note r = refill_bounds(1,2) [OF assms]
  have "round64 (refill t k l - 1) \<le> rl_burst l"
    using f64.fl_mono [of "refill t k l - 1" "rl_burst l"] assms(1) r by (simp add: bucket_ok_def)
  then show ?thesis
    using assms(1) r by (auto simp: bucket_ok_def Allow_tokens intro: f64.fl_nonneg)
qed

text \<open>One call: what it admits plus what it leaves is paid for by the refilled bucket and a rounding
  error, so by the tokens it found, the refill for the elapsed time, and two rounding errors.\<close>

lemma Allow_leaves:
  assumes "bucket_ok l k" "last_at t l k \<le> t"
  shows "(if fst (Allow t k l) then 1 else 0) + tokens_at (snd (Allow t k l)) k \<le> refill t k l + eps * rl_burst l"
proof -
  note r = refill_bounds(1,2) [OF assms]
  let ?R = "refill t k l" and ?B = "rl_burst l"
  have e: "0 \<le> eps * ?B" using r by simp
  have "1 + round64 (?R - 1) \<le> ?R + eps * ?B" if "1 \<le> ?R"
  proof -
    have "round64 (?R - 1) \<le> (?R - 1) * (1 + eps)" using that by (intro f64.fl_upper) simp
    also have "\<dots> = ?R - 1 + eps * (?R - 1)" by (simp add: algebra_simps)
    also have "\<dots> \<le> ?R - 1 + eps * ?B" using r(2) by (intro add_left_mono mult_left_mono) auto
    finally show ?thesis by simp
  qed
  then show ?thesis using e by (auto simp: Allow_fst Allow_tokens not_less)
qed

lemma Allow_pays:
  assumes "bucket_ok l k" "last_at t l k \<le> t"
  shows "(if fst (Allow t k l) then 1 else 0) + tokens_at (snd (Allow t k l)) k
    \<le> tokens_at l k + 2 * eps * rl_burst l
        + rl_rate l * (of_int (t - last_at t l k) / 1000000000) * (1 + eps) ^ 4"
  using Allow_leaves [OF assms] refill_bounds(3) [OF assms] by simp

lemma run_pays:
  assumes "bucket_ok l k" "rl_buckets l k = Some b" "sorted (b_last b # ts)"
  shows "of_nat (admitted (fst (run_calls Allow (map (\<lambda>t. (t, k)) ts) l)))
    \<le> tokens_at l k + 2 * of_nat (length ts) * eps * rl_burst l
        + rl_rate l * (of_int (last (b_last b # ts) - b_last b) / 1000000000) * (1 + eps) ^ 4"
  using assms
proof (induction ts arbitrary: l b)
  case Nil
  then show ?case by (simp add: admitted_def bucket_ok_def)
next
  case (Cons t ts)
  have last: "last_at t l k = b_last b" using Cons.prems(2) by (simp add: last_at_def)
  have le: "last_at t l k \<le> t" using Cons.prems(3) last by simp
  obtain b' where b': "rl_buckets (snd (Allow t k l)) k = Some b'" "b_last b' = t"
    by (cases "refill t k l < 1") (auto simp: Allow_def Let_def)
  have "of_nat (admitted (fst (run_calls Allow (map (\<lambda>t. (t, k)) ts) (snd (Allow t k l)))))
    \<le> tokens_at (snd (Allow t k l)) k + 2 * of_nat (length ts) * eps * rl_burst l
        + rl_rate l * (of_int (last (t # ts) - t) / 1000000000) * (1 + eps) ^ 4"
    using Cons.IH [OF Allow_bucket_ok [OF Cons.prems(1) le] b'(1)] Cons.prems(3) b'(2) by simp
  moreover have "(if fst (Allow t k l) then 1 else 0) + tokens_at (snd (Allow t k l)) k
    \<le> tokens_at l k + 2 * eps * rl_burst l
        + rl_rate l * (of_int (t - b_last b) / 1000000000) * (1 + eps) ^ 4"
    using Allow_pays [OF Cons.prems(1) le] last by simp
  moreover have "rl_rate l * (of_int (last (t # ts) - b_last b) / 1000000000) * (1 + eps) ^ 4
      = rl_rate l * (of_int (last (t # ts) - t) / 1000000000) * (1 + eps) ^ 4
      + rl_rate l * (of_int (t - b_last b) / 1000000000) * (1 + eps) ^ 4"
    by (simp add: diff_divide_distrib algebra_simps)
  moreover have "2 * of_nat (length (t # ts)) * eps * rl_burst l
      = 2 * of_nat (length ts) * eps * rl_burst l + 2 * eps * rl_burst l"
    by (simp add: algebra_simps)
  moreover have "(of_nat (admitted (fst (run_calls Allow (map (\<lambda>t. (t, k)) (t # ts)) l))) :: rat)
      = (if fst (Allow t k l) then 1 else 0)
        + of_nat (admitted (fst (run_calls Allow (map (\<lambda>t. (t, k)) ts) (snd (Allow t k l)))))"
    by (simp add: admitted_def split_beta Let_def)
  moreover have "last (b_last b # t # ts) = last (t # ts)" by simp
  ultimately show ?case by (simp only:)
qed

lemma New_Limiter_ok:
  assumes "0 \<le> rpm" "0 \<le> burst" "burst \<le> 2 ^ 53"
  shows "bucket_ok (New_Limiter rpm burst) k" "rl_burst (New_Limiter rpm burst) = of_int burst"
    "rl_buckets (New_Limiter rpm burst) k = None"
  using assms f64.fl_int [of burst]
  by (simp_all add: bucket_ok_def New_Limiter_def tokens_at_def float_of_int_def fdiv_def f64.fl_nonneg)

text \<open>A limiter that has served calls up to a time, whatever keys they had.\<close>

definition served_until :: "time \<Rightarrow> string \<Rightarrow> Limiter \<Rightarrow> bool" where
  "served_until u k l \<longleftrightarrow> bucket_ok l k \<and> (\<forall>b. rl_buckets l k = Some b \<longrightarrow> b_last b \<le> u)"

lemma served_until_last: "served_until u k l \<Longrightarrow> u \<le> t \<Longrightarrow> last_at t l k \<le> t"
  by (cases "rl_buckets l k") (auto simp: served_until_def last_at_def)

lemma Allow_served:
  assumes "served_until u k l" "u \<le> t"
  shows "served_until t k (snd (Allow t k' l))"
proof (cases "k' = k")
  case True
  have "b_last b = t" if "rl_buckets (snd (Allow t k l)) k = Some b" for b
    using that by (cases "refill t k l < 1") (auto simp: Allow_def Let_def)
  then show ?thesis
    using Allow_bucket_ok [OF _ served_until_last [OF assms]] assms(1) True by (auto simp: served_until_def)
next
  case False
  then show ?thesis using assms by (cases "rl_buckets l k") (auto simp: served_until_def bucket_ok_def tokens_at_def)
qed

lemma run_calls_config [simp]:
  "rl_rate (snd (run_calls Allow cs l)) = rl_rate l" "rl_burst (snd (run_calls Allow cs l)) = rl_burst l"
  by (induction cs arbitrary: l) (auto simp: split_beta Let_def)

lemma run_calls_served:
  assumes "served_until u k l" "sorted (u # map fst cs)"
  shows "served_until (last (u # map fst cs)) k (snd (run_calls Allow cs l))"
  using assms
proof (induction cs arbitrary: u l)
  case (Cons c cs)
  obtain t k' where c: "c = (t, k')" by fastforce
  then have "served_until t k (snd (Allow t k' l))" using Cons.prems by (intro Allow_served) auto
  from Cons.IH [OF this] Cons.prems(2) c show ?case by (simp add: split_beta Let_def)
qed simp

text \<open>The first call of a key in a window finds at most a full bucket, however long the key was idle
  before, so the bound starts at the burst.\<close>

lemma window_pays:
  assumes "served_until u k l" "sorted (u # t # ts)"
  shows "of_nat (admitted (fst (run_calls Allow (map (\<lambda>t. (t, k)) (t # ts)) l)))
    \<le> rl_burst l + 2 * of_nat (length (t # ts)) * eps * rl_burst l
        + rl_rate l * (of_int (last (t # ts) - t) / 1000000000) * (1 + eps) ^ 4"
proof -
  let ?l1 = "snd (Allow t k l)"
  have ok: "bucket_ok l k" "last_at t l k \<le> t"
    using assms served_until_last [OF assms(1), of t] by (auto simp: served_until_def)
  obtain b where b: "rl_buckets ?l1 k = Some b" "b_last b = t"
    by (cases "refill t k l < 1") (auto simp: Allow_def Let_def)
  have "of_nat (admitted (fst (run_calls Allow (map (\<lambda>t. (t, k)) ts) ?l1)))
    \<le> tokens_at ?l1 k + 2 * of_nat (length ts) * eps * rl_burst l
        + rl_rate l * (of_int (last (t # ts) - t) / 1000000000) * (1 + eps) ^ 4"
    using run_pays [OF Allow_bucket_ok [OF ok] b(1), of ts] b(2) assms(2) by simp
  moreover have "(if fst (Allow t k l) then 1 else 0) + tokens_at ?l1 k \<le> rl_burst l + 2 * eps * rl_burst l"
  proof -
    have "0 \<le> eps * rl_burst l" using refill_bounds(1,2) [OF ok] by simp
    then show ?thesis using Allow_leaves [OF ok] refill_bounds(2) [OF ok] by linarith
  qed
  moreover have "2 * of_nat (length (t # ts)) * eps * rl_burst l
      = 2 * of_nat (length ts) * eps * rl_burst l + 2 * eps * rl_burst l"
    by (simp add: algebra_simps)
  moreover have "(of_nat (admitted (fst (run_calls Allow (map (\<lambda>t. (t, k)) (t # ts)) l))) :: rat)
      = (if fst (Allow t k l) then 1 else 0)
        + of_nat (admitted (fst (run_calls Allow (map (\<lambda>t. (t, k)) ts) ?l1)))"
    by (simp add: admitted_def split_beta Let_def)
  ultimately show ?thesis by linarith
qed

section \<open>The daily byte budget\<close>

text \<open>A sequence of \<open>Spend\<close> calls under one limit per key, and the bytes of one key it
  accepts on one UTC day.\<close>

fun run_spends :: "(string \<Rightarrow> int64) \<Rightarrow> (time \<times> string \<times> int64) list \<Rightarrow> ByteBudget \<Rightarrow> bool list \<times> ByteBudget" where
  "run_spends L [] b = ([], b)"
| "run_spends L ((t, k, n) # cs) b =
     (let (ok, b1) = Spend t k n (L k) b; (oks, b2) = run_spends L cs b1 in (ok # oks, b2))"

definition accepted_bytes :: "string \<Rightarrow> int \<Rightarrow> (time \<times> string \<times> int64) list \<Rightarrow> bool list \<Rightarrow> int" where
  "accepted_bytes k day cs oks =
     (\<Sum>((t, k', n), ok) \<leftarrow> zip cs oks. if ok \<and> k' = k \<and> unix_days t = day then sint n else 0)"

text \<open>The table belongs to the UTC day of \<open>u\<close>, or nothing has been spent.\<close>

definition budget_day :: "ByteBudget \<Rightarrow> time \<Rightarrow> bool" where
  "budget_day b u \<longleftrightarrow> bb_day b = format_date u \<or> bb_used b = Map.empty"

lemma unix_days_mono: "t \<le> u \<Longrightarrow> unix_days t \<le> unix_days u"
  by (simp add: unix_days_def zdiv_mono1)

lemma sint_plus_exact:
  fixes a b :: int64
  assumes "0 \<le> sint a" "0 \<le> sint b" "sint a + sint b \<le> max_int64"
  shows "sint (a + b) = sint a + sint b"
proof -
  have "a + b = word_of_int (sint a + sint b)" by simp
  then show ?thesis using assms by (simp only:) (rule sint_word_of_int_exact, simp_all add: min_int64_def)
qed

lemma Spend_step:
  assumes "0 \<le> u" "u \<le> t" "budget_day b u" "Spend t k' n L b = (ok, b')"
    and "0 \<le> sint n" "0 < sint L" "sint L + sint n \<le> max_int64"
    and "0 \<le> sint (used_of b k)" "sint (used_of b k) \<le> M" and "k' = k \<Longrightarrow> M = sint L"
  shows "budget_day b' t" "0 \<le> sint (used_of b' k)" "sint (used_of b' k) \<le> M"
    "sint (used_of b' k) = (if unix_days t = unix_days u then sint (used_of b k) else 0)
        + (if ok \<and> k' = k then sint n else 0)"
proof -
  define b1 where "b1 = (if format_date t \<noteq> bb_day b then \<lparr>bb_used = Map.empty, bb_day = format_date t\<rparr> else b)"
  have day: "bb_day b1 = format_date t" by (simp add: b1_def)
  have u1: "used_of b1 k = (if unix_days t = unix_days u then used_of b k else 0)"
    using assms(1-3) format_date_eq_iff [of t u]
    by (auto simp: b1_def budget_day_def used_of_def split: option.splits)
  have r1: "0 \<le> sint (used_of b1 k)" "sint (used_of b1 k) \<le> M"
    using u1 assms(8,9) by auto
  have S: "Spend t k' n L b = (if sint L < sint (used_of b1 k' + n) then (False, b1)
      else (True, b1\<lparr>bb_used := (bb_used b1)(k' \<mapsto> used_of b1 k' + n)\<rparr>))"
  proof -
    have "(sint L \<le> 0) = False" using assms(6) by simp
    then show ?thesis by (simp only: Spend_def Let_def b1_def if_False)
  qed
  consider (reject) "\<not> ok" "b' = b1"
    | (other) "k' \<noteq> k" "b' = b1\<lparr>bb_used := (bb_used b1)(k' \<mapsto> used_of b1 k' + n)\<rparr>"
    | (accept) "ok" "k' = k" "b' = b1\<lparr>bb_used := (bb_used b1)(k \<mapsto> used_of b1 k + n)\<rparr>"
        "sint (used_of b1 k + n) \<le> sint L"
    using S assms(4) by (cases "k' = k") (auto split: if_splits)
  then have "bb_day b' = format_date t \<and> sint (used_of b' k) \<le> M \<and>
      sint (used_of b' k) = sint (used_of b1 k) + (if ok \<and> k' = k then sint n else 0)"
  proof cases
    case accept
    have "sint (used_of b1 k + n) = sint (used_of b1 k) + sint n"
      using r1 assms(5,7) assms(10) [OF accept(2)] by (intro sint_plus_exact) auto
    moreover have "used_of b' k = used_of b1 k + n" by (simp add: accept(3) used_of_def)
    ultimately show ?thesis using accept day assms(10) by simp
  qed (use day r1 in \<open>auto simp: used_of_def\<close>)
  then show "budget_day b' t" "0 \<le> sint (used_of b' k)" "sint (used_of b' k) \<le> M"
    "sint (used_of b' k) = (if unix_days t = unix_days u then sint (used_of b k) else 0)
        + (if ok \<and> k' = k then sint n else 0)"
    using r1 u1 assms(5) by (auto simp: budget_day_def)
qed

lemma accepted_bytes_Cons:
  "accepted_bytes k D ((t, k', n) # cs) (ok # oks) =
     (if ok \<and> k' = k \<and> unix_days t = D then sint n else 0) + accepted_bytes k D cs oks"
  by (simp add: accepted_bytes_def)

lemma run_spends_bound:
  assumes "0 \<le> u" "sorted (u # map fst cs)" "budget_day b u"
    and "0 \<le> sint (used_of b k)" "sint (used_of b k) \<le> sint (L k)" "0 < sint (L k)"
    and "\<forall>(t, k', n) \<in> set cs. 0 \<le> sint n \<and> sint (L k') + sint n \<le> max_int64"
  shows "accepted_bytes k D cs (fst (run_spends L cs b)) \<le>
    (if D < unix_days u then 0 else if D = unix_days u then sint (L k) - sint (used_of b k) else sint (L k))"
  using assms
proof (induction cs arbitrary: u b)
  case Nil
  then show ?case by (simp add: accepted_bytes_def)
next
  case (Cons c cs)
  obtain t k' n where c: "c = (t, k', n)" using prod_cases3 by blast
  obtain ok b' where S: "Spend t k' n (L k') b = (ok, b')" by fastforce
  have t: "u \<le> t" "0 \<le> t" "sorted (t # map fst cs)" using Cons.prems(1,2) c by auto
  have n: "0 \<le> sint n" "sint (L k') + sint n \<le> max_int64"
    and rest: "\<forall>(t, k', n) \<in> set cs. 0 \<le> sint n \<and> sint (L k') + sint n \<le> max_int64"
    using Cons.prems(7) c by auto
  have run: "accepted_bytes k D (c # cs) (fst (run_spends L (c # cs) b)) =
      (if ok \<and> k' = k \<and> unix_days t = D then sint n else 0)
      + accepted_bytes k D cs (fst (run_spends L cs b'))"
    by (simp add: c S split_beta Let_def accepted_bytes_Cons)
  show ?case
  proof (cases "0 < sint (L k')")
    case False
    then have "b' = b" "k' \<noteq> k" using S Cons.prems(6) by (auto simp: Spend_def)
    then show ?thesis
      unfolding run using Cons.IH [of u b] Cons.prems rest c by (simp add: sorted_wrt_append)
  next
    case True
    note st = Spend_step [OF Cons.prems(1) t(1) Cons.prems(3) S n(1) True n(2) Cons.prems(4,5)]
    have "k' = k \<Longrightarrow> sint (L k) = sint (L k')" by simp
    note st = st [OF this]
    note IH = Cons.IH [OF t(2,3) st(1,2,3) Cons.prems(6) rest]
    have "unix_days u \<le> unix_days t" using t(1) by (rule unix_days_mono)
    then show ?thesis unfolding run using IH st(4) Cons.prems(4,5) st(2,3) n by (auto split: if_splits)
  qed
qed

lemma budget_start: "budget_day NewByteBudget u" "used_of NewByteBudget k = 0"
  by (simp_all add: budget_day_def NewByteBudget_def used_of_def)

section \<open>Properties\<close>

text \<open>No key can spend another key's tokens. The decisions a key gets in any interleaving
  of calls are those it would get if no other key had ever called.\<close>

theorem limiter_keys_isolated:
  "decisions_for k cs (fst (run_calls Allow cs l)) =
   fst (run_calls Allow (filter (\<lambda>c. snd c = k) cs) l)"
  by (rule limiter.decisions_local) simp

text \<open>A fresh key gets exactly the burst, then is refused until time passes.\<close>

theorem limiter_burst_exact:
  assumes "0 \<le> burst" "burst \<le> 2 ^ 53"
  shows "fst (run_calls Allow (replicate j (t, k)) (New_Limiter rpm burst)) =
    replicate (min (nat burst) j) True @ replicate (j - nat burst) False"
proof -
  have b: "rl_burst (New_Limiter rpm burst) = of_nat (nat burst)"
    using assms f64.fl_int [of burst] by (simp add: New_Limiter_def float_of_int_def)
  moreover have "last_at t (New_Limiter rpm burst) k = t" "rl_buckets (New_Limiter rpm burst) k = None"
    by (simp_all add: New_Limiter_def last_at_def)
  moreover have "nat burst \<le> 2 ^ 53" using assms by simp
  ultimately show ?thesis by (intro burst_from) (simp_all add: tokens_at_def)
qed

theorem limiter_burst_exact_witness:
  "fst (run_calls Allow (replicate 4 (7, ''agents/a'')) (New_Limiter 60 2)) = [True, True, False, False]"
  using limiter_burst_exact [of 2 4 7 "''agents/a''" 60] by (simp add: numeral_eq_Suc)

lemma rate_bound:
  assumes "0 \<le> rpm" "0 \<le> burst" "burst \<le> 2 ^ 53"
    and "sorted (map fst (before @ cs))" "filter (\<lambda>c. snd c = k) cs = (t0, k) # rest"
  shows "of_nat (admitted (decisions_for k cs (fst (run_calls Allow cs (snd (run_calls Allow before (New_Limiter rpm burst)))))))
    \<le> of_int burst + 2 * of_nat (length ((t0, k) # rest)) * eps * of_int burst
        + fdiv rpm 60 * (of_int (fst (last ((t0, k) # rest)) - t0) / 1000000000) * (1 + eps) ^ 4"
proof -
  define ts where "ts = map fst rest"
  let ?new = "New_Limiter rpm burst"
  let ?l = "snd (run_calls Allow before ?new)" and ?u = "case before of [] \<Rightarrow> t0 | c # _ \<Rightarrow> fst c"
  have "\<forall>c \<in> set ((t0, k) # rest). snd c = k" unfolding assms(5) [symmetric] by simp
  then have f: "filter (\<lambda>c. snd c = k) cs = map (\<lambda>t. (t, k)) (t0 # ts)"
    by (simp add: assms(5) ts_def) (metis (no_types, lifting) list.map_ident_strong map_map comp_apply prod.collapse)
  have "sorted (map fst (filter (\<lambda>c. snd c = k) cs))" using assms(4) by (intro sorted_filter) (simp add: sorted_append)
  then have ts: "sorted (t0 # ts)" by (simp add: f comp_def)
  have "(t0, k) \<in> set (filter (\<lambda>c. snd c = k) cs)" unfolding assms(5) by simp
  then have le: "fst c \<le> t0" if "c \<in> set before" for c using assms(4) that by (force simp: sorted_append)
  note ok = New_Limiter_ok [OF assms(1-3)]
  have rate: "rl_rate ?new = fdiv rpm 60" by (simp add: New_Limiter_def)
  have served: "served_until (last (?u # map fst before)) k ?l"
    using assms(4) ok(1,3) by (intro run_calls_served) (cases before; simp add: served_until_def sorted_append)+
  have "last (?u # map fst before) \<le> t0"
  proof (cases "before = []")
    case False
    then have "last (?u # map fst before) = fst (last before)" by (simp add: last_map)
    then show ?thesis using le [OF last_in_set [OF False]] by simp
  qed simp
  with ts have "sorted (last (?u # map fst before) # t0 # ts)" by (auto simp del: last.simps)
  from window_pays [OF served this] have "of_nat (admitted (fst (run_calls Allow (map (\<lambda>t. (t, k)) (t0 # ts)) ?l)))
      \<le> of_int burst + 2 * of_nat (length (t0 # ts)) * eps * of_int burst
        + fdiv rpm 60 * (of_int (last (t0 # ts) - t0) / 1000000000) * (1 + eps) ^ 4"
    unfolding run_calls_config ok(2) rate .
  moreover have "last (t0 # ts) = fst (last ((t0, k) # rest))" by (simp add: ts_def last_map)
  ultimately show ?thesis unfolding limiter.decisions_local [OF refl] f by (simp add: ts_def)
qed

text \<open>The same over a window of time, for calls of which not even one need have the key.\<close>

lemma rate_bound_window:
  assumes "0 \<le> rpm" "0 \<le> burst" "burst \<le> 2 ^ 53" "sorted (map fst cs)"
    and "\<forall>c \<in> set cs. lo \<le> fst c \<and> fst c \<le> hi" "lo \<le> hi"
  shows "of_nat (admitted (decisions_for k cs (fst (run_calls Allow cs (New_Limiter rpm burst)))))
    \<le> of_int burst + 2 * of_nat (length cs) * eps * of_int burst
        + fdiv rpm 60 * (of_int (hi - lo) / 1000000000) * (1 + eps) ^ 4"
proof -
  have r: "0 \<le> fdiv rpm 60" using assms(1) by (simp add: fdiv_def f64.fl_nonneg)
  have c: "0 \<le> (1 + eps) ^ 4" by simp
  show ?thesis
  proof (cases "filter (\<lambda>c. snd c = k) cs")
    case Nil
    then have "admitted (decisions_for k cs (fst (run_calls Allow cs (New_Limiter rpm burst)))) = 0"
      unfolding limiter.decisions_local [OF refl] Nil by (simp add: admitted_def)
    moreover have "0 \<le> fdiv rpm 60 * (of_int (hi - lo) / 1000000000) * (1 + eps) ^ 4"
      using r c assms(6) by (intro mult_nonneg_nonneg) simp_all
    moreover have "0 \<le> 2 * of_nat (length cs) * eps * of_int burst" using assms(2) by simp
    ultimately show ?thesis using assms(2) by simp
  next
    case (Cons a rest)
    let ?l = "(fst a, k) # rest"
    have "a \<in> set (filter (\<lambda>c. snd c = k) cs)" unfolding Cons by simp
    then have a: "a = (fst a, k)" "lo \<le> fst a" using assms(5) by (auto simp: prod_eq_iff)
    have f: "filter (\<lambda>c. snd c = k) cs = ?l" using Cons a(1) by simp
    have "last ?l \<in> set (filter (\<lambda>c. snd c = k) cs)" unfolding f using last_in_set by blast
    then have hi: "fst (last ?l) - fst a \<le> hi - lo" using assms(5) a(2) by force
    have "length ?l \<le> length cs" using length_filter_le [of "\<lambda>c. snd c = k" cs] f by simp
    then have n: "2 * of_nat (length ?l) * eps * of_int burst \<le> 2 * of_nat (length cs) * eps * (of_int burst :: rat)"
      using assms(2) by (intro mult_right_mono mult_left_mono) simp_all
    have "(of_int (fst (last ?l) - fst a) :: rat) \<le> of_int (hi - lo)" using hi by (simp only: of_int_le_iff)
    then have "fdiv rpm 60 * (of_int (fst (last ?l) - fst a) / 1000000000) * (1 + eps) ^ 4 \<le>
        fdiv rpm 60 * (of_int (hi - lo) / 1000000000) * (1 + eps) ^ 4"
      using r c by (intro mult_right_mono mult_left_mono divide_right_mono) simp_all
    with n rate_bound [OF assms(1-3) _ f, of "[]"] assms(4) show ?thesis by simp
  qed
qed

text \<open>C22: the sustained rate. Take any run of calls from a new limiter, in the order of the clock and
  interleaved with other keys, and any window of it, however long the key was idle before: the
  calls a key gets admitted in the window are at most the burst plus the rate times the seconds
  between the key's first and last call of the window, up to the floating-point error of each call.\<close>

theorem limiter_rate_bound:
  assumes "0 \<le> rpm" "0 \<le> burst" "burst \<le> 2 ^ 53"
    and "sorted (map fst (before @ window))" "filter (\<lambda>c. snd c = k) window = (t0, k) # rest"
  shows "of_nat (admitted (decisions_for k window (fst (run_calls Allow window (snd (run_calls Allow before (New_Limiter rpm burst)))))))
    \<le> of_int burst + 2 * of_nat (length ((t0, k) # rest)) * eps * of_int burst
        + fdiv rpm 60 * (of_int (fst (last ((t0, k) # rest)) - t0) / 1000000000) * (1 + eps) ^ 4"
  using assms by (rule rate_bound)

text \<open>C23: the daily cap. Whatever the other keys spend, the bytes accepted for a key on one
  UTC day never exceed its limit (the additions staying inside \<open>int64\<close>).\<close>

theorem budget_daily_cap:
  assumes "0 \<le> t0" "sorted (t0 # map fst cs)" "0 < sint (L k)"
    and "\<forall>(t, k', n) \<in> set cs. 0 \<le> sint n \<and> sint (L k') + sint n \<le> max_int64"
  shows "accepted_bytes k D cs (fst (run_spends L cs NewByteBudget)) \<le> sint (L k)"
  using run_spends_bound [OF assms(1,2) budget_start(1), of k L D] assms(3,4)
  by (simp add: budget_start split: if_splits)

theorem budget_daily_cap_witness:
  "accepted_bytes ''a/b'' 20636
     [(1783000000000000000, ''a/b'', 100), (1783000001000000000, ''c/d'', 50), (1783000002000000000, ''a/b'', 1)]
     (fst (run_spends (\<lambda>_. 100)
       [(1783000000000000000, ''a/b'', 100), (1783000001000000000, ''c/d'', 50), (1783000002000000000, ''a/b'', 1)]
       NewByteBudget)) \<le> 100"
  using budget_daily_cap [of 0 "[(1783000000000000000, ''a/b'', 100), (1783000001000000000, ''c/d'', 50),
      (1783000002000000000, ''a/b'', 1)]" "\<lambda>_. 100" "''a/b''" 20636]
  by (simp add: max_int64_def)

theorem limiter_rate_bound_witness:
  "of_nat (admitted (decisions_for ''a/b'' [(3600000000000, ''c/d''), (3600000000000, ''a/b''), (3660000000000, ''a/b'')]
      (fst (run_calls Allow [(3600000000000, ''c/d''), (3600000000000, ''a/b''), (3660000000000, ''a/b'')]
        (snd (run_calls Allow [(0, ''a/b''), (5, ''a/b'')] (New_Limiter 1 1)))))))
    \<le> (of_int 1 :: rat) + 2 * of_nat (length [(3600000000000 :: time, ''a/b''), (3660000000000, ''a/b'')]) * eps * of_int 1
        + fdiv 1 60 * (of_int (3660000000000 - 3600000000000) / 1000000000) * (1 + eps) ^ 4"
  using limiter_rate_bound [of 1 1 "[(0, ''a/b''), (5, ''a/b'')]"
      "[(3600000000000, ''c/d''), (3600000000000, ''a/b''), (3660000000000, ''a/b'')]" "''a/b''" 3600000000000
      "[(3660000000000, ''a/b'')]"]
  by simp

end
