(* ===== verification/Go_Regexp.thy ===== *)
theory Go_Regexp
  imports Broker_Prelude
begin

text \<open>
  The part of package \<open>regexp\<close> the sources use: \<open>MatchString\<close> on patterns of the form \<open>^r$\<close>,
  that is a match of the whole text. A regular expression is built from byte classes (every
  pattern of the sources is ASCII), and matching goes by derivatives; \<open>MatchString_lang\<close> shows
  that it decides the language of the expression.
\<close>

datatype regexp =
    Never
  | Eps
  | Class "char \<Rightarrow> bool"
  | Seq regexp regexp
  | Alt regexp regexp
  | Star regexp

fun Lit :: "string \<Rightarrow> regexp" where
  "Lit [] = Eps"
| "Lit (c # cs) = Seq (Class (\<lambda>d. d = c)) (Lit cs)"

fun Times :: "nat \<Rightarrow> regexp \<Rightarrow> regexp" where
  "Times 0 r = Eps"
| "Times (Suc n) r = Seq r (Times n r)"

definition Plus :: "regexp \<Rightarrow> regexp" where
  "Plus r = Seq r (Star r)"

definition Opt :: "regexp \<Rightarrow> regexp" where
  "Opt r = Alt Eps r"

fun nullable :: "regexp \<Rightarrow> bool" where
  "nullable Never = False"
| "nullable Eps = True"
| "nullable (Class p) = False"
| "nullable (Seq r s) = (nullable r \<and> nullable s)"
| "nullable (Alt r s) = (nullable r \<or> nullable s)"
| "nullable (Star r) = True"

fun deriv :: "char \<Rightarrow> regexp \<Rightarrow> regexp" where
  "deriv c Never = Never"
| "deriv c Eps = Never"
| "deriv c (Class p) = (if p c then Eps else Never)"
| "deriv c (Seq r s) =
     (if nullable r then Alt (Seq (deriv c r) s) (deriv c s) else Seq (deriv c r) s)"
| "deriv c (Alt r s) = Alt (deriv c r) (deriv c s)"
| "deriv c (Star r) = Seq (deriv c r) (Star r)"

definition MatchString :: "regexp \<Rightarrow> string \<Rightarrow> bool" where
  "MatchString r s = nullable (fold deriv s r)"

section \<open>The language of an expression\<close>

inductive_set star :: "string set \<Rightarrow> string set" for L where
  star_Nil: "[] \<in> star L"
| star_app: "u \<in> L \<Longrightarrow> v \<in> star L \<Longrightarrow> u @ v \<in> star L"

fun lang :: "regexp \<Rightarrow> string set" where
  "lang Never = {}"
| "lang Eps = {[]}"
| "lang (Class p) = {[c] | c. p c}"
| "lang (Seq r s) = {u @ v | u v. u \<in> lang r \<and> v \<in> lang s}"
| "lang (Alt r s) = lang r \<union> lang s"
| "lang (Star r) = star (lang r)"

lemma nullable_lang: "nullable r \<longleftrightarrow> [] \<in> lang r"
  by (induction r) (auto intro: star_Nil)

text \<open>A nonempty word of a star begins with a nonempty word of its body.\<close>

lemma star_ConsD:
  assumes "w \<in> star L" "w = c # s"
  shows "\<exists>u v. s = u @ v \<and> c # u \<in> L \<and> v \<in> star L"
  using assms
proof (induction arbitrary: s)
  case (star_app u v)
  then show ?case by (cases u) auto
qed simp

lemma star_Cons_iff: "c # s \<in> star L \<longleftrightarrow> (\<exists>u v. s = u @ v \<and> c # u \<in> L \<and> v \<in> star L)"
proof
  assume "\<exists>u v. s = u @ v \<and> c # u \<in> L \<and> v \<in> star L"
  then obtain u v where "s = u @ v" "c # u \<in> L" "v \<in> star L" by blast
  then show "c # s \<in> star L" using star_app [of "c # u" L v] by simp
qed (use star_ConsD in blast)

lemma deriv_lang: "s \<in> lang (deriv c r) \<longleftrightarrow> c # s \<in> lang r"
proof (induction r arbitrary: s)
  case (Seq r1 r2)
  have "c # s \<in> lang (Seq r1 r2) \<longleftrightarrow>
      (\<exists>u v. s = u @ v \<and> c # u \<in> lang r1 \<and> v \<in> lang r2) \<or> ([] \<in> lang r1 \<and> c # s \<in> lang r2)"
    unfolding lang.simps mem_Collect_eq Cons_eq_append_conv by blast
  then show ?case using Seq by (auto simp: nullable_lang)
next
  case (Star r)
  then show ?case by (auto simp: star_Cons_iff)
qed auto

theorem MatchString_lang: "MatchString r s \<longleftrightarrow> s \<in> lang r"
  unfolding MatchString_def
  by (induction s arbitrary: r) (simp_all add: nullable_lang deriv_lang)

lemma lang_Lit [simp]: "lang (Lit cs) = {cs}"
  by (induction cs) auto

lemma lang_Seq_Class: "s \<in> lang (Seq (Class p) r) \<longleftrightarrow> (\<exists>c t. s = c # t \<and> p c \<and> t \<in> lang r)"
proof
  assume "\<exists>c t. s = c # t \<and> p c \<and> t \<in> lang r"
  then obtain c t where "s = [c] @ t" "[c] \<in> lang (Class p)" "t \<in> lang r" by auto
  then show "s \<in> lang (Seq (Class p) r)" unfolding lang.simps(4) by blast
qed auto

lemma lang_Times_Class: "lang (Times n (Class p)) = {s. length s = n \<and> (\<forall>c \<in> set s. p c)}"
proof (induction n)
  case (Suc n)
  have "s \<in> lang (Times (Suc n) (Class p)) \<longleftrightarrow> length s = Suc n \<and> (\<forall>c \<in> set s. p c)" for s
    by (cases s) (auto simp: Suc lang_Seq_Class simp del: lang.simps(4))
  then show ?case by blast
qed auto

lemma star_Class: "star {[c] | c. p c} = {s. \<forall>c \<in> set s. p c}"
proof -
  have "s \<in> star {[c] | c. p c} \<longleftrightarrow> (\<forall>c \<in> set s. p c)" for s
    by (induction s) (auto simp: star_Cons_iff intro: star_Nil)
  then show ?thesis by blast
qed

lemma lang_Plus_Class: "lang (Plus (Class p)) = {s. s \<noteq> [] \<and> (\<forall>c \<in> set s. p c)}"
proof -
  have "s \<in> lang (Plus (Class p)) \<longleftrightarrow> s \<noteq> [] \<and> (\<forall>c \<in> set s. p c)" for s
    by (cases s) (auto simp: Plus_def star_Class lang_Seq_Class simp del: lang.simps(4))
  then show ?thesis by blast
qed

lemma lang_Opt [simp]: "lang (Opt r) = insert [] (lang r)"
  by (auto simp: Opt_def)

text \<open>A comma-separated list \<open>r(,r)*\<close> of items without commas: what \<open>Split\<close> gives back.\<close>

definition Comma_list :: "regexp \<Rightarrow> regexp" where
  "Comma_list r = Seq r (Star (Seq (Lit '','') r))"

lemma star_comma_split:
  assumes "w \<in> star {CHR '','' # u | u. u \<in> L}" "\<forall>u \<in> L. CHR '','' \<notin> set u" "a \<in> L"
  shows "set (Split (a @ w) CHR '','') \<subseteq> L"
  using assms
proof (induction arbitrary: a)
  case star_Nil
  then show ?case by (simp add: Split_no_sep)
next
  case (star_app u v)
  obtain u' where u: "u = CHR '','' # u'" "u' \<in> L" using star_app.hyps(1) by blast
  have "set (Split (u' @ v) CHR '','') \<subseteq> L" using star_app u(2) by blast
  then show ?case using star_app.prems u by (simp add: Split_append_sep)
qed

lemma Comma_list_split:
  assumes "s \<in> lang (Comma_list r)" "\<forall>u \<in> lang r. CHR '','' \<notin> set u"
  shows "set (Split s CHR '','') \<subseteq> lang r"
proof -
  have "lang (Seq (Lit '','') r) = {CHR '','' # u | u. u \<in> lang r}" by auto
  then obtain a w where "s = a @ w" "a \<in> lang r" "w \<in> star {CHR '','' # u | u. u \<in> lang r}"
    using assms(1) by (auto simp: Comma_list_def simp del: lang_Lit)
  then show ?thesis using star_comma_split [of w "lang r" a] assms(2) by simp
qed

end
