(* ===== verification/Go_Duration.thy ===== *)
theory Go_Duration
  imports Go_Float
begin

text \<open>
  \<open>time.ParseDuration\<close>, which reads the policy's durations, and \<open>Duration.String\<close>, which
  \<open>/v1/whoami\<close> prints them with. The unsigned 64-bit accumulators of the parser are naturals:
  the parser tests each against \<open>2 ^ 63\<close> before it can pass \<open>2 ^ 64\<close>.
\<close>

definition digit :: "char \<Rightarrow> bool" where
  "digit c = (48 \<le> (of_char c :: nat) \<and> (of_char c :: nat) \<le> 57)"

definition digit_val :: "char \<Rightarrow> nat" where
  "digit_val c = of_char c - 48"

text \<open>\<open>leadingInt\<close>: the value of the leading digits and the rest; \<open>None\<close> on overflow.\<close>

fun leadingInt :: "nat \<Rightarrow> string \<Rightarrow> (nat \<times> string) option" where
  "leadingInt x [] = Some (x, [])"
| "leadingInt x (c # s) =
     (if \<not> digit c then Some (x, c # s)
      else if x > 2 ^ 63 div 10 then None
      else let y = x * 10 + digit_val c in if y > 2 ^ 63 then None else leadingInt y s)"

text \<open>\<open>leadingFraction\<close>: digits past the range of the accumulator are dropped.\<close>

fun leadingFraction :: "nat \<Rightarrow> float64 \<Rightarrow> bool \<Rightarrow> string \<Rightarrow> nat \<times> float64 \<times> string" where
  "leadingFraction x scale overflow [] = (x, scale, [])"
| "leadingFraction x scale overflow (c # s) =
     (if \<not> digit c then (x, scale, c # s)
      else if overflow \<or> x > (2 ^ 63 - 1) div 10 then leadingFraction x scale True s
      else let y = x * 10 + digit_val c
           in if y > 2 ^ 63 then leadingFraction x scale True s
              else leadingFraction y (fmul scale 10) False s)"

definition unitMap :: "(string \<times> nat) list" where
  "unitMap =
     [(''ns'', 1), (''us'', 1000), ([char_of (194 :: nat), char_of (181 :: nat), CHR ''s''], 1000),
      ([char_of (206 :: nat), char_of (188 :: nat), CHR ''s''], 1000), (''ms'', 1000000),
      (''s'', 1000000000), (''m'', 60000000000), (''h'', 3600000000000)]"

text \<open>The digits of one number: whole part, fraction with its scale, and the rest of the text.\<close>

definition parse_number :: "string \<Rightarrow> (nat \<times> nat \<times> float64 \<times> string) option" where
  "parse_number s =
     (if s = [] \<or> \<not> (hd s = CHR ''.'' \<or> digit (hd s)) then None
      else case leadingInt 0 s of
        None \<Rightarrow> None
      | Some (v, s1) \<Rightarrow>
          let pre = (length s \<noteq> length s1)
          in if s1 \<noteq> [] \<and> hd s1 = CHR ''.''
             then let (f, scale, s2) = leadingFraction 0 1 False (tl s1);
                      post = (length (tl s1) \<noteq> length s2)
                  in if \<not> pre \<and> \<not> post then None else Some (v, f, scale, s2)
             else if \<not> pre then None else Some (v, 0, 1, s1))"

text \<open>The unit after a number: the value in nanoseconds and the rest of the text.\<close>

definition parse_unit :: "nat \<Rightarrow> nat \<Rightarrow> float64 \<Rightarrow> string \<Rightarrow> (nat \<times> string) option" where
  "parse_unit v f scale s =
     (let u = takeWhile (\<lambda>c. \<not> (c = CHR ''.'' \<or> digit c)) s
      in case map_of unitMap u of
           None \<Rightarrow> None
         | Some unit \<Rightarrow>
             if v > 2 ^ 63 div unit then None
             else let v1 = v * unit +
                        (if f > 0 then nat \<lfloor>fmul (float_of_int (int f)) (fdiv (float_of_int (int unit)) scale)\<rfloor>
                         else 0)
                  in if v1 > 2 ^ 63 then None else Some (v1, drop (length u) s))"

definition parse_term :: "string \<Rightarrow> (nat \<times> string) option" where
  "parse_term s =
     (case parse_number s of
        None \<Rightarrow> None
      | Some (v, f, scale, r) \<Rightarrow> parse_unit v f scale r)"

lemma leadingInt_length: "leadingInt x s = Some (v, r) \<Longrightarrow> length r \<le> length s"
  by (induction x s arbitrary: v r rule: leadingInt.induct)
    (auto simp: Let_def split: if_splits intro: le_SucI)

lemma leadingFraction_length:
  "leadingFraction x sc ov s = (f, sc', r) \<Longrightarrow> length r \<le> length s"
  by (induction x sc ov s arbitrary: f sc' r rule: leadingFraction.induct)
    (auto simp: Let_def split: if_splits intro: le_SucI)

lemma unitMap_nonempty: "map_of unitMap u = Some n \<Longrightarrow> u \<noteq> []"
  by (auto simp: unitMap_def split: if_splits)

text \<open>Each round of the parser consumes a unit, so its loop ends.\<close>

lemma parse_number_length: "parse_number s = Some (v, f, sc, r) \<Longrightarrow> length r \<le> length s"
  by (auto simp: parse_number_def Let_def split: if_splits option.splits prod.splits
      dest!: leadingInt_length leadingFraction_length)

lemma parse_unit_length:
  assumes "parse_unit v f sc s = Some (w, r)"
  shows "length r < length s"
proof -
  let ?u = "takeWhile (\<lambda>c. \<not> (c = CHR ''.'' \<or> digit c)) s"
  have "?u \<noteq> []" and r: "r = drop (length ?u) s"
    using assms by (auto simp: parse_unit_def Let_def split: if_splits option.splits dest: unitMap_nonempty)
  then have "0 < length ?u" by blast
  moreover have "length ?u \<le> length s" by (rule length_takeWhile_le)
  ultimately show ?thesis unfolding r length_drop by linarith
qed

lemma parse_term_length: "parse_term s = Some (v, r) \<Longrightarrow> length r < length s"
  by (auto simp: parse_term_def split: option.splits dest!: parse_number_length parse_unit_length)

function parse_terms :: "nat \<Rightarrow> string \<Rightarrow> nat option" where
  "parse_terms d s =
     (if s = [] then Some d
      else case parse_term s of
        None \<Rightarrow> None
      | Some (v, r) \<Rightarrow> if d + v > 2 ^ 63 then None else parse_terms (d + v) r)"
  by pat_completeness auto
termination
  by (relation "measure (\<lambda>(d, s). length s)") (auto dest: parse_term_length)

declare parse_terms.simps [simp del]

definition ParseDuration :: "string \<Rightarrow> string + duration" where
  "ParseDuration orig =
     (let neg = (orig \<noteq> [] \<and> hd orig = CHR ''-'');
          s = (if orig \<noteq> [] \<and> (hd orig = CHR ''-'' \<or> hd orig = CHR ''+'') then tl orig else orig)
      in if s = ''0'' then Inr 0
         else if s = [] then Inl ''time: invalid duration''
         else case parse_terms 0 s of
           None \<Rightarrow> Inl ''time: invalid duration''
         | Some d \<Rightarrow>
             if neg then Inr (- of_nat d)
             else if d > 2 ^ 63 - 1 then Inl ''time: invalid duration''
             else Inr (of_nat d))"

section \<open>Printing\<close>

text \<open>\<open>fmtFrac\<close>: the fraction of \<open>v / 10 ^ prec\<close> without trailing zeros, and the whole part.\<close>

fun fmtFrac :: "nat \<Rightarrow> nat \<Rightarrow> bool \<Rightarrow> string \<Rightarrow> string \<times> nat" where
  "fmtFrac v 0 print acc = (if print then CHR ''.'' # acc else acc, v)"
| "fmtFrac v (Suc prec) print acc =
     (let d = v mod 10; p = (print \<or> d \<noteq> 0)
      in fmtFrac (v div 10) prec p (if p then char_of (48 + d) # acc else acc))"

definition duration_String :: "duration \<Rightarrow> string" where
  "duration_String d =
     (let u = nat \<bar>sint d\<bar>;
          body =
            (if u = 0 then ''0s''
             else if u < 1000 then itoa u @ ''ns''
             else if u < 1000000 then
               (let (fr, w) = fmtFrac u 3 False [] in itoa w @ fr @ [char_of (194 :: nat), char_of (181 :: nat), CHR ''s''])
             else if u < 1000000000 then
               (let (fr, w) = fmtFrac u 6 False [] in itoa w @ fr @ ''ms'')
             else
               (let (fr, w) = fmtFrac u 9 False [];
                    s = itoa (w mod 60) @ fr @ ''s''; m = w div 60; h = m div 60
                in if m = 0 then s
                   else if h = 0 then itoa (m mod 60) @ ''m'' @ s
                   else itoa h @ ''h'' @ itoa (m mod 60) @ ''m'' @ s))
      in if sint d < 0 then CHR ''-'' # body else body)"

end
