(* ===== verification/Lease_Store.thy ===== *)
theory Lease_Store
  imports Go_Time
begin

text \<open>
  Package \<open>internal/lease\<close>: the in-memory lease table, a map from lease IDs to leases.
  Each operation takes the clock readings it makes (\<open>Renew\<close> makes two), \<open>Create\<close> the
  bytes \<open>crypto/rand\<close> gave it, and \<open>SweepExpired\<close> the order in which \<open>range\<close> visits the
  keys. The mutex makes each operation one step of the table.

  \<open>lease_repo\<close> is what the HTTP handlers rely on: an operation creates a lease only under the
  ID it returns, and changes of a lease only its expiry, its surrender mark and its sweep mark.
\<close>

record Lease =
  l_ID :: string
  l_SubjectKey :: string
  l_Scope :: string
  l_Semantics :: string
  l_IssuedAt :: time
  l_ExpiresAt :: time
  l_Renewable :: bool
  l_Surrendered :: bool
  l_expiredEmit :: bool

type_synonym lease_table = "string \<rightharpoonup> Lease"

definition NewStore :: lease_table where
  "NewStore = Map.empty"

definition NewID :: "string \<Rightarrow> string \<Rightarrow> string" where
  "NewID pre rnd = pre @ ''_'' @ hex_encode rnd"

definition Create :: "time \<Rightarrow> string \<Rightarrow> string \<Rightarrow> string \<Rightarrow> string \<Rightarrow> duration \<Rightarrow> bool \<Rightarrow>
    lease_table \<Rightarrow> Lease \<times> lease_table" where
  "Create now rnd subjectKey scope semantics ttl renewable t =
     (let l = \<lparr>l_ID = NewID ''lease'' rnd, l_SubjectKey = subjectKey, l_Scope = scope,
               l_Semantics = semantics, l_IssuedAt = now, l_ExpiresAt = Add now ttl,
               l_Renewable = renewable, l_Surrendered = False, l_expiredEmit = False\<rparr>
      in (l, t(l_ID l \<mapsto> l)))"

definition Get :: "string \<Rightarrow> lease_table \<Rightarrow> Lease option" where
  "Get lid t = t lid"

definition Renew :: "time \<Rightarrow> time \<Rightarrow> string \<Rightarrow> duration \<Rightarrow> lease_table \<Rightarrow>
    Lease option \<times> string \<times> lease_table" where
  "Renew now1 now2 lid ttl t =
     (case t lid of
        None \<Rightarrow> (None, ''notfound'', t)
      | Some l \<Rightarrow>
          if l_Surrendered l then (None, ''surrendered'', t)
          else if After now1 (l_ExpiresAt l) then (None, ''expired'', t)
          else if \<not> l_Renewable l then (None, ''nonrenewable'', t)
          else let l' = l\<lparr>l_ExpiresAt := Add now2 ttl\<rparr> in (Some l', [], t(lid \<mapsto> l')))"

definition Surrender :: "string \<Rightarrow> lease_table \<Rightarrow> Lease option \<times> string \<times> lease_table" where
  "Surrender lid t =
     (case t lid of
        None \<Rightarrow> (None, ''notfound'', t)
      | Some l \<Rightarrow>
          if l_Surrendered l then (Some l, ''already'', t)
          else let l' = l\<lparr>l_Surrendered := True\<rparr> in (Some l', [], t(lid \<mapsto> l')))"

definition Remove :: "string \<Rightarrow> lease_table \<Rightarrow> lease_table" where
  "Remove lid t = t(lid := None)"

text \<open>The loop of \<open>SweepExpired\<close> over the keys still to visit.\<close>

fun sweep_loop :: "time \<Rightarrow> duration \<Rightarrow> string list \<Rightarrow> lease_table \<Rightarrow> Lease list \<times> lease_table" where
  "sweep_loop now retain [] t = ([], t)"
| "sweep_loop now retain (lid # lids) t =
     (case t lid of
        None \<Rightarrow> sweep_loop now retain lids t
      | Some l \<Rightarrow>
          let newly = After now (l_ExpiresAt l) \<and> \<not> l_expiredEmit l \<and> \<not> l_Surrendered l;
              l1 = (if newly then l\<lparr>l_expiredEmit := True\<rparr> else l);
              t1 = (if After now (Add (l_ExpiresAt l1) retain) then t(lid := None) else t(lid \<mapsto> l1));
              (out, t2) = sweep_loop now retain lids t1
          in ((if newly then [l1] else []) @ out, t2))"

definition SweepExpired :: "time \<Rightarrow> duration \<Rightarrow> string list \<Rightarrow> lease_table \<Rightarrow> Lease list \<times> lease_table" where
  "SweepExpired now retain order t = sweep_loop now retain order t"

section \<open>The operations as one state machine\<close>

datatype store_op =
    OpCreate time string string string string duration bool
  | OpRenew time time string duration
  | OpSurrender string
  | OpRemove string
  | OpSweep time duration "string list"

text \<open>The leases a step returns for a \<open>lease.expired\<close> event, and the table after it.\<close>

fun store_step :: "store_op \<Rightarrow> lease_table \<Rightarrow> Lease list \<times> lease_table" where
  "store_step (OpCreate now rnd k sc sem ttl ren) t = ([], snd (Create now rnd k sc sem ttl ren t))"
| "store_step (OpRenew n1 n2 lid ttl) t = ([], snd (snd (Renew n1 n2 lid ttl t)))"
| "store_step (OpSurrender lid) t = ([], snd (snd (Surrender lid t)))"
| "store_step (OpRemove lid) t = ([], Remove lid t)"
| "store_step (OpSweep now retain order) t = SweepExpired now retain order t"

fun created_id :: "store_op \<Rightarrow> string option" where
  "created_id (OpCreate now rnd k sc sem ttl ren) = Some (NewID ''lease'' rnd)"
| "created_id _ = None"

text \<open>The first clock reading of an operation that reads the clock.\<close>

fun op_time :: "store_op \<Rightarrow> time option" where
  "op_time (OpCreate now rnd k sc sem ttl ren) = Some now"
| "op_time (OpRenew n1 n2 lid ttl) = Some n1"
| "op_time (OpSweep now retain order) = Some now"
| "op_time _ = None"

fun store_run :: "(store_op \<Rightarrow> 't \<Rightarrow> Lease list \<times> 't) \<Rightarrow> store_op list \<Rightarrow> 't \<Rightarrow> Lease list \<times> 't" where
  "store_run step [] t = ([], t)"
| "store_run step (op # ops) t =
     (let (o1, t1) = step op t; (o2, t2) = store_run step ops t1 in (o1 @ o2, t2))"

section \<open>What may change of a lease\<close>

text \<open>The disclosure facts of a lease: who got which scope, when, under which semantics.\<close>

definition same_grant :: "Lease \<Rightarrow> Lease \<Rightarrow> bool" where
  "same_grant l l' \<longleftrightarrow> l_ID l' = l_ID l \<and> l_SubjectKey l' = l_SubjectKey l \<and> l_Scope l' = l_Scope l \<and>
     l_Semantics l' = l_Semantics l \<and> l_IssuedAt l' = l_IssuedAt l \<and> l_Renewable l' = l_Renewable l"

text \<open>One step of a lease's life at clock reading \<open>now\<close>: marks are only set, and the expiry
  moves only while the lease is renewable, not surrendered and not past its expiry.\<close>

definition evolves :: "time option \<Rightarrow> Lease \<Rightarrow> Lease \<Rightarrow> bool" where
  "evolves now l l' \<longleftrightarrow> same_grant l l' \<and> (l_Surrendered l \<longrightarrow> l_Surrendered l') \<and>
     (l_expiredEmit l \<longrightarrow> l_expiredEmit l') \<and>
     (l_ExpiresAt l' \<noteq> l_ExpiresAt l \<longrightarrow>
        l_Renewable l \<and> \<not> l_Surrendered l \<and> (\<exists>n. now = Some n \<and> n \<le> l_ExpiresAt l))"

lemma evolves_refl [simp]: "evolves now l l"
  by (simp add: evolves_def same_grant_def)

locale lease_repo =
  fixes get :: "string \<Rightarrow> 't \<Rightarrow> Lease option"
    and step :: "store_op \<Rightarrow> 't \<Rightarrow> Lease list \<times> 't"
    and inv :: "'t \<Rightarrow> bool"
  assumes inv_step: "inv t \<Longrightarrow> inv (snd (step op t))"
    and step_evolves: "get lid t = Some l \<Longrightarrow> created_id op \<noteq> Some lid \<Longrightarrow>
      get lid (snd (step op t)) = Some l' \<Longrightarrow> evolves (op_time op) l l'"
    and step_appears: "get lid t = None \<Longrightarrow> get lid (snd (step op t)) = Some l' \<Longrightarrow> created_id op = Some lid"
    and step_emits: "inv t \<Longrightarrow> l \<in> set (fst (step op t)) \<Longrightarrow>
      \<exists>l0. get (l_ID l0) t = Some l0 \<and> \<not> l_expiredEmit l0 \<and> \<not> l_Surrendered l0 \<and> l_ID l = l_ID l0 \<and>
           (get (l_ID l0) (snd (step op t)) = None \<or> get (l_ID l0) (snd (step op t)) = Some l) \<and> l_expiredEmit l"
begin

lemma no_return:
  assumes "get lid t = None" "\<forall>op \<in> set ops. created_id op \<noteq> Some lid"
  shows "get lid (snd (store_run step ops t)) = None"
  using assms
proof (induction ops arbitrary: t)
  case (Cons op ops)
  then have "get lid (snd (step op t)) = None"
    using step_appears [of lid t op] by (cases "get lid (snd (step op t))") auto
  then show ?case using Cons by (simp add: split_beta Let_def)
qed simp

text \<open>Along a run that does not issue the ID again, whoever holds the lease stays the same.\<close>

lemma run_same_grant:
  assumes "get lid t = Some l" "\<forall>op \<in> set ops. created_id op \<noteq> Some lid"
    "get lid (snd (store_run step ops t)) = Some l'"
  shows "same_grant l l' \<and> (l_Surrendered l \<longrightarrow> l_Surrendered l' \<and> l_ExpiresAt l' = l_ExpiresAt l)
    \<and> (l_expiredEmit l \<longrightarrow> l_expiredEmit l')"
  using assms
proof (induction ops arbitrary: t l)
  case Nil
  then show ?case by (simp add: same_grant_def)
next
  case (Cons op ops)
  let ?t = "snd (step op t)"
  have run: "get lid (snd (store_run step ops ?t)) = Some l'"
    using Cons.prems(3) by (simp add: split_beta Let_def)
  then obtain l1 where l1: "get lid ?t = Some l1"
    using no_return [of lid ?t ops] Cons.prems(2) by (cases "get lid ?t") auto
  have "evolves (op_time op) l l1" using step_evolves [OF Cons.prems(1) _ l1] Cons.prems(2) by simp
  moreover have "same_grant l1 l' \<and> (l_Surrendered l1 \<longrightarrow> l_Surrendered l' \<and> l_ExpiresAt l' = l_ExpiresAt l1)
      \<and> (l_expiredEmit l1 \<longrightarrow> l_expiredEmit l')"
    using Cons.IH [OF l1 _ run] Cons.prems(2) by simp
  ultimately show ?case by (auto simp: evolves_def same_grant_def)
qed

text \<open>A lease that is past its expiry at some reading keeps that expiry in every later step.\<close>

lemma run_expired_stays:
  assumes "get lid t = Some l" "l_ExpiresAt l < now"
    "\<forall>op \<in> set ops. created_id op \<noteq> Some lid \<and> (\<forall>n. op_time op = Some n \<longrightarrow> now \<le> n)"
    "get lid (snd (store_run step ops t)) = Some l'"
  shows "l_ExpiresAt l' = l_ExpiresAt l"
  using assms
proof (induction ops arbitrary: t l)
  case Nil
  then show ?case by simp
next
  case (Cons op ops)
  let ?t = "snd (step op t)"
  have run: "get lid (snd (store_run step ops ?t)) = Some l'"
    using Cons.prems(4) by (simp add: split_beta Let_def)
  then obtain l1 where l1: "get lid ?t = Some l1"
    using no_return [of lid ?t ops] Cons.prems(3) by (cases "get lid ?t") auto
  have "l_ExpiresAt l1 = l_ExpiresAt l"
    using step_evolves [OF Cons.prems(1) _ l1] Cons.prems(2,3) by (fastforce simp: evolves_def)
  then show ?case using Cons.IH [OF l1 _ _ run] Cons.prems(2,3) by simp
qed

text \<open>An emitted lease is never emitted again: its ID is marked or gone.\<close>

lemma run_emits_new:
  assumes "inv t" "l \<in> set (fst (store_run step ops t))" "\<forall>op \<in> set ops. created_id op \<noteq> Some lid"
    "\<forall>l0. get lid t = Some l0 \<longrightarrow> l_expiredEmit l0"
  shows "l_ID l \<noteq> lid"
  using assms
proof (induction ops arbitrary: t)
  case (Cons op ops)
  let ?t = "snd (step op t)"
  consider "l \<in> set (fst (step op t))" | "l \<in> set (fst (store_run step ops ?t))"
    using Cons.prems(2) by (auto simp: split_beta Let_def)
  then show ?case
  proof cases
    case 1
    then show ?thesis using step_emits [OF Cons.prems(1) 1] Cons.prems(4) by auto
  next
    case 2
    have "l_expiredEmit l1" if "get lid ?t = Some l1" for l1
    proof (cases "get lid t")
      case None
      then show ?thesis using step_appears [OF None that] Cons.prems(3) by simp
    next
      case (Some l0)
      then show ?thesis
        using step_evolves [OF Some _ that] Cons.prems(3,4) by (auto simp: evolves_def)
    qed
    then show ?thesis using Cons.IH [OF inv_step [OF Cons.prems(1)] 2] Cons.prems(3) by simp
  qed
qed simp

text \<open>When no ID is issued twice, the leases emitted in a run have distinct IDs.\<close>

lemma run_emits_once:
  assumes "inv t" "distinct (List.map_filter created_id ops)"
    "\<And>op t. inv t \<Longrightarrow> op \<in> set ops \<Longrightarrow> distinct (map l_ID (fst (step op t)))"
    "\<And>lid l. get lid t = Some l \<Longrightarrow> lid \<notin> set (List.map_filter created_id ops)"
  shows "distinct (map l_ID (fst (store_run step ops t)))"
  using assms
proof (induction ops arbitrary: t)
  case (Cons op ops)
  let ?t = "snd (step op t)"
  have fresh: "created_id op' \<noteq> Some lid"
    if "get lid t = Some l" "op' \<in> set (op # ops)" for lid l op'
    using Cons.prems(4) [OF that(1)] that(2) by (force simp: List.map_filter_def)
  have new: "lid \<notin> set (List.map_filter created_id ops)" if "get lid ?t = Some l" for lid l
  proof (cases "get lid t")
    case None
    then show ?thesis
      using step_appears [OF None that] Cons.prems(2) by (simp add: List.map_filter_simps)
  next
    case (Some l0)
    then show ?thesis using Cons.prems(4) [OF Some] by (auto simp: List.map_filter_def split: if_splits)
  qed
  have "distinct (map l_ID (fst (store_run step ops ?t)))"
    using Cons.prems(2,3) new
    by (intro Cons.IH inv_step [OF Cons.prems(1)]) (auto simp: List.map_filter_simps split: option.splits)
  moreover have "l_ID l \<noteq> l_ID l2"
    if l: "l \<in> set (fst (step op t))" and l2: "l2 \<in> set (fst (store_run step ops ?t))" for l l2
  proof -
    obtain l0 where l0: "get (l_ID l0) t = Some l0" "l_ID l = l_ID l0" "l_expiredEmit l"
        "get (l_ID l0) ?t = None \<or> get (l_ID l0) ?t = Some l"
      using step_emits [OF Cons.prems(1) l] by blast
    have "l_ID l2 \<noteq> l_ID l0"
      using l0 fresh [OF l0(1)] by (intro run_emits_new [OF inv_step [OF Cons.prems(1)] l2]) auto
    then show ?thesis using l0(2) by simp
  qed
  moreover have "distinct (map l_ID (fst (step op t)))" using Cons.prems(1,3) by simp
  ultimately show ?case by (auto simp: split_beta Let_def)
qed simp

end

section \<open>The table meets the contract\<close>

definition table_ok :: "lease_table \<Rightarrow> bool" where
  "table_ok t \<longleftrightarrow> (\<forall>lid l. t lid = Some l \<longrightarrow> l_ID l = lid)"

definition newly_expired :: "time \<Rightarrow> Lease \<Rightarrow> bool" where
  "newly_expired now l \<longleftrightarrow> After now (l_ExpiresAt l) \<and> \<not> l_expiredEmit l \<and> \<not> l_Surrendered l"

definition sweep_mark :: "time \<Rightarrow> Lease \<Rightarrow> Lease" where
  "sweep_mark now l = (if newly_expired now l then l\<lparr>l_expiredEmit := True\<rparr> else l)"

definition sweep_entry :: "time \<Rightarrow> duration \<Rightarrow> Lease \<Rightarrow> Lease option" where
  "sweep_entry now retain l =
     (if After now (Add (l_ExpiresAt l) retain) then None else Some (sweep_mark now l))"

lemma sweep_mark_simps [simp]:
  "l_ExpiresAt (sweep_mark now l) = l_ExpiresAt l" "l_ID (sweep_mark now l) = l_ID l"
  "\<not> newly_expired now (sweep_mark now l)" "sweep_mark now (sweep_mark now l) = sweep_mark now l"
  by (auto simp: sweep_mark_def newly_expired_def)

lemma sweep_entry_cases:
  "sweep_entry now retain l = Some l' \<Longrightarrow> l' = sweep_mark now l"
  by (simp add: sweep_entry_def split: if_splits)

lemma sweep_loop_Cons:
  "sweep_loop now retain (lid # lids) t =
     (case t lid of
        None \<Rightarrow> sweep_loop now retain lids t
      | Some l \<Rightarrow>
          (let (out, t2) = sweep_loop now retain lids (t(lid := sweep_entry now retain l))
           in ((if newly_expired now l then [sweep_mark now l] else []) @ out, t2)))"
  by (auto simp: sweep_entry_def sweep_mark_def newly_expired_def Let_def split: option.splits)

declare sweep_loop.simps(2) [simp del]

text \<open>What a sweep leaves of each entry, whatever the order of the loop.\<close>

lemma sweep_loop_get:
  "snd (sweep_loop now retain lids t) lid =
     (if lid \<in> set lids then Option.bind (t lid) (sweep_entry now retain) else t lid)"
proof (induction lids arbitrary: t)
  case (Cons i lids)
  have idem: "Option.bind (sweep_entry now retain l) (sweep_entry now retain) = sweep_entry now retain l" for l
    by (simp add: sweep_entry_def)
  show ?case
    by (cases "t i") (auto simp: sweep_loop_Cons Cons.IH split_beta Let_def idem)
qed simp

lemma sweep_loop_out:
  "l \<in> set (fst (sweep_loop now retain lids t)) \<Longrightarrow>
   \<exists>lid l0. lid \<in> set lids \<and> t lid = Some l0 \<and> newly_expired now l0 \<and> l = sweep_mark now l0"
proof (induction lids arbitrary: t)
  case (Cons i lids)
  show ?case
  proof (cases "t i")
    case None
    then have "l \<in> set (fst (sweep_loop now retain lids t))"
      using Cons.prems by (simp add: sweep_loop_Cons)
    then show ?thesis using Cons.IH by fastforce
  next
    case (Some li)
    then consider "newly_expired now li" "l = sweep_mark now li"
      | "l \<in> set (fst (sweep_loop now retain lids (t(i := sweep_entry now retain li))))"
      using Cons.prems by (auto simp: sweep_loop_Cons split_beta Let_def split: if_splits)
    then show ?thesis
    proof cases
      case 1
      then show ?thesis using Some by auto
    next
      case 2
      then obtain lid l0 where "lid \<in> set lids" "(t(i := sweep_entry now retain li)) lid = Some l0"
          "newly_expired now l0" "l = sweep_mark now l0"
        using Cons.IH by blast
      then show ?thesis
        using sweep_entry_cases [of now retain li l0] by (cases "lid = i") auto
    qed
  qed
qed simp

lemma sweep_loop_in:
  "lid \<in> set lids \<Longrightarrow> t lid = Some l \<Longrightarrow> newly_expired now l \<Longrightarrow>
   sweep_mark now l \<in> set (fst (sweep_loop now retain lids t))"
proof (induction lids arbitrary: t)
  case (Cons i lids)
  show ?case
  proof (cases "lid = i")
    case True
    then show ?thesis using Cons.prems by (simp add: sweep_loop_Cons split_beta Let_def)
  next
    case False
    then have "lid \<in> set lids" using Cons.prems(1) by simp
    moreover have "(t(i := x)) lid = Some l" for x using False Cons.prems(2) by simp
    ultimately show ?thesis
      using Cons.IH Cons.prems(2,3)
      by (auto simp: sweep_loop_Cons split_beta Let_def simp del: fun_upd_apply split: option.splits)
  qed
qed simp

lemma sweep_loop_set:
  "set lids = dom t \<Longrightarrow>
   set (fst (sweep_loop now retain lids t)) = sweep_mark now ` {l \<in> ran t. newly_expired now l}"
  using sweep_loop_out [of _ now retain lids t] sweep_loop_in [of _ lids t _ now retain]
  by (fastforce simp: ran_def)

lemma table_ok_step: "table_ok t \<Longrightarrow> table_ok (snd (store_step op t))"
  by (cases op)
    (auto simp: table_ok_def Create_def Let_def Renew_def Surrender_def Remove_def SweepExpired_def
      sweep_loop_get bind_eq_Some_conv dest: sweep_entry_cases split: option.splits if_splits)

lemma store_step_evolves:
  assumes "Get lid t = Some l" "created_id op \<noteq> Some lid" "Get lid (snd (store_step op t)) = Some l'"
  shows "evolves (op_time op) l l'"
  using assms
  by (cases op)
    (auto simp: Get_def Create_def Let_def Renew_def Surrender_def Remove_def SweepExpired_def
      sweep_loop_get bind_eq_Some_conv evolves_def same_grant_def After_def sweep_mark_def
      dest!: sweep_entry_cases split: option.splits if_splits)

interpretation lease: lease_repo Get store_step table_ok
proof (standard, goal_cases)
  case (1 t op)
  then show ?case by (rule table_ok_step)
next
  case (2 lid t l op l')
  then show ?case by (rule store_step_evolves)
next
  case (3 lid t op l')
  then show ?case
    by (cases op) (auto simp: Get_def Create_def Let_def Renew_def Surrender_def Remove_def
        SweepExpired_def sweep_loop_get split: option.splits if_splits)
next
  case (4 t l op)
  then obtain now retain order where op: "op = OpSweep now retain order" by (cases op) auto
  then obtain lid l0 where l0: "lid \<in> set order" "t lid = Some l0" "newly_expired now l0" "l = sweep_mark now l0"
    using sweep_loop_out [of l now retain order t] 4(2) by (auto simp: SweepExpired_def)
  then have "l_ID l0 = lid" using 4(1) by (simp add: table_ok_def)
  then show ?case
    using l0 op
    by (intro exI [of _ l0]) (auto simp: Get_def SweepExpired_def sweep_loop_get sweep_entry_def
        newly_expired_def sweep_mark_def)
qed

lemma sweep_loop_distinct:
  "table_ok t \<Longrightarrow> distinct (map l_ID (fst (sweep_loop now retain lids t)))"
proof (induction lids arbitrary: t)
  case (Cons i lids)
  show ?case
  proof (cases "t i")
    case None
    then show ?thesis using Cons by (simp add: sweep_loop_Cons)
  next
    case (Some li)
    let ?t = "t(i := sweep_entry now retain li)"
    have id: "l_ID li = i" using Cons.prems Some by (simp add: table_ok_def)
    have ok: "table_ok ?t"
      using Cons.prems Some by (auto simp: table_ok_def dest: sweep_entry_cases)
    have "l_ID l \<noteq> i" if l: "l \<in> set (fst (sweep_loop now retain lids ?t))" for l
    proof
      assume li: "l_ID l = i"
      obtain lid l0 where l0: "?t lid = Some l0" "newly_expired now l0" "l = sweep_mark now l0"
        using sweep_loop_out [OF l] by blast
      have "l_ID l0 = lid" using ok l0(1) unfolding table_ok_def by blast
      then have "lid = i" using l0(3) li by simp
      then have "l0 = sweep_mark now li" using l0(1) by (auto dest: sweep_entry_cases)
      then show False using l0(2) by simp
    qed
    then have "i \<notin> l_ID ` set (fst (sweep_loop now retain lids ?t))" by blast
    moreover have "distinct (map l_ID (fst (sweep_loop now retain lids ?t)))"
      using Cons.IH [OF ok] .
    ultimately show ?thesis
      using Some id by (simp add: sweep_loop_Cons split_beta Let_def del: fun_upd_apply)
  qed
qed simp

lemma store_step_distinct: "table_ok t \<Longrightarrow> distinct (map l_ID (fst (store_step op t)))"
  by (cases op) (auto simp: SweepExpired_def sweep_loop_distinct)

section \<open>Properties\<close>

text \<open>Attribution is immutable. As long as an ID is not issued a second time, no sequence of
  store operations changes who a lease was issued to, for which scope, when and with which
  semantics; a surrendered lease stays surrendered and keeps its expiry.\<close>

theorem lease_attribution_immutable:
  assumes "t lid = Some l" "\<forall>op \<in> set ops. created_id op \<noteq> Some lid"
    and "snd (store_run store_step ops t) lid = Some l'"
  shows "l_ID l' = l_ID l \<and> l_SubjectKey l' = l_SubjectKey l \<and> l_Scope l' = l_Scope l \<and>
    l_Semantics l' = l_Semantics l \<and> l_IssuedAt l' = l_IssuedAt l \<and> l_Renewable l' = l_Renewable l \<and>
    (l_Surrendered l \<longrightarrow> l_Surrendered l' \<and> l_ExpiresAt l' = l_ExpiresAt l)"
  using lease.run_same_grant [of lid t l ops l'] assms by (auto simp: Get_def same_grant_def)

text \<open>No resurrection. Once the clock has passed a lease's expiry, no later sequence of
  operations moves that expiry.\<close>

theorem lease_expired_not_renewed:
  assumes "t lid = Some l" "l_ExpiresAt l < now"
    and "\<forall>op \<in> set ops. created_id op \<noteq> Some lid \<and> (\<forall>n. op_time op = Some n \<longrightarrow> now \<le> n)"
    and "snd (store_run store_step ops t) lid = Some l'"
  shows "l_ExpiresAt l' = l_ExpiresAt l"
  using lease.run_expired_stays [of lid t l now ops l'] assms by (simp add: Get_def)

text \<open>Each lease expires in the record at most once. From an empty table, when \<open>crypto/rand\<close>
  repeats no ID, the leases all sweeps of a run return have distinct IDs.\<close>

theorem lease_expired_emitted_once:
  assumes "distinct (List.map_filter created_id ops)"
  shows "distinct (map l_ID (fst (store_run store_step ops NewStore)))"
  using assms
  by (intro lease.run_emits_once) (auto simp: NewStore_def Get_def table_ok_def store_step_distinct)

text \<open>What \<open>SweepExpired\<close> does to the table. Whatever the order of the \<open>range\<close> loop over the
  keys, an entry is dropped exactly when its retention has passed, marked exactly when it has
  newly expired unsurrendered, and otherwise untouched; the leases returned are the newly expired.\<close>

theorem SweepExpired_spec:
  assumes "set order = dom t"
  shows "set (fst (SweepExpired now retain order t)) =
      (\<lambda>l. l\<lparr>l_expiredEmit := True\<rparr>) `
        {l \<in> ran t. l_ExpiresAt l < now \<and> \<not> l_expiredEmit l \<and> \<not> l_Surrendered l} \<and>
    snd (SweepExpired now retain order t) lid =
      (case t lid of None \<Rightarrow> None
       | Some l \<Rightarrow> if l_ExpiresAt l + sint retain < now then None
                  else if l_ExpiresAt l < now \<and> \<not> l_expiredEmit l \<and> \<not> l_Surrendered l
                       then Some (l\<lparr>l_expiredEmit := True\<rparr>) else Some l)"
proof
  show "set (fst (SweepExpired now retain order t)) =
      (\<lambda>l. l\<lparr>l_expiredEmit := True\<rparr>) `
        {l \<in> ran t. l_ExpiresAt l < now \<and> \<not> l_expiredEmit l \<and> \<not> l_Surrendered l}"
    using sweep_loop_set [OF assms, of now retain]
    by (auto simp: SweepExpired_def sweep_mark_def newly_expired_def After_def)
qed (use assms in \<open>auto simp: SweepExpired_def sweep_loop_get sweep_entry_def sweep_mark_def
      newly_expired_def After_def Add_def split: option.splits\<close>)

text \<open>A concrete run: a lease issued at time 0 for 10ns, renewed at 5, then surrendered or left
  to expire, and swept.\<close>

definition sample_id :: string where
  "sample_id = NewID ''lease'' ''0123456789abc''"

definition sample_lease :: Lease where
  "sample_lease = \<lparr>l_ID = sample_id, l_SubjectKey = ''ns/sa'', l_Scope = ''scope'',
     l_Semantics = ''static-disclosure'', l_IssuedAt = 0, l_ExpiresAt = 10, l_Renewable = True,
     l_Surrendered = False, l_expiredEmit = False\<rparr>"

definition sample_issue :: store_op where
  "sample_issue = OpCreate 0 ''0123456789abc'' ''ns/sa'' ''scope'' ''static-disclosure'' 10 True"

lemmas sample_defs = sample_lease_def sample_issue_def Create_def NewStore_def Renew_def Surrender_def
  SweepExpired_def sweep_loop_Cons sweep_entry_def sweep_mark_def newly_expired_def After_def Add_def Let_def

lemma sample_run_surrendered:
  "snd (store_run store_step [OpRenew 5 6 sample_id 100, OpSurrender sample_id, OpSweep 200 1000 [sample_id]]
     [sample_id \<mapsto> sample_lease]) sample_id = Some (sample_lease\<lparr>l_ExpiresAt := 106, l_Surrendered := True\<rparr>)"
  by (simp add: sample_defs)

lemma sample_run_expired:
  "snd (store_run store_step [OpRenew 11 12 sample_id 100, OpSweep 13 1000 [sample_id]]
     [sample_id \<mapsto> sample_lease]) sample_id = Some (sample_lease\<lparr>l_expiredEmit := True\<rparr>)"
  by (simp add: sample_defs)

theorem lease_attribution_immutable_witness:
  "l_SubjectKey (sample_lease\<lparr>l_ExpiresAt := 106, l_Surrendered := True\<rparr>) = ''ns/sa'' \<and>
   l_IssuedAt (sample_lease\<lparr>l_ExpiresAt := 106, l_Surrendered := True\<rparr>) = 0"
  using lease_attribution_immutable [OF _ _ sample_run_surrendered, of sample_lease]
  by (simp add: sample_lease_def)

theorem lease_expired_not_renewed_witness:
  "l_ExpiresAt (sample_lease\<lparr>l_expiredEmit := True\<rparr>) = 10"
  using lease_expired_not_renewed [OF _ _ _ sample_run_expired, of sample_lease 11]
  by (simp add: sample_lease_def)

theorem lease_expired_emitted_once_witness:
  "map l_ID (fst (store_run store_step
       [sample_issue, OpSweep 11 1000 [sample_id], OpSweep 12 1000 [sample_id]] NewStore)) = [sample_id] \<and>
   distinct (map l_ID (fst (store_run store_step
       [sample_issue, OpSweep 11 1000 [sample_id], OpSweep 12 1000 [sample_id]] NewStore)))"
  using lease_expired_emitted_once [of "[sample_issue, OpSweep 11 1000 [sample_id], OpSweep 12 1000 [sample_id]]"]
  by (simp add: sample_defs sample_id_def List.map_filter_simps)

theorem SweepExpired_spec_witness:
  "set (fst (SweepExpired 11 1000 [sample_id] [sample_id \<mapsto> sample_lease])) =
     {sample_lease\<lparr>l_expiredEmit := True\<rparr>} \<and>
   snd (SweepExpired 11 1000 [sample_id] [sample_id \<mapsto> sample_lease]) sample_id =
     Some (sample_lease\<lparr>l_expiredEmit := True\<rparr>)"
  using SweepExpired_spec [of "[sample_id]" "[sample_id \<mapsto> sample_lease]" 11 1000 sample_id]
  by (simp add: sample_lease_def image_def)

end
