(* ===== verification/Policy.thy ===== *)
theory Policy
  imports Go_Regexp Go_Duration Lease_Store "HOL-Library.List_Lexorder" "HOL-Library.Char_ord"
begin

text \<open>
  Package \<open>internal/policy\<close>, file \<open>policy.go\<close>: the deny-by-default grant policy. \<open>Parse\<close>
  decodes a YAML document, validates it and builds the two lookup maps.

  Parameters stand for code that is not the broker's: \<open>yaml\<close> is \<open>yaml.Unmarshal\<close> (it calls
  the \<open>UnmarshalYAML\<close> of \<open>Duration\<close> it is given), \<open>cronParse\<close> is the \<open>Parse\<close> of the cron
  library, whose \<open>Schedule\<close> interface is its one method \<open>Next\<close>, a function on instants, and
  \<open>sha256\<close> is the hash function. Go maps are lists of entries in the order a \<open>range\<close> visits
  them. The checks of one loop round are one function that gives the error, if any.
\<close>

section \<open>Patterns\<close>

definition lower :: "char \<Rightarrow> bool" where
  "lower c = (97 \<le> (of_char c :: nat) \<and> (of_char c :: nat) \<le> 122)"

definition upper :: "char \<Rightarrow> bool" where
  "upper c = (65 \<le> (of_char c :: nat) \<and> (of_char c :: nat) \<le> 90)"

definition lower_digit :: "char \<Rightarrow> bool" where
  "lower_digit c = (lower c \<or> digit c)"

definition opRefPattern :: regexp where
  "opRefPattern = Seq (Lit ''vaults/'') (Seq (Times 26 (Class lower_digit))
     (Seq (Lit ''/items/'') (Times 26 (Class lower_digit))))"

definition ghInstallationRefPattern :: regexp where
  "ghInstallationRefPattern = Seq (Lit ''installations/'') (Plus (Class digit))"

definition permission_item :: regexp where
  "permission_item = Seq (Plus (Class (\<lambda>c. lower c \<or> c = CHR ''_'')))
     (Seq (Lit ''='') (Alt (Lit ''read'') (Alt (Lit ''write'') (Lit ''admin''))))"

definition ghPermissionsPattern :: regexp where
  "ghPermissionsPattern = Comma_list permission_item"

definition repo_char :: "char \<Rightarrow> bool" where
  "repo_char c = (lower c \<or> upper c \<or> digit c \<or> c \<in> {CHR ''.'', CHR ''_'', CHR ''-''})"

definition ghRepositoriesPattern :: regexp where
  "ghRepositoriesPattern = Comma_list (Plus (Class repo_char))"

definition dns_label :: regexp where
  "dns_label = Seq (Class lower_digit)
     (Opt (Seq (Star (Class (\<lambda>c. c = CHR ''-'' \<or> lower_digit c))) (Class lower_digit)))"

definition subjectKeyPattern :: regexp where
  "subjectKeyPattern = Seq dns_label (Seq (Lit ''/'') dns_label)"

definition KnownProviders :: "string list" where
  "KnownProviders = [''onepassword-connect'', ''github-app'']"

section \<open>Data\<close>

definition UnmarshalYAML :: "string \<Rightarrow> string + duration" where
  "UnmarshalYAML s = (case ParseDuration s of Inl e \<Rightarrow> Inl (''invalid duration: '' @ e) | Inr d \<Rightarrow> Inr d)"

record Scope =
  s_Name :: string
  s_Provider :: string
  s_Ref :: string
  s_Fields :: "string gomap"
  s_Params :: "string gomap"

text \<open>A window as the document gives it, and with the schedule \<open>Parse\<close> sets.\<close>

record window_doc =
  w_Cron :: string
  w_Duration :: duration

record IssueWindow = window_doc +
  w_sched :: "time \<Rightarrow> time"

record 'w Grant =
  g_Scope :: string
  g_TTLDefault :: duration
  g_TTLMax :: duration
  g_Renewable :: bool
  g_IssueWindows :: "'w list"

record 'w SubjectPolicy =
  sp_ServiceAccount :: string
  sp_Grants :: "'w Grant list"
  sp_ClaimBytesPerDay :: int64

type_synonym grant = "IssueWindow Grant"

record policy_doc =
  d_Scopes :: "Scope list"
  d_Subjects :: "window_doc SubjectPolicy list"

record Policy =
  p_Scopes :: "Scope list"
  p_Subjects :: "IssueWindow SubjectPolicy list"
  p_Hash :: string
  p_scopeByName :: "Scope gomap"
  p_grantBySubj :: "grant gomap gomap"

definition Open :: "IssueWindow \<Rightarrow> time \<Rightarrow> bool" where
  "Open w t = (let fire = w_sched w (Add t (- w_Duration w)) in \<not> After fire t)"

definition WindowOpen :: "grant \<Rightarrow> time \<Rightarrow> bool" where
  "WindowOpen g t =
     (if g_IssueWindows g = [] then True else list_ex (\<lambda>w. Open w t) (g_IssueWindows g))"

section \<open>Parsing\<close>

datatype policy_error =
    ReadFile string
  | ParseYaml string
  | MissingName nat
  | DuplicateScope string
  | UnknownProvider string string
  | NoFields string
  | BadOpRef string
  | BadInstallationRef string
  | BadPermissions string
  | BadRepositories string
  | BadTokenField string string
  | BadServiceAccount nat string
  | DuplicateSubject string
  | UnknownScope string string
  | DuplicateGrant string string
  | NonPositiveTTL string string
  | DefaultExceedsMax string string
  | BadCron string string nat string
  | NonPositiveWindow string string nat

definition check_github :: "Scope \<Rightarrow> policy_error option" where
  "check_github s =
     (let repos = gindex (s_Params s) ''repositories''
      in if \<not> MatchString ghInstallationRefPattern (s_Ref s) then Some (BadInstallationRef (s_Name s))
         else if \<not> MatchString ghPermissionsPattern (gindex (s_Params s) ''permissions'') then Some (BadPermissions (s_Name s))
         else if repos \<noteq> [] \<and> \<not> MatchString ghRepositoriesPattern repos then Some (BadRepositories (s_Name s))
         else case find (\<lambda>(lf, key). key \<noteq> ''token'') (s_Fields s) of
                Some (lf, key) \<Rightarrow> Some (BadTokenField (s_Name s) lf)
              | None \<Rightarrow> None)"

definition check_scope :: "nat \<Rightarrow> Scope gomap \<Rightarrow> Scope \<Rightarrow> policy_error option" where
  "check_scope i m s =
     (if s_Name s = [] then Some (MissingName i)
      else if map_of m (s_Name s) \<noteq> None then Some (DuplicateScope (s_Name s))
      else if \<not> List.member KnownProviders (s_Provider s) then Some (UnknownProvider (s_Name s) (s_Provider s))
      else if length (s_Fields s) = 0 then Some (NoFields (s_Name s))
      else if s_Provider s = ''onepassword-connect'' then
        (if \<not> MatchString opRefPattern (s_Ref s) then Some (BadOpRef (s_Name s)) else None)
      else if s_Provider s = ''github-app'' then check_github s
      else None)"

fun scope_loop :: "nat \<Rightarrow> Scope list \<Rightarrow> Scope gomap \<Rightarrow> policy_error + Scope gomap" where
  "scope_loop i [] m = Inr m"
| "scope_loop i (s # ss) m =
     (case check_scope i m s of
        Some e \<Rightarrow> Inl e
      | None \<Rightarrow> scope_loop (Suc i) ss (m @ [(s_Name s, s)]))"

fun window_loop :: "(string \<Rightarrow> string + (time \<Rightarrow> time)) \<Rightarrow> string \<Rightarrow> string \<Rightarrow> nat \<Rightarrow>
    window_doc list \<Rightarrow> policy_error + IssueWindow list" where
  "window_loop cronParse sa sc k [] = Inr []"
| "window_loop cronParse sa sc k (w # ws) =
     (case cronParse (w_Cron w) of
        Inl e \<Rightarrow> Inl (BadCron sa sc k e)
      | Inr sched \<Rightarrow>
          if sint (w_Duration w) \<le> 0 then Inl (NonPositiveWindow sa sc k)
          else case window_loop cronParse sa sc (Suc k) ws of
            Inl e \<Rightarrow> Inl e
          | Inr ws' \<Rightarrow> Inr (\<lparr>w_Cron = w_Cron w, w_Duration = w_Duration w, w_sched = sched\<rparr> # ws'))"

definition check_grant :: "Scope gomap \<Rightarrow> string \<Rightarrow> grant gomap \<Rightarrow> 'w Grant \<Rightarrow> policy_error option" where
  "check_grant scopes sa grants g =
     (if map_of scopes (g_Scope g) = None then Some (UnknownScope sa (g_Scope g))
      else if map_of grants (g_Scope g) \<noteq> None then Some (DuplicateGrant sa (g_Scope g))
      else if sint (g_TTLDefault g) \<le> 0 \<or> sint (g_TTLMax g) \<le> 0 then Some (NonPositiveTTL sa (g_Scope g))
      else if sint (g_TTLDefault g) > sint (g_TTLMax g) then Some (DefaultExceedsMax sa (g_Scope g))
      else None)"

definition set_windows :: "'w Grant \<Rightarrow> IssueWindow list \<Rightarrow> grant" where
  "set_windows g ws = \<lparr>g_Scope = g_Scope g, g_TTLDefault = g_TTLDefault g, g_TTLMax = g_TTLMax g,
     g_Renewable = g_Renewable g, g_IssueWindows = ws\<rparr>"

fun grant_loop :: "(string \<Rightarrow> string + (time \<Rightarrow> time)) \<Rightarrow> Scope gomap \<Rightarrow> string \<Rightarrow>
    window_doc Grant list \<Rightarrow> grant gomap \<Rightarrow> policy_error + grant gomap" where
  "grant_loop cronParse scopes sa [] m = Inr m"
| "grant_loop cronParse scopes sa (g # gs) m =
     (case check_grant scopes sa m g of
        Some e \<Rightarrow> Inl e
      | None \<Rightarrow>
          (case window_loop cronParse sa (g_Scope g) 0 (g_IssueWindows g) of
             Inl e \<Rightarrow> Inl e
           | Inr ws \<Rightarrow> grant_loop cronParse scopes sa gs (m @ [(g_Scope g, set_windows g ws)])))"

text \<open>The loop over the subjects: the subjects with their schedules set, and \<open>grantBySubj\<close>.\<close>

fun subject_loop :: "(string \<Rightarrow> string + (time \<Rightarrow> time)) \<Rightarrow> Scope gomap \<Rightarrow> nat \<Rightarrow>
    window_doc SubjectPolicy list \<Rightarrow> IssueWindow SubjectPolicy list \<Rightarrow> grant gomap gomap \<Rightarrow>
    policy_error + IssueWindow SubjectPolicy list \<times> grant gomap gomap" where
  "subject_loop cronParse scopes i [] acc m = Inr (acc, m)"
| "subject_loop cronParse scopes i (sp # sps) acc m =
     (let sa = sp_ServiceAccount sp
      in if \<not> MatchString subjectKeyPattern sa then Inl (BadServiceAccount i sa)
         else if map_of m sa \<noteq> None then Inl (DuplicateSubject sa)
         else case grant_loop cronParse scopes sa (sp_Grants sp) [] of
           Inl e \<Rightarrow> Inl e
         | Inr grants \<Rightarrow>
             subject_loop cronParse scopes (Suc i) sps
               (acc @ [\<lparr>sp_ServiceAccount = sa, sp_Grants = map snd grants,
                         sp_ClaimBytesPerDay = sp_ClaimBytesPerDay sp\<rparr>])
               (m @ [(sa, grants)]))"

definition Parse :: "((string \<Rightarrow> string + duration) \<Rightarrow> string \<Rightarrow> string + policy_doc) \<Rightarrow>
    (string \<Rightarrow> string + (time \<Rightarrow> time)) \<Rightarrow> (string \<Rightarrow> string) \<Rightarrow> string \<Rightarrow> policy_error + Policy" where
  "Parse yaml cronParse sha256 raw =
     (case yaml UnmarshalYAML raw of
        Inl e \<Rightarrow> Inl (ParseYaml e)
      | Inr doc \<Rightarrow>
          (case scope_loop 0 (d_Scopes doc) [] of
             Inl e \<Rightarrow> Inl e
           | Inr scopes \<Rightarrow>
               (case subject_loop cronParse scopes 0 (d_Subjects doc) [] [] of
                  Inl e \<Rightarrow> Inl e
                | Inr (subjects, grants) \<Rightarrow>
                    Inr \<lparr>p_Scopes = d_Scopes doc, p_Subjects = subjects,
                         p_Hash = ''sha256:'' @ hex_encode (sha256 raw),
                         p_scopeByName = scopes, p_grantBySubj = grants\<rparr>)))"

section \<open>Lookups\<close>

definition ScopeOf :: "Policy \<Rightarrow> string \<Rightarrow> Scope option" where
  "ScopeOf p name = map_of (p_scopeByName p) name"

text \<open>Indexing a missing subject gives the nil map, on which every lookup misses.\<close>

definition GrantOf :: "Policy \<Rightarrow> string \<Rightarrow> string \<Rightarrow> grant option" where
  "GrantOf p subjectKey scope =
     (case map_of (p_grantBySubj p) subjectKey of None \<Rightarrow> None | Some m \<Rightarrow> map_of m scope)"

fun claim_cap :: "IssueWindow SubjectPolicy list \<Rightarrow> string \<Rightarrow> int64" where
  "claim_cap [] k = 0"
| "claim_cap (sp # sps) k = (if sp_ServiceAccount sp = k then sp_ClaimBytesPerDay sp else claim_cap sps k)"

definition ClaimBytesCap :: "Policy \<Rightarrow> string \<Rightarrow> int64" where
  "ClaimBytesCap p subjectKey = claim_cap (p_Subjects p) subjectKey"

definition GrantsFor :: "Policy \<Rightarrow> string \<Rightarrow> grant list" where
  "GrantsFor p subjectKey =
     (let m = (case map_of (p_grantBySubj p) subjectKey of None \<Rightarrow> [] | Some m \<Rightarrow> m)
      in sort_key g_Scope (map snd m))"

definition SubjectKeys :: "Policy \<Rightarrow> string list" where
  "SubjectKeys p = sort (map fst (p_grantBySubj p))"

definition ScopeNames :: "Policy \<Rightarrow> string list" where
  "ScopeNames p = sort (map fst (p_scopeByName p))"

section \<open>What a valid document is\<close>

definition scope_valid :: "Scope \<Rightarrow> bool" where
  "scope_valid s \<longleftrightarrow> s_Name s \<noteq> [] \<and> s_Fields s \<noteq> [] \<and>
     (s_Provider s = ''onepassword-connect'' \<and> s_Ref s \<in> lang opRefPattern \<or>
      s_Provider s = ''github-app'' \<and> s_Ref s \<in> lang ghInstallationRefPattern \<and>
        gindex (s_Params s) ''permissions'' \<in> lang ghPermissionsPattern \<and>
        (gindex (s_Params s) ''repositories'' = [] \<or>
         gindex (s_Params s) ''repositories'' \<in> lang ghRepositoriesPattern) \<and>
        snd ` set (s_Fields s) \<subseteq> {''token''})"

definition window_valid :: "(string \<Rightarrow> string + (time \<Rightarrow> time)) \<Rightarrow> window_doc \<Rightarrow> bool" where
  "window_valid cronParse w \<longleftrightarrow> \<not> isl (cronParse (w_Cron w)) \<and> 0 < sint (w_Duration w)"

definition ttl_valid :: "'w Grant \<Rightarrow> bool" where
  "ttl_valid g \<longleftrightarrow> 0 < sint (g_TTLDefault g) \<and> sint (g_TTLDefault g) \<le> sint (g_TTLMax g)"

definition grant_valid :: "(string \<Rightarrow> string + (time \<Rightarrow> time)) \<Rightarrow> string set \<Rightarrow> window_doc Grant \<Rightarrow> bool" where
  "grant_valid cronParse names g \<longleftrightarrow> g_Scope g \<in> names \<and> ttl_valid g \<and>
     (\<forall>w \<in> set (g_IssueWindows g). window_valid cronParse w)"

definition subject_valid :: "(string \<Rightarrow> string + (time \<Rightarrow> time)) \<Rightarrow> string set \<Rightarrow> window_doc SubjectPolicy \<Rightarrow> bool" where
  "subject_valid cronParse names sp \<longleftrightarrow> sp_ServiceAccount sp \<in> lang subjectKeyPattern \<and>
     distinct (map g_Scope (sp_Grants sp)) \<and> (\<forall>g \<in> set (sp_Grants sp). grant_valid cronParse names g)"

definition doc_valid :: "(string \<Rightarrow> string + (time \<Rightarrow> time)) \<Rightarrow> policy_doc \<Rightarrow> bool" where
  "doc_valid cronParse doc \<longleftrightarrow>
     distinct (map s_Name (d_Scopes doc)) \<and> (\<forall>s \<in> set (d_Scopes doc). scope_valid s) \<and>
     distinct (map sp_ServiceAccount (d_Subjects doc)) \<and>
     (\<forall>sp \<in> set (d_Subjects doc). subject_valid cronParse (s_Name ` set (d_Scopes doc)) sp)"

text \<open>The policy a valid document denotes.\<close>

definition compile_window :: "(string \<Rightarrow> string + (time \<Rightarrow> time)) \<Rightarrow> window_doc \<Rightarrow> IssueWindow" where
  "compile_window cronParse w =
     \<lparr>w_Cron = w_Cron w, w_Duration = w_Duration w, w_sched = projr (cronParse (w_Cron w))\<rparr>"

definition compile_grant :: "(string \<Rightarrow> string + (time \<Rightarrow> time)) \<Rightarrow> window_doc Grant \<Rightarrow> grant" where
  "compile_grant cronParse g = set_windows g (map (compile_window cronParse) (g_IssueWindows g))"

definition compile_subject :: "(string \<Rightarrow> string + (time \<Rightarrow> time)) \<Rightarrow> window_doc SubjectPolicy \<Rightarrow> IssueWindow SubjectPolicy" where
  "compile_subject cronParse sp =
     \<lparr>sp_ServiceAccount = sp_ServiceAccount sp, sp_Grants = map (compile_grant cronParse) (sp_Grants sp),
      sp_ClaimBytesPerDay = sp_ClaimBytesPerDay sp\<rparr>"

definition grant_entries :: "grant list \<Rightarrow> grant gomap" where
  "grant_entries gs = map (\<lambda>g. (g_Scope g, g)) gs"

definition subject_entry :: "IssueWindow SubjectPolicy \<Rightarrow> string \<times> grant gomap" where
  "subject_entry sp = (sp_ServiceAccount sp, grant_entries (sp_Grants sp))"

definition compile_policy :: "(string \<Rightarrow> string + (time \<Rightarrow> time)) \<Rightarrow> (string \<Rightarrow> string) \<Rightarrow> string \<Rightarrow>
    policy_doc \<Rightarrow> Policy" where
  "compile_policy cronParse sha256 raw doc =
     \<lparr>p_Scopes = d_Scopes doc, p_Subjects = map (compile_subject cronParse) (d_Subjects doc),
      p_Hash = ''sha256:'' @ hex_encode (sha256 raw),
      p_scopeByName = map (\<lambda>s. (s_Name s, s)) (d_Scopes doc),
      p_grantBySubj = map (subject_entry \<circ> compile_subject cronParse) (d_Subjects doc)\<rparr>"

lemma check_github_None:
  "check_github s = None \<longleftrightarrow>
     s_Ref s \<in> lang ghInstallationRefPattern \<and>
     gindex (s_Params s) ''permissions'' \<in> lang ghPermissionsPattern \<and>
     (gindex (s_Params s) ''repositories'' = [] \<or>
      gindex (s_Params s) ''repositories'' \<in> lang ghRepositoriesPattern) \<and>
     snd ` set (s_Fields s) \<subseteq> {''token''}"
proof -
  have "find (\<lambda>(lf, key). key \<noteq> ''token'') (s_Fields s) = None \<longleftrightarrow> snd ` set (s_Fields s) \<subseteq> {''token''}"
    by (force simp: find_None_iff)
  then show ?thesis
    by (auto simp: check_github_def Let_def MatchString_lang split: option.splits)
qed

lemma check_scope_None:
  "check_scope i m s = None \<longleftrightarrow> s_Name s \<notin> fst ` set m \<and> scope_valid s"
  by (auto simp: check_scope_def check_github_None scope_valid_def KnownProviders_def List.member_iff
      MatchString_lang map_of_eq_None_iff)

lemma scope_loop_Cons:
  "scope_loop i (s # ss) m = Inr m' \<longleftrightarrow>
     check_scope i m s = None \<and> scope_loop (Suc i) ss (m @ [(s_Name s, s)]) = Inr m'"
  by (simp split: option.splits)

lemma scope_loop_Inr:
  "scope_loop i ss m = Inr m' \<longleftrightarrow>
     distinct (map s_Name ss) \<and> s_Name ` set ss \<inter> fst ` set m = {} \<and> (\<forall>s \<in> set ss. scope_valid s) \<and>
     m' = m @ map (\<lambda>s. (s_Name s, s)) ss"
proof (induction ss arbitrary: i m)
  case (Cons s ss)
  show ?case by (auto simp: scope_loop_Cons Cons.IH check_scope_None simp del: scope_loop.simps)
qed auto

lemma window_loop_Cons:
  "window_loop cronParse sa sc k (w # ws) = Inr ws' \<longleftrightarrow>
     window_valid cronParse w \<and>
     (\<exists>ws1. window_loop cronParse sa sc (Suc k) ws = Inr ws1 \<and> ws' = compile_window cronParse w # ws1)"
  by (auto simp: window_valid_def compile_window_def not_le split: sum.splits)

lemma window_loop_Inr:
  "window_loop cronParse sa sc k ws = Inr ws' \<longleftrightarrow>
     (\<forall>w \<in> set ws. window_valid cronParse w) \<and> ws' = map (compile_window cronParse) ws"
proof (induction ws arbitrary: k ws')
  case (Cons w ws)
  show ?case by (auto simp: window_loop_Cons Cons.IH simp del: window_loop.simps)
qed auto

lemma check_grant_None:
  "check_grant scopes sa m g = None \<longleftrightarrow>
     g_Scope g \<in> fst ` set scopes \<and> g_Scope g \<notin> fst ` set m \<and> ttl_valid g"
  by (auto simp: check_grant_def ttl_valid_def map_of_eq_None_iff)

lemma grant_loop_Cons:
  "grant_loop cronParse scopes sa (g # gs) m = Inr m' \<longleftrightarrow>
     grant_valid cronParse (fst ` set scopes) g \<and> g_Scope g \<notin> fst ` set m \<and>
     grant_loop cronParse scopes sa gs (m @ [(g_Scope g, compile_grant cronParse g)]) = Inr m'"
proof (cases "check_grant scopes sa m g")
  case None
  then have g: "grant_valid cronParse (fst ` set scopes) g \<longleftrightarrow>
      (\<forall>w \<in> set (g_IssueWindows g). window_valid cronParse w)" "g_Scope g \<notin> fst ` set m"
    using check_grant_None [of scopes sa m g] by (auto simp: grant_valid_def)
  show ?thesis
  proof (cases "window_loop cronParse sa (g_Scope g) 0 (g_IssueWindows g)")
    case (Inl e)
    then show ?thesis
      using None g window_loop_Inr [of cronParse sa "g_Scope g" 0 "g_IssueWindows g"] by auto
  next
    case (Inr ws)
    then have "ws = map (compile_window cronParse) (g_IssueWindows g)"
        "\<forall>w \<in> set (g_IssueWindows g). window_valid cronParse w"
      by (simp_all add: window_loop_Inr)
    then show ?thesis using None g Inr by (simp add: compile_grant_def)
  qed
next
  case (Some e)
  then show ?thesis using check_grant_None [of scopes sa m g] by (auto simp: grant_valid_def)
qed

lemma grant_loop_Inr:
  "grant_loop cronParse scopes sa gs m = Inr m' \<longleftrightarrow>
     distinct (map g_Scope gs) \<and> g_Scope ` set gs \<inter> fst ` set m = {} \<and>
     (\<forall>g \<in> set gs. grant_valid cronParse (fst ` set scopes) g) \<and>
     m' = m @ grant_entries (map (compile_grant cronParse) gs)"
proof (induction gs arbitrary: m)
  case (Cons g gs)
  have [simp]: "g_Scope (compile_grant cronParse g) = g_Scope g"
    by (simp add: compile_grant_def set_windows_def)
  show ?case by (auto simp: grant_loop_Cons Cons.IH grant_entries_def simp del: grant_loop.simps)
qed (auto simp: grant_entries_def)

lemma subject_loop_Cons:
  "subject_loop cronParse scopes i (sp # sps) acc m = Inr r \<longleftrightarrow>
     subject_valid cronParse (fst ` set scopes) sp \<and> sp_ServiceAccount sp \<notin> fst ` set m \<and>
     subject_loop cronParse scopes (Suc i) sps (acc @ [compile_subject cronParse sp])
       (m @ [subject_entry (compile_subject cronParse sp)]) = Inr r"
proof (cases "grant_loop cronParse scopes (sp_ServiceAccount sp) (sp_Grants sp) []")
  case (Inl e)
  then show ?thesis
    using grant_loop_Inr [of cronParse scopes "sp_ServiceAccount sp" "sp_Grants sp" "[]"]
    by (auto simp: Let_def subject_valid_def MatchString_lang)
next
  case (Inr grants)
  moreover have "grants = grant_entries (map (compile_grant cronParse) (sp_Grants sp))"
      "distinct (map g_Scope (sp_Grants sp))" "\<forall>g \<in> set (sp_Grants sp). grant_valid cronParse (fst ` set scopes) g"
    using Inr by (auto simp: grant_loop_Inr)
  moreover have "map snd (grant_entries gs) = gs" for gs by (simp add: grant_entries_def comp_def)
  ultimately show ?thesis
    by (auto simp: Let_def subject_valid_def MatchString_lang compile_subject_def subject_entry_def
        map_of_eq_None_iff)
qed

lemma subject_loop_Inr:
  "subject_loop cronParse scopes i sps acc m = Inr (acc', m') \<longleftrightarrow>
     distinct (map sp_ServiceAccount sps) \<and> sp_ServiceAccount ` set sps \<inter> fst ` set m = {} \<and>
     (\<forall>sp \<in> set sps. subject_valid cronParse (fst ` set scopes) sp) \<and>
     acc' = acc @ map (compile_subject cronParse) sps \<and>
     m' = m @ map (subject_entry \<circ> compile_subject cronParse) sps"
proof (induction sps arbitrary: i acc m)
  case (Cons sp sps)
  have "fst (subject_entry (compile_subject cronParse sp)) = sp_ServiceAccount sp"
    by (simp add: subject_entry_def compile_subject_def)
  then show ?case by (auto simp: subject_loop_Cons Cons.IH simp del: subject_loop.simps)
qed auto

lemma Parse_Inr:
  "Parse yaml cronParse sha256 raw = Inr p \<longleftrightarrow>
     (\<exists>doc. yaml UnmarshalYAML raw = Inr doc \<and> doc_valid cronParse doc \<and>
        p = compile_policy cronParse sha256 raw doc)"
proof (cases "yaml UnmarshalYAML raw")
  case (Inr doc)
  let ?m = "map (\<lambda>s. (s_Name s, s)) (d_Scopes doc)"
  have names: "fst ` set ?m = s_Name ` set (d_Scopes doc)" by force
  show ?thesis
  proof (cases "scope_loop 0 (d_Scopes doc) []")
    case (Inl e)
    then show ?thesis
      using Inr scope_loop_Inr [of 0 "d_Scopes doc" "[]"] by (auto simp: Parse_def doc_valid_def)
  next
    case m: (Inr m)
    then have eq: "m = ?m" and scopes: "distinct (map s_Name (d_Scopes doc))" "\<forall>s \<in> set (d_Scopes doc). scope_valid s"
      by (simp_all add: scope_loop_Inr)
    have *: "subject_loop cronParse m 0 (d_Subjects doc) [] [] = Inr (sps, gs) \<longleftrightarrow>
        doc_valid cronParse doc \<and> sps = map (compile_subject cronParse) (d_Subjects doc) \<and>
        gs = map (subject_entry \<circ> compile_subject cronParse) (d_Subjects doc)" for sps gs
      unfolding eq subject_loop_Inr names doc_valid_def using scopes by auto
    show ?thesis
    proof (cases "subject_loop cronParse m 0 (d_Subjects doc) [] []")
      case (Inl e)
      then have "\<not> doc_valid cronParse doc" using * by auto
      then show ?thesis using \<open>yaml UnmarshalYAML raw = Inr doc\<close> m Inl by (simp add: Parse_def)
    next
      case (Inr r)
      then show ?thesis using \<open>yaml UnmarshalYAML raw = Inr doc\<close> m * [of "fst r" "snd r"]
        by (cases r) (auto simp: Parse_def compile_policy_def eq)
    qed
  qed
qed (simp add: Parse_def)

section \<open>The invariant of a loaded policy\<close>

definition policy_ok :: "Policy \<Rightarrow> bool" where
  "policy_ok p \<longleftrightarrow>
     p_scopeByName p = map (\<lambda>s. (s_Name s, s)) (p_Scopes p) \<and>
     distinct (map s_Name (p_Scopes p)) \<and> (\<forall>s \<in> set (p_Scopes p). scope_valid s) \<and>
     p_grantBySubj p = map subject_entry (p_Subjects p) \<and>
     distinct (map sp_ServiceAccount (p_Subjects p)) \<and>
     (\<forall>sp \<in> set (p_Subjects p). sp_ServiceAccount sp \<in> lang subjectKeyPattern \<and>
        distinct (map g_Scope (sp_Grants sp)) \<and>
        (\<forall>g \<in> set (sp_Grants sp). g_Scope g \<in> s_Name ` set (p_Scopes p) \<and> ttl_valid g))"

lemma compile_grant_simps [simp]:
  "g_Scope (compile_grant c g) = g_Scope g" "ttl_valid (compile_grant c g) = ttl_valid g"
  by (simp_all add: compile_grant_def set_windows_def ttl_valid_def)

lemma compile_subject_simps [simp]:
  "sp_ServiceAccount (compile_subject c sp) = sp_ServiceAccount sp"
  "sp_Grants (compile_subject c sp) = map (compile_grant c) (sp_Grants sp)"
  by (simp_all add: compile_subject_def)

lemma Parse_ok: "Parse yaml cronParse sha256 raw = Inr p \<Longrightarrow> policy_ok p"
  by (auto simp: Parse_Inr doc_valid_def compile_policy_def policy_ok_def subject_valid_def
      grant_valid_def comp_def)

text \<open>A lookup in a map built from distinct keys.\<close>

lemma map_of_keyed:
  "distinct (map f xs) \<Longrightarrow> map_of (map (\<lambda>x. (f x, h x)) xs) k = Some v \<longleftrightarrow> (\<exists>x \<in> set xs. f x = k \<and> h x = v)"
proof (induction xs)
  case (Cons x xs)
  show ?case
  proof (cases "f x = k")
    case True
    then have "\<forall>y \<in> set xs. f y \<noteq> k" using Cons.prems by (auto simp: image_iff)
    then show ?thesis using True by simp
  next
    case False
    then show ?thesis using Cons by simp
  qed
qed simp

text \<open>A lookup in a map of maps, each built from distinct keys.\<close>

lemma nested_lookup:
  assumes "distinct (map f xs)" "\<forall>x \<in> set xs. distinct (map h (ys x))"
  shows "(case map_of (map (\<lambda>x. (f x, map (\<lambda>y. (h y, y)) (ys x))) xs) k of None \<Rightarrow> None | Some m \<Rightarrow> map_of m n) = Some v \<longleftrightarrow>
    (\<exists>x \<in> set xs. f x = k \<and> v \<in> set (ys x) \<and> h v = n)"
proof -
  note outer = map_of_keyed [OF assms(1), of "\<lambda>x. map (\<lambda>y. (h y, y)) (ys x)" k]
  have inner: "map_of (map (\<lambda>y. (h y, y)) (ys x)) n = Some v \<longleftrightarrow> v \<in> set (ys x) \<and> h v = n" if "x \<in> set xs" for x
    using map_of_keyed [of h "ys x" "\<lambda>y. y"] assms(2) that by auto
  show ?thesis
  proof (cases "map_of (map (\<lambda>x. (f x, map (\<lambda>y. (h y, y)) (ys x))) xs) k")
    case None
    then show ?thesis using outer by auto
  next
    case (Some m)
    then obtain x where x: "x \<in> set xs" "f x = k" "m = map (\<lambda>y. (h y, y)) (ys x)" using outer by auto
    moreover have "x' = x" if "x' \<in> set xs" "f x' = k" for x'
      using assms(1) x(1,2) that by (auto simp: distinct_map dest: inj_onD)
    ultimately have "(\<exists>x \<in> set xs. f x = k \<and> v \<in> set (ys x) \<and> h v = n) \<longleftrightarrow> v \<in> set (ys x) \<and> h v = n" by blast
    then show ?thesis using Some x(3) inner [OF x(1)] by simp
  qed
qed

lemma GrantOf_iff:
  assumes "policy_ok p"
  shows "GrantOf p k sc = Some g \<longleftrightarrow>
    (\<exists>sp \<in> set (p_Subjects p). sp_ServiceAccount sp = k \<and> g \<in> set (sp_Grants sp) \<and> g_Scope g = sc)"
proof -
  have "distinct (map sp_ServiceAccount (p_Subjects p))" "\<forall>sp \<in> set (p_Subjects p). distinct (map g_Scope (sp_Grants sp))"
    and "p_grantBySubj p = map (\<lambda>sp. (sp_ServiceAccount sp, map (\<lambda>g. (g_Scope g, g)) (sp_Grants sp))) (p_Subjects p)"
    using assms by (simp_all add: policy_ok_def subject_entry_def [abs_def] grant_entries_def)
  then show ?thesis by (simp add: GrantOf_def nested_lookup)
qed

lemma ScopeOf_iff:
  assumes "policy_ok p"
  shows "ScopeOf p n = Some s \<longleftrightarrow> s \<in> set (p_Scopes p) \<and> s_Name s = n"
  using assms map_of_keyed [of s_Name "p_Scopes p" "\<lambda>s. s"]
  by (auto simp: policy_ok_def ScopeOf_def)

section \<open>What the broker relies on\<close>

text \<open>The handlers see a policy through two lookups. A grant names a scope that is defined, so
  the scope they dereference is never nil; its lifetimes are positive and ordered; and its
  subject key has one slash.\<close>

locale grant_policy =
  fixes ok :: "'p \<Rightarrow> bool"
    and scope_of :: "'p \<Rightarrow> string \<Rightarrow> Scope option"
    and grant_of :: "'p \<Rightarrow> string \<Rightarrow> string \<Rightarrow> grant option"
  assumes scope_named: "ok p \<Longrightarrow> scope_of p n = Some s \<Longrightarrow> s_Name s = n \<and> scope_valid s"
    and grant_scoped: "ok p \<Longrightarrow> grant_of p k n = Some g \<Longrightarrow> g_Scope g = n \<and> scope_of p n \<noteq> None"
    and grant_lifetimes: "ok p \<Longrightarrow> grant_of p k n = Some g \<Longrightarrow> ttl_valid g"
    and grant_subject: "ok p \<Longrightarrow> grant_of p k n = Some g \<Longrightarrow> k \<in> lang subjectKeyPattern"
begin

lemma granted_scope:
  assumes "ok p" "grant_of p k n = Some g"
  obtains s where "scope_of p n = Some s" "s_Name s = n"
    "s_Provider s \<in> {''onepassword-connect'', ''github-app''}" "s_Fields s \<noteq> []"
  using grant_scoped [OF assms] scope_named [OF assms(1)] by (fastforce simp: scope_valid_def)

end

interpretation pol: grant_policy policy_ok ScopeOf GrantOf
proof (standard, goal_cases)
  case (1 p n s)
  then show ?case by (auto simp: ScopeOf_iff policy_ok_def)
next
  case (2 p k n g)
  then obtain sp where "sp \<in> set (p_Subjects p)" "g \<in> set (sp_Grants sp)" "g_Scope g = n"
    by (auto simp: GrantOf_iff)
  then have "n \<in> s_Name ` set (p_Scopes p)" using 2(1) by (auto simp: policy_ok_def)
  then obtain s where "s \<in> set (p_Scopes p)" "s_Name s = n" by blast
  then have "ScopeOf p n = Some s" using 2(1) by (simp add: ScopeOf_iff)
  then show ?case using \<open>g_Scope g = n\<close> by simp
next
  case (3 p k n g)
  then show ?case by (auto simp: GrantOf_iff policy_ok_def)
next
  case (4 p k n g)
  then show ?case by (auto simp: GrantOf_iff policy_ok_def)
qed

section \<open>The languages of the patterns\<close>

lemma opRef_lang:
  "s \<in> lang opRefPattern \<longleftrightarrow>
     (\<exists>v i. s = ''vaults/'' @ v @ ''/items/'' @ i \<and> length v = 26 \<and> length i = 26 \<and>
        (\<forall>c \<in> set v \<union> set i. lower_digit c))"
  unfolding opRefPattern_def lang.simps lang_Lit lang_Times_Class by blast

lemma installation_lang:
  "s \<in> lang ghInstallationRefPattern \<longleftrightarrow> (\<exists>n. s = ''installations/'' @ n \<and> n \<noteq> [] \<and> (\<forall>c \<in> set n. digit c))"
  unfolding ghInstallationRefPattern_def lang.simps lang_Lit lang_Plus_Class by blast

lemma dns_label_lang:
  assumes "s \<in> lang dns_label"
  shows "s \<noteq> [] \<and> CHR ''/'' \<notin> set s"
proof -
  let ?in = "\<lambda>c. c = CHR ''-'' \<or> lower_digit c"
  let ?r = "Seq (Star (Class ?in)) (Class lower_digit)"
  obtain c u where s: "s = c # u" "lower_digit c" and u: "u = [] \<or> u \<in> lang ?r"
    using assms by (auto simp only: dns_label_def lang_Seq_Class lang_Opt insert_iff)
  have "\<forall>c \<in> set u. ?in c" if r: "u \<in> lang ?r"
  proof -
    obtain a b where ab: "u = a @ b" "a \<in> lang (Star (Class ?in))" "b \<in> lang (Class lower_digit)"
      using r unfolding lang.simps(4) by blast
    have "\<forall>c \<in> set a. ?in c" using ab(2) unfolding lang.simps star_Class mem_Collect_eq .
    moreover obtain d where "b = [d]" "lower_digit d" using ab(3) by auto
    ultimately show ?thesis using ab(1) by simp
  qed
  then have "\<forall>c \<in> set u. ?in c" using u by fastforce
  then have "s \<noteq> []" "\<forall>c \<in> set s. ?in c" using s by auto
  moreover have "\<not> ?in CHR ''/''" by (simp add: lower_digit_def lower_def digit_def)
  ultimately show ?thesis by blast
qed

lemma dns_label_plain:
  assumes "s \<noteq> []" "\<forall>c \<in> set s. lower_digit c"
  shows "s \<in> lang dns_label"
proof (cases s rule: rev_cases)
  case (snoc m d)
  let ?r = "Opt (Seq (Star (Class (\<lambda>c. c = CHR ''-'' \<or> lower_digit c))) (Class lower_digit))"
  have *: "u \<in> lang ?r" if "u = [] \<or> (\<exists>m d. u = m @ [d] \<and> (\<forall>c \<in> set m. lower_digit c) \<and> lower_digit d)" for u
    using that by (auto simp: star_Class)
  show ?thesis
  proof (cases m)
    case Nil
    then show ?thesis using assms snoc * [of "[]"] by (auto simp: dns_label_def)
  next
    case (Cons c m')
    then have "s = [c] @ (m' @ [d])" "[c] \<in> lang (Class lower_digit)" using assms snoc by auto
    moreover have "m' @ [d] \<in> lang ?r" using assms snoc Cons by (intro *) auto
    ultimately show ?thesis unfolding dns_label_def lang.simps(4) by blast
  qed
qed (use assms in simp)

lemma subjectKey_lang:
  assumes "k \<in> lang subjectKeyPattern"
  shows "\<exists>ns sa. k = ns @ CHR ''/'' # sa \<and> ns \<noteq> [] \<and> sa \<noteq> [] \<and> CHR ''/'' \<notin> set ns \<and> CHR ''/'' \<notin> set sa"
  using assms by (fastforce simp: subjectKeyPattern_def dest!: dns_label_lang)

lemma subjectKey_plain:
  assumes "ns \<noteq> []" "sa \<noteq> []" "\<forall>c \<in> set ns \<union> set sa. lower_digit c"
  shows "ns @ CHR ''/'' # sa \<in> lang subjectKeyPattern"
  using dns_label_plain [of ns] dns_label_plain [of sa] assms
  by (force simp: subjectKeyPattern_def)

section \<open>Properties\<close>

text \<open>C10: \<open>Parse\<close> accepts exactly the valid documents, and the policy it returns is the one the
  document denotes: every check of the loops, in whatever order they fail, amounts to the
  declarative \<open>doc_valid\<close>, and nothing of the document is lost or added.\<close>

theorem Parse_exact:
  "Parse yaml cronParse sha256 raw = Inr p \<longleftrightarrow>
     (\<exists>doc. yaml UnmarshalYAML raw = Inr doc \<and> doc_valid cronParse doc \<and>
        p = compile_policy cronParse sha256 raw doc)"
  by (rule Parse_Inr)

text \<open>C11: deny by default. In a loaded policy a subject holds a grant for a scope exactly when the
  document lists that grant under exactly that service account, and then the scope is defined
  with a known provider and at least one field, and \<open>0 < ttlDefault \<le> ttlMax\<close>.\<close>

theorem grant_deny_by_default:
  assumes "Parse yaml cronParse sha256 raw = Inr p" "yaml UnmarshalYAML raw = Inr doc"
  shows "(GrantOf p k sc = Some g \<longleftrightarrow>
      (\<exists>sp \<in> set (d_Subjects doc). sp_ServiceAccount sp = k \<and>
         (\<exists>g0 \<in> set (sp_Grants sp). g_Scope g0 = sc \<and> g = compile_grant cronParse g0))) \<and>
    (GrantOf p k sc = Some g \<longrightarrow>
      (\<exists>s \<in> set (d_Scopes doc). ScopeOf p sc = Some s \<and> s_Name s = sc \<and>
         s_Provider s \<in> {''onepassword-connect'', ''github-app''} \<and> s_Fields s \<noteq> []) \<and>
      0 < sint (g_TTLDefault g) \<and> sint (g_TTLDefault g) \<le> sint (g_TTLMax g))"
proof -
  have p: "p = compile_policy cronParse sha256 raw doc" and ok: "policy_ok p"
    using assms Parse_ok [OF assms(1)] by (auto simp: Parse_Inr)
  have "GrantOf p k sc = Some g \<longleftrightarrow>
      (\<exists>sp \<in> set (d_Subjects doc). sp_ServiceAccount sp = k \<and>
         (\<exists>g0 \<in> set (sp_Grants sp). g_Scope g0 = sc \<and> g = compile_grant cronParse g0))"
    unfolding GrantOf_iff [OF ok] by (fastforce simp: p compile_policy_def)
  moreover have "\<exists>s \<in> set (d_Scopes doc). ScopeOf p sc = Some s \<and> s_Name s = sc \<and>
         s_Provider s \<in> {''onepassword-connect'', ''github-app''} \<and> s_Fields s \<noteq> []"
    if g: "GrantOf p k sc = Some g"
  proof -
    obtain s where s: "ScopeOf p sc = Some s" "s_Name s = sc"
        "s_Provider s \<in> {''onepassword-connect'', ''github-app''}" "s_Fields s \<noteq> []"
      using pol.granted_scope [OF ok g] .
    moreover have "s \<in> set (d_Scopes doc)" using s(1) ok by (simp add: ScopeOf_iff p compile_policy_def)
    ultimately show ?thesis by blast
  qed
  moreover have "0 < sint (g_TTLDefault g) \<and> sint (g_TTLDefault g) \<le> sint (g_TTLMax g)"
    if "GrantOf p k sc = Some g"
    using pol.grant_lifetimes [OF ok that] unfolding ttl_valid_def .
  ultimately show ?thesis by blast
qed

text \<open>\<open>GrantsFor\<close> lists exactly a subject's grants, in strictly increasing order of their scope
  names, which determines the list whatever the order of the map's \<open>range\<close>.\<close>

theorem GrantsFor_sorted:
  assumes "Parse yaml cronParse sha256 raw = Inr p"
  shows "sorted_wrt (<) (map g_Scope (GrantsFor p k)) \<and>
    set (GrantsFor p k) = {g. \<exists>sc. GrantOf p k sc = Some g}"
proof -
  have ok: "policy_ok p" using Parse_ok [OF assms] .
  define gs where "gs = map snd (case map_of (p_grantBySubj p) k of None \<Rightarrow> [] | Some m \<Rightarrow> m)"
  have gs: "gs = [] \<or> (\<exists>sp \<in> set (p_Subjects p). sp_ServiceAccount sp = k \<and> gs = sp_Grants sp)"
  proof (cases "map_of (p_grantBySubj p) k")
    case (Some m)
    then have "(k, m) \<in> set (p_grantBySubj p)" by (rule map_of_SomeD)
    then show ?thesis using ok Some
      by (auto simp: policy_ok_def subject_entry_def grant_entries_def gs_def comp_def)
  qed (simp add: gs_def)
  have "distinct (map g_Scope gs)" using gs ok by (auto simp: policy_ok_def)
  then have "sorted_wrt (<) (map g_Scope (sort_key g_Scope gs))"
    by (simp add: strict_sorted_iff distinct_map)
  moreover have "set gs = {g. \<exists>sc. GrantOf p k sc = Some g}"
  proof (cases "map_of (p_grantBySubj p) k")
    case (Some m)
    then have "(k, m) \<in> set (p_grantBySubj p)" by (rule map_of_SomeD)
    then have "distinct (map fst m)" using ok
      by (auto simp: policy_ok_def subject_entry_def grant_entries_def comp_def)
    then show ?thesis using ran_distinct [of m] Some by (simp add: gs_def GrantOf_def ran_def)
  qed (simp add: gs_def GrantOf_def)
  ultimately show ?thesis by (simp add: GrantsFor_def gs_def)
qed

text \<open>\<open>next_of fires next\<close>: \<open>next\<close> gives the first of the fire times after its argument, as \<open>Schedule.Next\<close> is
  documented, for a schedule that keeps firing.\<close>

definition next_of :: "time set \<Rightarrow> (time \<Rightarrow> time) \<Rightarrow> bool" where
  "next_of fires next \<longleftrightarrow> (\<forall>u. next u \<in> fires \<and> u < next u \<and> (\<forall>f \<in> fires. u < f \<longrightarrow> next u \<le> f))"

lemma Open_fired:
  assumes "next_of fires (w_sched w)" "0 < sint (w_Duration w)"
  shows "Open w t \<longleftrightarrow> (\<exists>f \<in> fires. t - sint (w_Duration w) < f \<and> f \<le> t)"
proof -
  have "sint (- w_Duration w) = - sint (w_Duration w)"
    using assms(2) sint_range [of "w_Duration w"] sint_word_of_int_exact [of "- sint (w_Duration w)"]
    by (simp add: min_int64_def max_int64_def)
  then have "Open w t \<longleftrightarrow> w_sched w (t - sint (w_Duration w)) \<le> t"
    by (simp add: Open_def Let_def After_def not_less Add_def)
  then show ?thesis using assms(1) unfolding next_of_def by (blast intro: order_trans)
qed

text \<open>The windows of a grant are those of the document, with the schedules of their expressions.\<close>

lemma granted_windows:
  assumes "Parse yaml cronParse sha256 raw = Inr p" "GrantOf p k sc = Some g" "w \<in> set (g_IssueWindows g)"
  shows "cronParse (w_Cron w) = Inr (w_sched w)" "0 < sint (w_Duration w)"
proof -
  obtain sp where "sp \<in> set (p_Subjects p)" "g \<in> set (sp_Grants sp)"
    using GrantOf_iff [OF Parse_ok [OF assms(1)]] assms(2) by blast
  then obtain g0 where "g = compile_grant cronParse g0" "\<forall>w \<in> set (g_IssueWindows g0). window_valid cronParse w"
    using assms(1) by (auto simp: Parse_Inr compile_policy_def compile_subject_def doc_valid_def subject_valid_def grant_valid_def)
  then obtain w0 where "w = compile_window cronParse w0" "window_valid cronParse w0"
    using assms(3) by (auto simp: compile_grant_def set_windows_def)
  then show "cronParse (w_Cron w) = Inr (w_sched w)" "0 < sint (w_Duration w)"
    by (auto simp: compile_window_def window_valid_def isl_def split: sum.splits)
qed

text \<open>C40: when a grant can be used. For a grant of a loaded policy whose cron expressions keep firing, with
  \<open>fires expr\<close> the fire times of an expression and \<open>Next\<close> the first of them after an instant: the grant is
  open at \<open>t\<close> exactly when it has no window, or for one of its windows a fire time lies in
  \<open>(t - duration, t]\<close>.\<close>

theorem windows_open_exact:
  assumes "Parse yaml cronParse sha256 raw = Inr p" "GrantOf p k sc = Some g"
    and "\<forall>w \<in> set (g_IssueWindows g). \<forall>next. cronParse (w_Cron w) = Inr next \<longrightarrow> next_of (fires (w_Cron w)) next"
  shows "WindowOpen g t \<longleftrightarrow> g_IssueWindows g = [] \<or>
    (\<exists>w \<in> set (g_IssueWindows g). \<exists>f \<in> fires (w_Cron w). t - sint (w_Duration w) < f \<and> f \<le> t)"
proof -
  have "Open w t \<longleftrightarrow> (\<exists>f \<in> fires (w_Cron w). t - sint (w_Duration w) < f \<and> f \<le> t)" if "w \<in> set (g_IssueWindows g)" for w
    using Open_fired granted_windows [OF assms(1,2) that] assms(3) that by blast
  then show ?thesis by (auto simp: WindowOpen_def list_ex_iff)
qed

text \<open>A concrete document: one 1Password scope, granted to one subject within an hourly window of
  ten minutes.\<close>

definition sample_window :: window_doc where
  "sample_window = \<lparr>w_Cron = ''0 * * * *'', w_Duration = 10 * Minute\<rparr>"

definition sample_scope :: Scope where
  "sample_scope = \<lparr>s_Name = ''db'', s_Provider = ''onepassword-connect'',
     s_Ref = ''vaults/'' @ replicate 26 (CHR ''a'') @ ''/items/'' @ replicate 26 (CHR ''b''),
     s_Fields = [(''token'', ''password'')], s_Params = []\<rparr>"

definition sample_grant :: "window_doc Grant" where
  "sample_grant = \<lparr>g_Scope = ''db'', g_TTLDefault = Minute, g_TTLMax = Hour, g_Renewable = True,
     g_IssueWindows = [sample_window]\<rparr>"

definition sample_doc :: policy_doc where
  "sample_doc = \<lparr>d_Scopes = [sample_scope],
     d_Subjects = [\<lparr>sp_ServiceAccount = ''ns/sa'', sp_Grants = [sample_grant], sp_ClaimBytesPerDay = 4096\<rparr>]\<rparr>"

definition hourly :: "time \<Rightarrow> time" where
  "hourly u = (u div 3600000000000 + 1) * 3600000000000"

definition sample_policy :: Policy where
  "sample_policy = compile_policy (\<lambda>_. Inr hourly) (\<lambda>_. replicate 32 (CHR ''h'')) ''raw'' sample_doc"

lemma sample_doc_valid: "doc_valid (\<lambda>_. Inr hourly) sample_doc"
proof -
  have "s_Ref sample_scope \<in> lang opRefPattern"
    unfolding opRef_lang sample_scope_def
    by (rule exI [of _ "replicate 26 (CHR ''a'')"], rule exI [of _ "replicate 26 (CHR ''b'')"])
      (simp add: lower_digit_def lower_def)
  moreover have "''ns/sa'' \<in> lang subjectKeyPattern"
    using subjectKey_plain [of "''ns''" "''sa''"] by (simp add: lower_digit_def lower_def)
  ultimately show ?thesis
    by (simp add: doc_valid_def sample_doc_def scope_valid_def subject_valid_def grant_valid_def
        sample_grant_def ttl_valid_def sample_window_def window_valid_def Minute_def Hour_def Second_def
        sample_scope_def)
qed

lemma sample_parse:
  "Parse (\<lambda>um raw. Inr sample_doc) (\<lambda>_. Inr hourly) (\<lambda>_. replicate 32 (CHR ''h'')) ''raw'' = Inr sample_policy"
  using sample_doc_valid by (simp add: Parse_Inr sample_policy_def)

theorem grant_deny_by_default_witness:
  "GrantOf sample_policy ''ns/sa'' ''db'' = Some (compile_grant (\<lambda>_. Inr hourly) sample_grant) \<and>
   GrantOf sample_policy ''ns/sa2'' ''db'' = None"
  using grant_deny_by_default [OF sample_parse refl, of "''ns/sa''" "''db''" "compile_grant (\<lambda>_. Inr hourly) sample_grant"]
    grant_deny_by_default [OF sample_parse refl, of "''ns/sa2''" "''db''" "the (GrantOf sample_policy ''ns/sa2'' ''db'')"]
  by (cases "GrantOf sample_policy ''ns/sa2'' ''db''") (simp_all add: sample_doc_def sample_grant_def)

theorem GrantsFor_sorted_witness:
  "sorted_wrt (<) (map g_Scope (GrantsFor sample_policy ''ns/sa'')) \<and>
   GrantsFor sample_policy ''ns/sa'' = [compile_grant (\<lambda>_. Inr hourly) sample_grant]"
  using GrantsFor_sorted [OF sample_parse, of "''ns/sa''"]
  by (simp add: GrantsFor_def sample_policy_def sample_doc_def compile_policy_def subject_entry_def
      compile_subject_def grant_entries_def)

lemma hourly_next: "next_of (range (\<lambda>k. k * 3600000000000)) hourly"
proof -
  have "u < hourly u" for u
    using pos_mod_bound [of 3600000000000 u] div_mult_mod_eq [of u 3600000000000] by (simp add: hourly_def)
  moreover have "hourly u \<le> k * 3600000000000" if "u < k * 3600000000000" for u k
  proof -
    have "u div 3600000000000 < k" using that by (simp add: div_less_iff_less_mult mult.commute)
    then have "u div 3600000000000 + 1 \<le> k" by simp
    then show ?thesis unfolding hourly_def by (rule mult_right_mono) simp
  qed
  moreover have "hourly u \<in> range (\<lambda>k. k * 3600000000000)" for u unfolding hourly_def by (rule rangeI)
  ultimately show ?thesis by (auto simp: next_of_def)
qed

theorem windows_open_exact_witness:
  "\<exists>g. GrantOf sample_policy ''ns/sa'' ''db'' = Some g \<and> \<not> WindowOpen g (15 * 60000000000) \<and> WindowOpen g (5 * 60000000000)"
proof -
  obtain g where g: "GrantOf sample_policy ''ns/sa'' ''db'' = Some g"
      "g_IssueWindows g = [\<lparr>w_Cron = ''0 * * * *'', w_Duration = 10 * Minute, w_sched = hourly\<rparr>]"
    by (simp add: sample_policy_def GrantOf_def compile_policy_def sample_doc_def subject_entry_def compile_subject_def
        grant_entries_def compile_grant_def set_windows_def sample_grant_def compile_window_def sample_window_def)
  let ?fires = "range (\<lambda>k. k * 3600000000000) :: time set"
  have "\<forall>w \<in> set (g_IssueWindows g). \<forall>next. (\<lambda>_. Inr hourly :: string + (time \<Rightarrow> time)) (w_Cron w) = Inr next \<longrightarrow> next_of ?fires next"
    using hourly_next by blast
  from windows_open_exact [OF sample_parse g(1) this]
  have exact: "WindowOpen g t \<longleftrightarrow> g_IssueWindows g = [] \<or>
      (\<exists>w \<in> set (g_IssueWindows g). \<exists>f \<in> ?fires. t - sint (w_Duration w) < f \<and> f \<le> t)" for t .
  have "sint (10 * Minute) = 600000000000" by (simp add: Minute_def Second_def)
  then have open_iff: "WindowOpen g t \<longleftrightarrow> (\<exists>k. t - 600000000000 < k * 3600000000000 \<and> k * 3600000000000 \<le> t)" for t
    unfolding exact g(2) by auto
  have "\<not> WindowOpen g (15 * 60000000000)"
  proof
    assume "WindowOpen g (15 * 60000000000)"
    then obtain k :: int where "300000000000 < k * 3600000000000" "k * 3600000000000 \<le> 900000000000" unfolding open_iff by auto
    then have "0 < k" "k < 1" by linarith+
    then show False by simp
  qed
  moreover have "WindowOpen g (5 * 60000000000)" unfolding open_iff by (rule exI [of _ 0]) simp
  ultimately show ?thesis using g(1) by blast
qed

end
