(* ===== verification/Policy_Store.thy ===== *)
theory Policy_Store
  imports Policy
begin

text \<open>
  Package \<open>internal/policy\<close>, file \<open>watcher.go\<close>: the store that holds the active policy and
  reloads it when the file's contents change. \<open>os.ReadFile\<close> is given as its outcome, an error
  or the contents; a call of one of the two callbacks is a value of \<open>reload_event\<close>, which the
  caller turns into a signed audit event. \<open>Watch\<close> is the sequence of ticks.
\<close>

text \<open>The code outside the broker that \<open>Parse\<close> uses.\<close>

record loader =
  ld_yaml :: "(string \<Rightarrow> string + duration) \<Rightarrow> string \<Rightarrow> string + policy_doc"
  ld_cron :: "string \<Rightarrow> string + (time \<Rightarrow> time)"
  ld_sha256 :: "string \<Rightarrow> string"

definition load :: "loader \<Rightarrow> string \<Rightarrow> policy_error + Policy" where
  "load ld raw = Parse (ld_yaml ld) (ld_cron ld) (ld_sha256 ld) raw"

record PolicyStore =
  ps_current :: Policy
  ps_path :: string
  ps_lastSum :: string
  ps_interval :: duration

datatype reload_event =
    OnReload Policy Policy
  | OnError Policy policy_error

definition NewPolicyStore :: "loader \<Rightarrow> (string \<Rightarrow> string + string) \<Rightarrow> string \<Rightarrow> duration \<Rightarrow>
    policy_error + PolicyStore" where
  "NewPolicyStore ld readFile path interval =
     (case readFile path of
        Inl e \<Rightarrow> Inl (ReadFile e)
      | Inr raw \<Rightarrow>
          (case load ld raw of
             Inl e \<Rightarrow> Inl e
           | Inr p \<Rightarrow> Inr \<lparr>ps_current = p, ps_path = path, ps_lastSum = ld_sha256 ld raw, ps_interval = interval\<rparr>))"

definition Current :: "PolicyStore \<Rightarrow> Policy" where
  "Current s = ps_current s"

definition reloadIfChanged :: "loader \<Rightarrow> (string \<Rightarrow> string + string) \<Rightarrow> PolicyStore \<Rightarrow>
    reload_event list \<times> PolicyStore" where
  "reloadIfChanged ld readFile s =
     (case readFile (ps_path s) of
        Inl e \<Rightarrow> ([OnError (Current s) (ReadFile e)], s)
      | Inr raw \<Rightarrow>
          let sum = ld_sha256 ld raw
          in if sum = ps_lastSum s then ([], s)
             else case load ld raw of
               Inl e \<Rightarrow> (let s1 = s\<lparr>ps_lastSum := sum\<rparr> in ([OnError (Current s1) e], s1))
             | Inr next \<Rightarrow>
                 ([OnReload (ps_current s) next], s\<lparr>ps_current := next, ps_lastSum := sum\<rparr>))"

text \<open>\<open>Watch\<close> through the ticks at which the file system answers as given.\<close>

fun Watch :: "loader \<Rightarrow> (string \<Rightarrow> string + string) list \<Rightarrow> PolicyStore \<Rightarrow> reload_event list \<times> PolicyStore" where
  "Watch ld [] s = ([], s)"
| "Watch ld (fs # fss) s =
     (let (e1, s1) = reloadIfChanged ld fs s; (e2, s2) = Watch ld fss s1 in (e1 @ e2, s2))"

section \<open>What the store promises\<close>

text \<open>The specification: the active policy is the one of the last contents that parse.\<close>

fun last_good :: "loader \<Rightarrow> string list \<Rightarrow> Policy \<Rightarrow> Policy" where
  "last_good ld [] p = p"
| "last_good ld (raw # raws) p = last_good ld raws (case load ld raw of Inl e \<Rightarrow> p | Inr q \<Rightarrow> q)"

text \<open>The contents the ticks read, without the failed reads.\<close>

definition contents :: "string \<Rightarrow> (string \<Rightarrow> string + string) list \<Rightarrow> string list" where
  "contents path fss = List.map_filter (\<lambda>fs. case fs path of Inl e \<Rightarrow> None | Inr raw \<Rightarrow> Some raw) fss"

text \<open>The policies installed by a sequence of events, each over the one before.\<close>

fun replay :: "reload_event list \<Rightarrow> Policy \<Rightarrow> Policy option" where
  "replay [] p = Some p"
| "replay (OnReload old next # es) p = (if old = p then replay es next else None)"
| "replay (OnError kept e # es) p = (if kept = p then replay es p else None)"

text \<open>\<open>seen\<close> is the contents last read: the stored sum is theirs, and the active policy is theirs
  when they parse.\<close>

definition tracks :: "loader \<Rightarrow> string \<Rightarrow> PolicyStore \<Rightarrow> bool" where
  "tracks ld seen s \<longleftrightarrow> ps_lastSum s = ld_sha256 ld seen \<and> (\<forall>p. load ld seen = Inr p \<longrightarrow> ps_current s = p)"

lemma reload_tracks:
  assumes "tracks ld seen s" "fs (ps_path s) = Inr raw" "ld_sha256 ld raw = ld_sha256 ld seen \<longrightarrow> raw = seen"
  shows "tracks ld raw (snd (reloadIfChanged ld fs s))"
    and "ps_current (snd (reloadIfChanged ld fs s)) = last_good ld [raw] (ps_current s)"
  using assms by (auto simp: tracks_def reloadIfChanged_def Let_def split: sum.splits)

lemma reload_path [simp]: "ps_path (snd (reloadIfChanged ld fs s)) = ps_path s"
  by (simp add: reloadIfChanged_def Let_def split: sum.splits)

lemma reload_failed_read:
  "fs (ps_path s) = Inl e \<Longrightarrow> snd (reloadIfChanged ld fs s) = s"
  by (simp add: reloadIfChanged_def)

lemma Watch_current:
  assumes "tracks ld seen s" "inj_on (ld_sha256 ld) (set (seen # contents (ps_path s) fss))"
  shows "ps_current (snd (Watch ld fss s)) = last_good ld (contents (ps_path s) fss) (ps_current s)"
  using assms
proof (induction fss arbitrary: s seen)
  case (Cons fs fss)
  let ?s = "snd (reloadIfChanged ld fs s)"
  have Watch: "snd (Watch ld (fs # fss) s) = snd (Watch ld fss ?s)" by (simp add: split_beta Let_def)
  show ?case
  proof (cases "fs (ps_path s)")
    case (Inl e)
    then have "contents (ps_path s) (fs # fss) = contents (ps_path s) fss"
      by (simp add: contents_def List.map_filter_simps)
    then show ?thesis using Cons Inl by (simp add: Watch reload_failed_read del: Watch.simps)
  next
    case (Inr raw)
    then have c: "contents (ps_path s) (fs # fss) = raw # contents (ps_path s) fss"
      by (simp add: contents_def List.map_filter_simps)
    have raw: "ld_sha256 ld raw = ld_sha256 ld seen \<longrightarrow> raw = seen"
      using Cons.prems(2) c by (auto simp: inj_on_def)
    have "inj_on (ld_sha256 ld) (set (raw # contents (ps_path s) fss))"
      using Cons.prems(2) c by (auto intro: inj_on_subset)
    then have "ps_current (snd (Watch ld fss ?s)) = last_good ld (contents (ps_path s) fss) (ps_current ?s)"
      using Cons.IH [OF reload_tracks(1) [where fs = fs, OF Cons.prems(1) Inr raw]] by simp
    then show ?thesis using reload_tracks(2) [where fs = fs, OF Cons.prems(1) Inr raw] c by (simp add: Watch del: Watch.simps)
  qed
qed (simp add: contents_def List.map_filter_simps)

lemma replay_append: "replay (es @ fs) p = Option.bind (replay es p) (replay fs)"
  by (induction es p rule: replay.induct) auto

lemma reload_replay:
  "replay (fst (reloadIfChanged ld fs s)) (ps_current s) = Some (ps_current (snd (reloadIfChanged ld fs s)))"
  by (simp add: reloadIfChanged_def Let_def Current_def split: sum.splits)

text \<open>The store as a cell that keeps the last good policy.\<close>

definition policy_offered :: "loader \<Rightarrow> (string \<Rightarrow> string + string) \<Rightarrow> PolicyStore \<Rightarrow> Policy option" where
  "policy_offered ld fs s =
     (case fs (ps_path s) of
        Inl e \<Rightarrow> None
      | Inr raw \<Rightarrow> if ld_sha256 ld raw = ps_lastSum s then None
                   else (case load ld raw of Inl e \<Rightarrow> None | Inr p \<Rightarrow> Some p))"

interpretation cell: last_good_cell "\<lambda>fs s. snd (reloadIfChanged ld fs s)" ps_current "policy_offered ld" for ld
  by standard (auto simp: policy_offered_def reloadIfChanged_def Let_def split: sum.splits if_splits)

lemma Watch_fold: "snd (Watch ld fss s) = fold (\<lambda>fs s. snd (reloadIfChanged ld fs s)) fss s"
  by (induction fss arbitrary: s) (simp_all add: split_beta Let_def)

lemma policy_offered_ok: "policy_offered ld fs s = Some p \<Longrightarrow> policy_ok p"
  by (auto simp: policy_offered_def load_def dest: Parse_ok split: sum.splits if_splits)

lemma Watch_ok: "policy_ok (ps_current s) \<Longrightarrow> policy_ok (ps_current (snd (Watch ld fss s)))"
  unfolding Watch_fold by (erule cell.run_invariant [of policy_ok]) (rule policy_offered_ok)

section \<open>Properties\<close>

text \<open>C18: the store always serves the last valid policy. After any sequence of ticks, with failed
  reads and invalid contents among them, the active policy is the one of the last contents read
  that parse (\<open>NewStore\<close>'s own if none did), provided no two of the contents read collide under
  SHA-256.\<close>

theorem Watch_serves_last_good:
  assumes "NewPolicyStore ld fs0 path interval = Inr s" "fs0 path = Inr raw0"
    and "inj_on (ld_sha256 ld) (set (raw0 # contents path fss))"
  shows "Current (snd (Watch ld fss s)) = last_good ld (contents path fss) (Current s) \<and>
    load ld raw0 = Inr (Current s)"
proof -
  have s: "tracks ld raw0 s" "ps_path s = path" "load ld raw0 = Inr (ps_current s)"
    using assms(1,2) by (auto simp: NewPolicyStore_def tracks_def split: sum.splits)
  then show ?thesis using Watch_current [OF s(1), of fss] assms(3) by (simp add: Current_def)
qed

text \<open>No silent change of policy. The callbacks of any sequence of ticks form one chain: every
  reload event names the policy it replaces, every error event the policy it keeps, and
  replaying them from the initial policy gives the active one, which meets the invariant of a
  parsed policy.\<close>

theorem Watch_no_silent_change:
  assumes "NewPolicyStore ld fs0 path interval = Inr s"
  shows "replay (fst (Watch ld fss s)) (Current s) = Some (Current (snd (Watch ld fss s))) \<and>
    policy_ok (Current (snd (Watch ld fss s)))"
proof -
  have "replay (fst (Watch ld fss s)) (ps_current s) = Some (ps_current (snd (Watch ld fss s)))" for s
  proof (induction fss arbitrary: s)
    case (Cons fs fss)
    then show ?case using reload_replay [of ld fs s] by (simp add: split_beta Let_def replay_append)
  qed simp
  moreover have "policy_ok (ps_current s)"
    using assms by (auto simp: NewPolicyStore_def load_def split: sum.splits dest: Parse_ok)
  ultimately show ?thesis using Watch_ok by (simp add: Current_def)
qed

text \<open>A loader for which the contents \<open>raw\<close> hold the sample document and all others do not parse,
  and a run over a failed read, broken contents seen twice and a restored file.\<close>

definition sample_loader :: loader where
  "sample_loader = \<lparr>ld_yaml = (\<lambda>um raw. if raw = ''raw'' then Inr sample_doc else Inl ''yaml''),
     ld_cron = (\<lambda>_. Inr hourly), ld_sha256 = (\<lambda>raw. raw)\<rparr>"

definition sample_store :: PolicyStore where
  "sample_store = \<lparr>ps_current = compile_policy (\<lambda>_. Inr hourly) (\<lambda>raw. raw) ''raw'' sample_doc,
     ps_path = ''policy.yaml'', ps_lastSum = ''raw'', ps_interval = Minute\<rparr>"

definition sample_ticks :: "(string \<Rightarrow> string + string) list" where
  "sample_ticks = [\<lambda>_. Inl ''io'', \<lambda>_. Inr ''broken'', \<lambda>_. Inr ''broken'', \<lambda>_. Inr ''raw'']"

lemma sample_load:
  "load sample_loader ''raw'' = Inr (ps_current sample_store)" "load sample_loader ''broken'' = Inl (ParseYaml ''yaml'')"
proof -
  show "load sample_loader ''raw'' = Inr (ps_current sample_store)"
    using sample_doc_valid unfolding load_def Parse_Inr by (simp add: sample_loader_def sample_store_def)
  show "load sample_loader ''broken'' = Inl (ParseYaml ''yaml'')"
    by (simp add: load_def Parse_def sample_loader_def)
qed

lemma sample_store_new:
  "NewPolicyStore sample_loader (\<lambda>_. Inr ''raw'') ''policy.yaml'' Minute = Inr sample_store"
  using sample_load by (simp add: NewPolicyStore_def sample_store_def sample_loader_def)

theorem Watch_serves_last_good_witness:
  "Current (snd (Watch sample_loader sample_ticks sample_store)) = Current sample_store"
  using Watch_serves_last_good [OF sample_store_new, of "''raw''" sample_ticks] sample_load
  by (simp add: sample_loader_def sample_ticks_def contents_def List.map_filter_simps Current_def)

theorem Watch_no_silent_change_witness:
  "replay (fst (Watch sample_loader sample_ticks sample_store)) (Current sample_store) \<noteq> None"
  using Watch_no_silent_change [OF sample_store_new, of sample_ticks] by simp

end
