(* ===== verification/Go_Encoding.thy ===== *)
theory Go_Encoding
  imports Go_Time "HOL-Library.List_Lexorder" "HOL-Library.Char_ord"
begin

text \<open>
  \<open>json.Marshal\<close> and \<open>base64\<close>. A JSON value is rendered to the bytes Go writes: strings with the
  HTML-safe escapes, invalid UTF-8 replaced by \<open>\ufffd\<close>, map keys sorted, no white space.
  \<open>render_clean\<close> is what the audit stream rests on: no control byte, hence no newline, can
  appear in a rendered value, whatever strings a caller put into it.
\<close>

datatype json =
    JNull
  | JBool bool
  | JInt int
  | JStr string
  | JArr "json list"
  | JObj "(string \<times> json) list"

abbreviation byte :: "char \<Rightarrow> nat" where
  "byte c \<equiv> of_char c"

definition in_range :: "nat \<Rightarrow> nat \<Rightarrow> char \<Rightarrow> bool" where
  "in_range lo hi c = (lo \<le> byte c \<and> byte c \<le> hi)"

text \<open>The second-byte range and the length that \<open>utf8.DecodeRune\<close> expects after a first byte.\<close>

definition utf8_first :: "char \<Rightarrow> (nat \<times> nat \<times> nat) option" where
  "utf8_first c =
     (if in_range 194 223 c then Some (2, 128, 191)
      else if byte c = 224 then Some (3, 160, 191)
      else if byte c = 237 then Some (3, 128, 159)
      else if in_range 225 239 c then Some (3, 128, 191)
      else if byte c = 240 then Some (4, 144, 191)
      else if in_range 241 243 c then Some (4, 128, 191)
      else if byte c = 244 then Some (4, 128, 143)
      else None)"

text \<open>The size of the rune a text begins with, 0 when its first byte begins none.\<close>

definition rune_size :: "string \<Rightarrow> nat" where
  "rune_size s =
     (case s of
        [] \<Rightarrow> 0
      | c # r \<Rightarrow>
          if byte c < 128 then 1
          else case utf8_first c of
            None \<Rightarrow> 0
          | Some (n, lo, hi) \<Rightarrow>
              if length r \<ge> n - 1 \<and> in_range lo hi (r ! 0) \<and> list_all (in_range 128 191) (drop 1 (take (n - 1) r))
              then n else 0)"

definition htmlSafe :: "char \<Rightarrow> bool" where
  "htmlSafe c = (32 \<le> byte c \<and> byte c < 128 \<and> c \<notin> {CHR 0x22, CHR ''&'', CHR ''<'', CHR ''>'', CHR 0x5C})"

definition escape_byte :: "char \<Rightarrow> string" where
  "escape_byte c =
     (if c = CHR 0x22 \<or> c = CHR 0x5C then [CHR 0x5C, c]
      else if byte c = 8 then [CHR 0x5C, CHR ''b'']
      else if byte c = 12 then [CHR 0x5C, CHR ''f'']
      else if byte c = 10 then [CHR 0x5C, CHR ''n'']
      else if byte c = 13 then [CHR 0x5C, CHR ''r'']
      else if byte c = 9 then [CHR 0x5C, CHR ''t'']
      else [CHR 0x5C] @ ''u00'' @ [hex_digit (byte c div 16), hex_digit (byte c mod 16)])"

definition line_separators :: "string list" where
  "line_separators = [[char_of (226 :: nat), char_of (128 :: nat), char_of (168 :: nat)],
     [char_of (226 :: nat), char_of (128 :: nat), char_of (169 :: nat)]]"

text \<open>The escaped form of the first rune of a text, and its size.\<close>

definition escape_rune :: "string \<Rightarrow> string" where
  "escape_rune s =
     (let c = hd s; n = rune_size s
      in if byte c < 128 then (if htmlSafe c then [c] else escape_byte c)
         else if n = 0 then [CHR 0x5C] @ ''ufffd''
         else if List.member line_separators (take n s) then [CHR 0x5C] @ ''u202'' @ [hex_digit (byte (s ! 2) mod 16)]
         else take n s)"

function escape :: "string \<Rightarrow> string" where
  "escape s = (if s = [] then [] else escape_rune s @ escape (drop (max 1 (rune_size s)) s))"
  by pat_completeness auto
termination
  by (relation "measure length") auto

declare escape.simps [simp del]

definition quote :: "string \<Rightarrow> string" where
  "quote s = [CHR 0x22] @ escape s @ [CHR 0x22]"

definition int_string :: "int \<Rightarrow> string" where
  "int_string i = (if i < 0 then CHR ''-'' # itoa (nat (- i)) else itoa (nat i))"

fun join :: "string \<Rightarrow> string list \<Rightarrow> string" where
  "join sep [] = []"
| "join sep [x] = x"
| "join sep (x # y # ys) = x @ sep @ join sep (y # ys)"

fun render :: "json \<Rightarrow> string" where
  "render JNull = ''null''"
| "render (JBool b) = (if b then ''true'' else ''false'')"
| "render (JInt i) = int_string i"
| "render (JStr s) = quote s"
| "render (JArr vs) = ''['' @ join '','' (map render vs) @ '']''"
| "render (JObj kvs) = ''{'' @ join '','' (map (\<lambda>(k, v). quote k @ '':'' @ render v) kvs) @ ''}''"

text \<open>A Go map as an object: sorted keys; the nil map is \<open>null\<close>.\<close>

definition JMap :: "(string \<times> json) list \<Rightarrow> json" where
  "JMap m = JObj (sort_key fst m)"

definition JStrMap :: "string gomap option \<Rightarrow> json" where
  "JStrMap m = (case m of None \<Rightarrow> JNull | Some kvs \<Rightarrow> JMap (map (\<lambda>(k, v). (k, JStr v)) kvs))"

text \<open>A struct field with \<open>omitempty\<close>.\<close>

definition omitempty_str :: "string \<Rightarrow> string \<Rightarrow> (string \<times> json) list" where
  "omitempty_str k s = (if s = [] then [] else [(k, JStr s)])"

section \<open>No control bytes\<close>

definition clean :: "string \<Rightarrow> bool" where
  "clean s \<longleftrightarrow> (\<forall>c \<in> set s. 32 \<le> byte c)"

lemma clean_simps [simp]:
  "clean []" "clean (c # s) \<longleftrightarrow> 32 \<le> byte c \<and> clean s" "clean (s @ t) \<longleftrightarrow> clean s \<and> clean t"
  by (auto simp: clean_def)

lemma clean_hex_digit: "n < 16 \<Longrightarrow> 32 \<le> byte (hex_digit n)"
  by (auto simp: hex_digit_def of_char_of)

lemma byte_div_16: "byte c div 16 < 16"
  using nat_of_char_less_256 [of c] by linarith

lemma clean_escape_byte: "clean (escape_byte c)"
  by (auto simp: escape_byte_def clean_hex_digit byte_div_16)

lemma rune_size_clean:
  assumes "128 \<le> byte (hd s)" "s \<noteq> []"
  shows "clean (take (rune_size s) s)"
proof (cases s)
  case (Cons c r)
  show ?thesis
  proof (cases "rune_size s = 0")
    case False
    then obtain n lo hi where n: "utf8_first c = Some (n, lo, hi)" "rune_size s = n"
        "n - 1 \<le> length r" "in_range lo hi (r ! 0)" "list_all (in_range 128 191) (drop 1 (take (n - 1) r))"
      using assms Cons by (auto simp: rune_size_def split: option.splits if_splits)
    have lo: "32 \<le> lo" "2 \<le> n" using n(1) by (auto simp: utf8_first_def split: if_splits)
    have "take n s = c # take (n - 1) r" using Cons lo(2) by (cases n) auto
    moreover have "take (n - 1) r = r ! 0 # drop 1 (take (n - 1) r)"
    proof -
      have "r \<noteq> []" using n(3) lo(2) by (cases r) auto
      then show ?thesis using lo(2) by (cases r; cases "n - 1") auto
    qed
    moreover have "clean (drop 1 (take (n - 1) r))"
      using n(5) by (auto simp: clean_def list_all_iff in_range_def)
    ultimately have "take n s = c # r ! 0 # drop 1 (take (n - 1) r)" by simp
    then show ?thesis
      using n(2,4) lo(1) assms(1) Cons \<open>clean (drop 1 (take (n - 1) r))\<close> by (simp add: in_range_def)
  qed simp
qed (use assms in simp)

lemma clean_escape_rune: "s \<noteq> [] \<Longrightarrow> clean (escape_rune s)"
  using rune_size_clean [of s]
  by (auto simp: escape_rune_def Let_def htmlSafe_def clean_escape_byte clean_hex_digit)

lemma clean_escape [simp]: "clean (escape s)"
  by (induction s rule: escape.induct) (subst escape.simps, simp add: clean_escape_rune)

lemma clean_itoa [simp]: "clean (itoa n)"
proof (induction n rule: itoa.induct)
  case (1 n)
  then show ?case by (subst itoa.simps) (simp add: of_char_of)
qed

lemma clean_join: "clean sep \<Longrightarrow> \<forall>x \<in> set xs. clean x \<Longrightarrow> clean (join sep xs)"
  by (induction sep xs rule: join.induct) auto

lemma clean_quote [simp]: "clean (quote s)"
  by (simp add: quote_def)

theorem render_clean: "clean (render j)"
proof (induction j)
  case (JInt i)
  then show ?case by (simp add: int_string_def)
next
  case (JObj kvs)
  have "\<forall>x \<in> set (map (\<lambda>(k, v). quote k @ '':'' @ render v) kvs). clean x"
    using JObj by auto
  then show ?case by (simp add: clean_join)
qed (auto simp: clean_join)

lemma clean_no_newline: "clean s \<Longrightarrow> CHR 0x0A \<notin> set s"
  by (auto simp: clean_def)

section \<open>Base64\<close>

definition b64_alphabet :: "string \<Rightarrow> nat \<Rightarrow> char" where
  "b64_alphabet extra n =
     (if n < 26 then char_of (65 + n) else if n < 52 then char_of (71 + n)
      else if n < 62 then char_of (n - 4) else extra ! (n - 62))"

fun b64_groups :: "(nat \<Rightarrow> char) \<Rightarrow> string \<Rightarrow> string \<Rightarrow> string" where
  "b64_groups al pad [] = []"
| "b64_groups al pad [a] = [al (byte a div 4), al (byte a mod 4 * 16)] @ pad @ pad"
| "b64_groups al pad [a, b] =
     [al (byte a div 4), al (byte a mod 4 * 16 + byte b div 16), al (byte b mod 16 * 4)] @ pad"
| "b64_groups al pad (a # b # c # s) =
     [al (byte a div 4), al (byte a mod 4 * 16 + byte b div 16),
      al (byte b mod 16 * 4 + byte c div 64), al (byte c mod 64)] @ b64_groups al pad s"

definition b64_std :: "string \<Rightarrow> string" where
  "b64_std s = b64_groups (b64_alphabet ''+/'') ''='' s"

definition b64_rawurl :: "string \<Rightarrow> string" where
  "b64_rawurl s = b64_groups (b64_alphabet ''-_'') [] s"

lemma b64_std_nonempty: "s \<noteq> [] \<Longrightarrow> b64_std s \<noteq> []"
  by (auto simp: b64_std_def elim: b64_groups.elims)

end
