(* ===== verification/Audit_Log.thy ===== *)
theory Audit_Log
  imports Go_Encoding
begin

text \<open>
  Package \<open>internal/audit\<close>: the signed event stream. Parameters stand for the cryptography and
  for the third-party canonicalizer (\<open>crypto\<close>). The writer is the bytes written to it so far;
  a write is given its outcome, success or failure after some of the bytes. \<open>json.Marshal\<close>
  cannot fail on an event, whose maps hold strings, numbers, booleans and lists of them only.
\<close>

record crypto =
  cr_public :: "string \<Rightarrow> string"
  cr_sign :: "string \<Rightarrow> string \<Rightarrow> string"
  cr_sha256 :: "string \<Rightarrow> string"
  cr_jcs :: "string \<Rightarrow> string + string"

section \<open>Data\<close>

record Subject =
  sub_Namespace :: string
  sub_ServiceAccount :: string
  sub_Pod :: string
  sub_PodUID :: string

definition Key :: "Subject \<Rightarrow> string" where
  "Key s = sub_Namespace s @ ''/'' @ sub_ServiceAccount s"

record Source =
  src_IP :: string
  src_UserAgent :: string

record BrokerInfo =
  bi_Instance :: string
  bi_KID :: string
  bi_Seq :: "64 word"

record Event =
  ev_V :: int
  ev_Kind :: string
  ev_Type :: string
  ev_TS :: string
  ev_RequestID :: string
  ev_Broker :: BrokerInfo
  ev_Subject :: "Subject option"
  ev_Source :: "Source option"
  ev_Attested :: "(string \<times> json) list"
  ev_Asserted :: "string gomap"
  ev_Sig :: string

definition zero_event :: Event where
  "zero_event = \<lparr>ev_V = 0, ev_Kind = [], ev_Type = [], ev_TS = [], ev_RequestID = [],
     ev_Broker = \<lparr>bi_Instance = [], bi_KID = [], bi_Seq = 0\<rparr>, ev_Subject = None, ev_Source = None,
     ev_Attested = [], ev_Asserted = [], ev_Sig = []\<rparr>"

definition subject_json :: "Subject \<Rightarrow> json" where
  "subject_json s =
     JObj ([(''namespace'', JStr (sub_Namespace s)), (''serviceaccount'', JStr (sub_ServiceAccount s))] @
       omitempty_str ''pod'' (sub_Pod s) @ omitempty_str ''pod_uid'' (sub_PodUID s))"

definition source_json :: "Source \<Rightarrow> json" where
  "source_json s = JObj (omitempty_str ''ip'' (src_IP s) @ omitempty_str ''user_agent'' (src_UserAgent s))"

definition broker_json :: "BrokerInfo \<Rightarrow> json" where
  "broker_json b = JObj [(''instance'', JStr (bi_Instance b)), (''kid'', JStr (bi_KID b)), (''seq'', JInt (uint (bi_Seq b)))]"

definition event_json :: "Event \<Rightarrow> json" where
  "event_json ev =
     JObj ([(''v'', JInt (ev_V ev)), (''kind'', JStr (ev_Kind ev)), (''type'', JStr (ev_Type ev)), (''ts'', JStr (ev_TS ev))] @
       omitempty_str ''request_id'' (ev_RequestID ev) @
       [(''broker'', broker_json (ev_Broker ev))] @
       (case ev_Subject ev of None \<Rightarrow> [] | Some s \<Rightarrow> [(''subject'', subject_json s)]) @
       (case ev_Source ev of None \<Rightarrow> [] | Some s \<Rightarrow> [(''source'', source_json s)]) @
       (if ev_Attested ev = [] then [] else [(''attested'', JMap (ev_Attested ev))]) @
       (if ev_Asserted ev = [] then [] else [(''asserted'', JStrMap (Some (ev_Asserted ev)))]) @
       omitempty_str ''sig'' (ev_Sig ev))"

section \<open>Signer and emitter\<close>

record Signer =
  sg_priv :: string
  sg_pub :: string
  sg_kid :: string

definition NewSigner :: "crypto \<Rightarrow> string \<Rightarrow> Signer" where
  "NewSigner cr priv =
     (let pub = cr_public cr priv
      in \<lparr>sg_priv = priv, sg_pub = pub, sg_kid = ''k'' @ hex_encode (take 4 (cr_sha256 cr pub))\<rparr>)"

text \<open>The key PEM after \<open>pem.Decode\<close> (\<open>None\<close>: no block) and \<open>x509.ParsePKCS8PrivateKey\<close> (an
  error, a key of another kind, or an Ed25519 key).\<close>

datatype pkcs8 = PKCS8_error string | PKCS8_other | PKCS8_ed25519 string

datatype signer_error = NoPEMBlock | ParseKeyError string | NotEd25519

definition ParseSignerPEM :: "crypto \<Rightarrow> (string \<Rightarrow> string option) \<Rightarrow> (string \<Rightarrow> pkcs8) \<Rightarrow> string \<Rightarrow>
    signer_error + Signer" where
  "ParseSignerPEM cr pem_decode parse_pkcs8 pemBytes =
     (case pem_decode pemBytes of
        None \<Rightarrow> Inl NoPEMBlock
      | Some block \<Rightarrow>
          (case parse_pkcs8 block of
             PKCS8_error e \<Rightarrow> Inl (ParseKeyError e)
           | PKCS8_other \<Rightarrow> Inl NotEd25519
           | PKCS8_ed25519 priv \<Rightarrow> Inr (NewSigner cr priv)))"

definition PublicBase64 :: "Signer \<Rightarrow> string" where
  "PublicBase64 s = b64_std (sg_pub s)"

text \<open>\<open>em_out\<close> is what the writer has received; \<open>em_counts\<close> tells whether the metrics hook is set.\<close>

record Emitter =
  em_out :: string
  em_signer :: Signer
  em_instance :: string
  em_seq :: "64 word"
  em_counts :: bool

definition NewEmitter :: "Signer \<Rightarrow> string \<Rightarrow> Emitter" where
  "NewEmitter signer inst = \<lparr>em_out = [], em_signer = signer, em_instance = inst, em_seq = 0, em_counts = False\<rparr>"

definition SetCounter :: "Emitter \<Rightarrow> Emitter" where
  "SetCounter em = em\<lparr>em_counts := True\<rparr>"

datatype audit_error = Canonicalize string | WriteFailed

text \<open>The outcome of a write: all the bytes, or an error after some of them.\<close>

datatype write_outcome = Written | Failed nat

definition fill_envelope :: "time \<Rightarrow> Event \<Rightarrow> Emitter \<Rightarrow> Event" where
  "fill_envelope now ev em =
     ev\<lparr>ev_V := 1, ev_Kind := ''act-claim'', ev_TS := format_rfc3339 now,
        ev_Broker := \<lparr>bi_Instance = em_instance em, bi_KID = sg_kid (em_signer em), bi_Seq = em_seq em + 1\<rparr>,
        ev_Sig := []\<rparr>"

definition marshal :: "Event \<Rightarrow> string" where
  "marshal ev = render (event_json ev)"

text \<open>\<open>Emit\<close>: the error, if any; the calls of the metrics hook; the emitter after it.\<close>

definition Emit :: "crypto \<Rightarrow> time \<Rightarrow> write_outcome \<Rightarrow> Event \<Rightarrow> Emitter \<Rightarrow>
    audit_error option \<times> string list \<times> Emitter" where
  "Emit cr now outcome ev em =
     (let ev1 = fill_envelope now ev em
      in case cr_jcs cr (marshal ev1) of
           Inl e \<Rightarrow> (Some (Canonicalize e), [], em)
         | Inr canonical \<Rightarrow>
             let ev2 = ev1\<lparr>ev_Sig := b64_std (cr_sign cr (sg_priv (em_signer em)) canonical)\<rparr>;
                 line = marshal ev2 @ [CHR 0x0A]
             in case outcome of
                  Failed n \<Rightarrow> (Some WriteFailed, [], em\<lparr>em_out := em_out em @ take n line\<rparr>)
                | Written \<Rightarrow>
                    (None, if em_counts em then [ev_Type ev2] else [],
                     em\<lparr>em_out := em_out em @ line, em_seq := em_seq em + 1\<rparr>))"

section \<open>The stream\<close>

text \<open>The event a successful \<open>Emit\<close> writes.\<close>

definition signed_event :: "crypto \<Rightarrow> time \<Rightarrow> Event \<Rightarrow> Emitter \<Rightarrow> Event" where
  "signed_event cr now ev em =
     (let ev1 = fill_envelope now ev em
      in ev1\<lparr>ev_Sig := b64_std (cr_sign cr (sg_priv (em_signer em)) (projr (cr_jcs cr (marshal ev1))))\<rparr>)"

definition event_line :: "Event \<Rightarrow> string" where
  "event_line ev = marshal ev @ [CHR 0x0A]"

text \<open>The signature of an event is over the canonical form of the event without it.\<close>

definition signed_by :: "crypto \<Rightarrow> Signer \<Rightarrow> Event \<Rightarrow> bool" where
  "signed_by cr sg ev \<longleftrightarrow>
     (\<exists>canonical. cr_jcs cr (marshal (ev\<lparr>ev_Sig := []\<rparr>)) = Inr canonical \<and>
        ev_Sig ev = b64_std (cr_sign cr (sg_priv sg) canonical)) \<and> bi_KID (ev_Broker ev) = sg_kid sg"

lemma signed_event_signed:
  assumes "\<not> isl (cr_jcs cr (marshal (fill_envelope now ev em)))"
  shows "signed_by cr (em_signer em) (signed_event cr now ev em)"
proof -
  have "signed_event cr now ev em\<lparr>ev_Sig := []\<rparr> = fill_envelope now ev em"
    by (simp add: signed_event_def fill_envelope_def Let_def)
  then show ?thesis
    using assms by (cases "cr_jcs cr (marshal (fill_envelope now ev em))")
      (auto simp: signed_by_def signed_event_def fill_envelope_def Let_def)
qed

text \<open>What \<open>Emit\<close> keeps of the event it is given.\<close>

lemma signed_event_simps [simp]:
  "ev_Type (signed_event cr now ev em) = ev_Type ev" "ev_Subject (signed_event cr now ev em) = ev_Subject ev"
  "ev_RequestID (signed_event cr now ev em) = ev_RequestID ev" "ev_Source (signed_event cr now ev em) = ev_Source ev"
  "ev_Attested (signed_event cr now ev em) = ev_Attested ev" "ev_Asserted (signed_event cr now ev em) = ev_Asserted ev"
  by (simp_all add: signed_event_def fill_envelope_def Let_def)

lemma Emit_cases:
  obtains (ok) "fst (Emit cr now oc ev em) = None" "oc = Written" "\<not> isl (cr_jcs cr (marshal (fill_envelope now ev em)))"
      "snd (snd (Emit cr now oc ev em)) =
        em\<lparr>em_out := em_out em @ event_line (signed_event cr now ev em), em_seq := em_seq em + 1\<rparr>"
      "fst (snd (Emit cr now oc ev em)) = (if em_counts em then [ev_Type ev] else [])"
  | (failed) n where "fst (Emit cr now oc ev em) \<noteq> None" "oc = Written \<Longrightarrow> n = 0" "oc = Failed m \<Longrightarrow> n \<le> m"
      "snd (snd (Emit cr now oc ev em)) = em\<lparr>em_out := em_out em @ take n (event_line (signed_event cr now ev em))\<rparr>"
      "fst (snd (Emit cr now oc ev em)) = []"
proof (cases "cr_jcs cr (marshal (fill_envelope now ev em))")
  case (Inl e)
  then show ?thesis using failed [of 0] by (simp add: Emit_def Let_def)
next
  case (Inr canonical)
  show ?thesis
  proof (cases oc)
    case Written
    then show ?thesis
      using ok Inr by (simp add: Emit_def Let_def signed_event_def event_line_def fill_envelope_def)
  next
    case (Failed k)
    then show ?thesis using failed [of k] Inr
      by (auto simp: Emit_def Let_def signed_event_def event_line_def)
  qed
qed

text \<open>A run of a log: each operation commits one record or none.\<close>

fun log_run :: "('i \<Rightarrow> 's \<Rightarrow> bool \<times> 's) \<Rightarrow> ('i \<Rightarrow> 's \<Rightarrow> 'r) \<Rightarrow> 'i list \<Rightarrow> 's \<Rightarrow> 'r list \<times> 's" where
  "log_run emit rec [] s = ([], s)"
| "log_run emit rec (i # is) s =
     (let (committed, s1) = emit i s; (rs, s2) = log_run emit rec is s1
      in ((if committed then [rec i s] else []) @ rs, s2))"

text \<open>The interface of a sequenced log, which the request handlers and the verifier rest on: an
  operation that reports success has committed its record under the next number, any other
  leaves the number as it was.\<close>

locale event_log =
  fixes emit :: "'i \<Rightarrow> 's \<Rightarrow> bool \<times> 's"
    and rec :: "'i \<Rightarrow> 's \<Rightarrow> 'r"
    and seq :: "'s \<Rightarrow> 64 word"
    and seq_of :: "'r \<Rightarrow> 64 word"
  assumes commit: "fst (emit i s) \<Longrightarrow> seq (snd (emit i s)) = seq s + 1 \<and> seq_of (rec i s) = seq s + 1"
    and abort: "\<not> fst (emit i s) \<Longrightarrow> seq (snd (emit i s)) = seq s"
begin

lemma gapless:
  "map seq_of (fst (log_run emit rec is s)) =
     map (\<lambda>i. seq s + of_nat i) [1..<Suc (length (fst (log_run emit rec is s)))] \<and>
   seq (snd (log_run emit rec is s)) = seq s + of_nat (length (fst (log_run emit rec is s)))"
proof (induction "is" arbitrary: s)
  case (Cons i "is")
  let ?s = "snd (emit i s)" and ?n = "length (fst (log_run emit rec is (snd (emit i s))))"
  show ?case
  proof (cases "fst (emit i s)")
    case True
    have "[1..<Suc (Suc n)] = 1 # map Suc [1..<Suc n]" for n
      by (simp add: upt_conv_Cons map_Suc_upt del: upt_Suc)
    then show ?thesis using Cons [of ?s] commit [OF True] True
      by (simp add: split_beta Let_def comp_def algebra_simps del: upt_Suc)
  next
    case False
    then show ?thesis using Cons [of ?s] abort [OF False] by (simp add: split_beta Let_def)
  qed
qed simp

end

text \<open>An emission: its clock reading, the outcome of its write, and the event.\<close>

type_synonym emission = "time \<times> write_outcome \<times> Event"

definition emit_commit :: "crypto \<Rightarrow> emission \<Rightarrow> Emitter \<Rightarrow> bool \<times> Emitter" where
  "emit_commit cr em_in em =
     (case em_in of (now, oc, ev) \<Rightarrow> (case Emit cr now oc ev em of (r, hooks, em1) \<Rightarrow> (r = None, em1)))"

definition emit_record :: "crypto \<Rightarrow> emission \<Rightarrow> Emitter \<Rightarrow> Event" where
  "emit_record cr em_in em = (case em_in of (now, oc, ev) \<Rightarrow> signed_event cr now ev em)"

abbreviation emit_run :: "crypto \<Rightarrow> emission list \<Rightarrow> Emitter \<Rightarrow> Event list \<times> Emitter" where
  "emit_run cr \<equiv> log_run (emit_commit cr) (emit_record cr)"

lemma emit_commit_eq:
  "emit_commit cr (now, oc, ev) em = (fst (Emit cr now oc ev em) = None, snd (snd (Emit cr now oc ev em)))"
  by (simp add: emit_commit_def split_beta)

lemma emit_commit_cases:
  obtains (ok) "fst (emit_commit cr (now, oc, ev) em)"
      "snd (emit_commit cr (now, oc, ev) em) =
        em\<lparr>em_out := em_out em @ event_line (signed_event cr now ev em), em_seq := em_seq em + 1\<rparr>"
  | (failed) n where "\<not> fst (emit_commit cr (now, oc, ev) em)" "oc \<in> {Written, Failed 0} \<Longrightarrow> n = 0"
      "snd (emit_commit cr (now, oc, ev) em) =
        em\<lparr>em_out := em_out em @ take n (event_line (signed_event cr now ev em))\<rparr>"
  by (cases rule: Emit_cases [where cr = cr and now = now and oc = oc and ev = ev and em = em and m = 0])
    (use ok failed in \<open>auto simp: emit_commit_eq\<close>)

lemma signed_event_Seq [simp]: "bi_Seq (ev_Broker (signed_event cr now ev em)) = em_seq em + 1"
  by (simp add: signed_event_def fill_envelope_def Let_def)

interpretation stream: event_log "emit_commit cr" "emit_record cr" em_seq "\<lambda>ev. bi_Seq (ev_Broker ev)" for cr
proof (standard, goal_cases)
  case (1 i s)
  then show ?case
    by (cases i; cases rule: emit_commit_cases [of cr "fst i" "fst (snd i)" "snd (snd i)" s])
      (auto simp: emit_record_def)
next
  case (2 i s)
  then show ?case
    by (cases i; cases rule: emit_commit_cases [of cr "fst i" "fst (snd i)" "snd (snd i)" s]) auto
qed

lemma marshal_clean: "clean (marshal ev)"
  by (simp add: marshal_def render_clean)

lemma Split_event_lines:
  "Split (concat (map event_line evs)) (CHR 0x0A) = map marshal evs @ [[]]"
  by (induction evs)
    (simp_all add: event_line_def Split_append_sep clean_no_newline [OF marshal_clean])

lemma emit_run_out:
  "\<forall>(now, oc, ev) \<in> set is. oc \<in> {Written, Failed 0} \<Longrightarrow>
   em_out (snd (emit_run cr is em)) = em_out em @ concat (map event_line (fst (emit_run cr is em)))"
proof (induction "is" arbitrary: em)
  case (Cons i "is")
  obtain now oc ev where i: "i = (now, oc, ev)" by (cases i)
  show ?case
    using Cons i
    by (cases rule: emit_commit_cases [of cr now oc ev em]) (auto simp: split_beta Let_def emit_record_def)
qed simp

text \<open>Torn writes: a write that fails has not reached the end of the line.\<close>

fun short_failures :: "crypto \<Rightarrow> emission list \<Rightarrow> Emitter \<Rightarrow> bool" where
  "short_failures cr [] em = True"
| "short_failures cr ((now, oc, ev) # is) em =
     ((case oc of Written \<Rightarrow> True | Failed n \<Rightarrow> n \<le> length (marshal (signed_event cr now ev em))) \<and>
      short_failures cr is (snd (emit_commit cr (now, oc, ev) em)))"

lemma torn_line:
  assumes "short_failures cr ((now, oc, ev) # is) em" "\<not> fst (emit_commit cr (now, oc, ev) em)"
  obtains p where "CHR 0x0A \<notin> set p" "snd (emit_commit cr (now, oc, ev) em) = em\<lparr>em_out := em_out em @ p\<rparr>"
    "oc \<in> {Written, Failed 0} \<Longrightarrow> p = []"
proof (cases rule: Emit_cases [where cr = cr and now = now and oc = oc and ev = ev and em = em and m = "case oc of Failed n \<Rightarrow> n | Written \<Rightarrow> 0"])
  case ok
  then show ?thesis using assms(2) by (simp add: emit_commit_eq)
next
  case (failed n)
  have "n \<le> length (marshal (signed_event cr now ev em))" using failed(2,3) assms(1) by (cases oc) auto
  then have "take n (event_line (signed_event cr now ev em)) = take n (marshal (signed_event cr now ev em))"
    by (simp add: event_line_def)
  moreover have "CHR 0x0A \<notin> set (take n (marshal (signed_event cr now ev em)))"
    using clean_no_newline [OF marshal_clean] by (auto dest: in_set_takeD)
  moreover have "oc \<in> {Written, Failed 0} \<Longrightarrow> n = 0" using failed(2,3) by auto
  ultimately show ?thesis using that failed(4) by (simp add: emit_commit_eq)
qed

lemma emit_run_torn:
  assumes "short_failures cr is em"
  shows "\<exists>fs f. length fs = length (fst (emit_run cr is em)) \<and> CHR 0x0A \<notin> set (concat fs @ f) \<and>
     em_out (snd (emit_run cr is em)) = em_out em @ concat (map2 (\<lambda>x ev. x @ event_line ev) fs (fst (emit_run cr is em))) @ f \<and>
     ((\<forall>(now, oc, ev) \<in> set is. oc \<in> {Written, Failed 0}) \<longrightarrow> concat fs @ f = [])"
  using assms
proof (induction "is" arbitrary: em)
  case (Cons i "is")
  obtain now oc ev where i: "i = (now, oc, ev)" by (cases i)
  let ?em = "snd (emit_commit cr i em)"
  have step: "fst (emit_run cr (i # is) em) = (if fst (emit_commit cr i em) then [emit_record cr i em] else []) @ fst (emit_run cr is ?em)"
      "snd (emit_run cr (i # is) em) = snd (emit_run cr is ?em)"
    by (simp_all add: split_beta Let_def)
  have "short_failures cr is ?em" using Cons.prems i by simp
  from Cons.IH [OF this] obtain fs f where IH: "length fs = length (fst (emit_run cr is ?em))" "CHR 0x0A \<notin> set (concat fs @ f)"
      "em_out (snd (emit_run cr is ?em)) = em_out ?em @ concat (map2 (\<lambda>x ev. x @ event_line ev) fs (fst (emit_run cr is ?em))) @ f"
      "(\<forall>(now, oc, ev) \<in> set is. oc \<in> {Written, Failed 0}) \<longrightarrow> concat fs @ f = []"
    by blast
  show ?case
  proof (cases "fst (emit_commit cr i em)")
    case True
    then have "em_out ?em = em_out em @ event_line (emit_record cr i em)"
      using i by (cases rule: emit_commit_cases [of cr now oc ev em]) (simp_all add: emit_record_def)
    then show ?thesis
      using IH True by (intro exI [of _ "[] # fs"] exI [of _ f]) (simp add: step [unfolded i] step del: log_run.simps)
  next
    case False
    obtain p where p: "CHR 0x0A \<notin> set p" "?em = em\<lparr>em_out := em_out em @ p\<rparr>" "oc \<in> {Written, Failed 0} \<Longrightarrow> p = []"
      by (rule torn_line [OF Cons.prems [unfolded i] False [unfolded i]]) (simp add: i)
    have "em_out ?em = em_out em @ p" unfolding p(2) by simp
    note p = p(1) this p(3)
    show ?thesis
    proof (cases fs)
      case Nil
      then show ?thesis using IH False p i by (intro exI [of _ "[]"] exI [of _ "p @ f"]) (simp add: step [unfolded i] step del: log_run.simps)
    next
      case (Cons x xs)
      moreover then obtain e es where "fst (emit_run cr is ?em) = e # es" using IH(1) by (cases "fst (emit_run cr is ?em)") auto
      ultimately show ?thesis
        using IH False p i by (intro exI [of _ "(p @ x) # xs"] exI [of _ f]) (simp add: step [unfolded i] step del: log_run.simps)
    qed
  qed
qed simp

lemma Split_torn_lines:
  assumes "length fs = length evs" "CHR 0x0A \<notin> set (concat fs @ f)"
  shows "Split (concat (map2 (\<lambda>x ev. x @ event_line ev) fs evs) @ f) (CHR 0x0A) = map2 (\<lambda>x ev. x @ marshal ev) fs evs @ [f]"
  using assms
proof (induction fs evs rule: list_induct2)
  case Nil
  then show ?case by (simp add: Split_no_sep)
next
  case (Cons x xs e es)
  have "CHR 0x0A \<notin> set (x @ marshal e)" using Cons.prems clean_no_newline [OF marshal_clean] by auto
  from Split_append_sep [OF this] Cons show ?case by (simp add: event_line_def)
qed

section \<open>Properties\<close>

text \<open>The audit stream numbers its events without gaps. Whatever emissions are attempted and
  whichever fail to canonicalize or to write, in full or in part, the committed events carry
  the consecutive sequence numbers after the emitter's own, which ends at the last of them; so a
  gap in a stream is a deletion.\<close>

theorem emit_seq_gapless:
  "map (\<lambda>ev. bi_Seq (ev_Broker ev)) (fst (emit_run cr is em)) =
     map (\<lambda>i. em_seq em + of_nat i) [1..<Suc (length (fst (emit_run cr is em)))] \<and>
   em_seq (snd (emit_run cr is em)) = em_seq em + of_nat (length (fst (emit_run cr is em)))"
  by (rule stream.gapless)


text \<open>The policy key identifies the service account. Two authenticated subjects whose namespaces
  hold no slash share a key only if they are the same service account of the same namespace.\<close>

theorem Key_identifies:
  assumes "CHR ''/'' \<notin> set (sub_Namespace s)" "CHR ''/'' \<notin> set (sub_Namespace t)"
  shows "Key s = Key t \<longleftrightarrow> sub_Namespace s = sub_Namespace t \<and> sub_ServiceAccount s = sub_ServiceAccount t"
  using append_sep_inj [OF assms] by (simp add: Key_def)

text \<open>A concrete crypto record, in which canonicalization is the identity, and emissions of which one
  fails to write.\<close>

definition sample_crypto :: crypto where
  "sample_crypto = \<lparr>cr_public = (\<lambda>k. k), cr_sign = (\<lambda>k m. k @ take 8 m), cr_sha256 = (\<lambda>s. take 32 (s @ replicate 32 (CHR ''0''))),
     cr_jcs = Inr\<rparr>"

definition sample_emitter :: Emitter where
  "sample_emitter = NewEmitter (NewSigner sample_crypto ''key'') ''broker-0''"

definition sample_emissions :: "emission list" where
  "sample_emissions = [(0, Written, zero_event\<lparr>ev_Type := ''broker.started''\<rparr>),
     (1, Failed 3, zero_event\<lparr>ev_Type := ''auth.failed''\<rparr>),
     (2, Written, zero_event\<lparr>ev_Type := ''claim.recorded'', ev_Asserted := [(''note'', [CHR 0x0A])]\<rparr>)]"

lemma sample_emissions_committed: "length (fst (emit_run sample_crypto sample_emissions sample_emitter)) = 2"
  by (simp add: sample_emissions_def emit_commit_def Emit_def sample_crypto_def Let_def)


theorem Key_identifies_witness:
  "Key \<lparr>sub_Namespace = ''a'', sub_ServiceAccount = ''b'', sub_Pod = [], sub_PodUID = []\<rparr> \<noteq>
   Key \<lparr>sub_Namespace = ''a'', sub_ServiceAccount = ''c'', sub_Pod = [], sub_PodUID = []\<rparr>"
  using Key_identifies [of "\<lparr>sub_Namespace = ''a'', sub_ServiceAccount = ''b'', sub_Pod = [], sub_PodUID = []\<rparr>"
      "\<lparr>sub_Namespace = ''a'', sub_ServiceAccount = ''c'', sub_Pod = [], sub_PodUID = []\<rparr>"]
  by simp

end
