(* ===== verification/Metrics.thy ===== *)
theory Metrics
  imports Go_Float Go_Encoding
begin

text \<open>
  \<open>internal/server/metrics.go\<close>: the counters and gauges of the broker. Parameters: \<open>isPrint\<close>
  tells which runes beyond ASCII are printable (the Unicode tables of \<open>strconv\<close>), and \<open>fmt_g\<close>
  is the \<open>%g\<close> form of a number.
\<close>

record Metrics =
  m_counters :: "float64 gomap gomap"
  m_gauges :: "float64 gomap gomap"
  m_help :: "string gomap"

definition NewMetrics :: Metrics where
  "NewMetrics = \<lparr>m_counters = [], m_gauges = [], m_help =
     [(''acb_leases_issued_total'', ''Leases issued, by subject and scope.''),
      (''acb_leases_denied_total'', ''Lease denials, by subject, scope and reason.''),
      (''acb_claims_recorded_total'', ''Agent-asserted claims recorded, by subject.''),
      (''acb_auth_failures_total'', ''Authentication failures (aggregate).''),
      (''acb_rate_limited_total'', ''Requests rejected by rate limiting, by subject.''),
      (''acb_audit_events_total'', ''Audit events emitted, by type.''),
      (''acb_audit_write_errors_total'', ''Audit events that failed to write (requests failed closed).''),
      (''acb_provider_errors_total'', ''Secret provider failures, by provider.''),
      (''acb_provider_duration_seconds_sum'', ''Cumulative provider fetch latency.''),
      (''acb_provider_duration_seconds_count'', ''Provider fetch count.''),
      (''acb_connect_token_expiry_timestamp_seconds'',
       ''Unix expiry of the 1Password Connect token (the broker'' @ [CHR 0x27] @
       ''s one long-lived credential); 0/absent if unparseable.'')]\<rparr>"

section \<open>Label strings\<close>

text \<open>The byte replacer of \<open>labelString\<close>.\<close>

definition replace_byte :: "char \<Rightarrow> string" where
  "replace_byte c =
     (if c = CHR 0x5C then [CHR 0x5C, CHR 0x5C] else if c = CHR 0x22 then [CHR 0x5C, CHR 0x22]
      else if c = CHR 0x0A then [CHR 0x5C, CHR ''n''] else [c])"

text \<open>\<open>strconv.Quote\<close>, the \<open>%q\<close> of a string.\<close>

definition hex4 :: "nat \<Rightarrow> string" where
  "hex4 n = [hex_digit (n div 4096 mod 16), hex_digit (n div 256 mod 16), hex_digit (n div 16 mod 16), hex_digit (n mod 16)]"

fun rune_value :: "string \<Rightarrow> nat" where
  "rune_value [a, b] = byte a mod 32 * 64 + byte b mod 64"
| "rune_value [a, b, c] = byte a mod 16 * 4096 + byte b mod 64 * 64 + byte c mod 64"
| "rune_value [a, b, c, d] = byte a mod 8 * 262144 + byte b mod 64 * 4096 + byte c mod 64 * 64 + byte d mod 64"
| "rune_value _ = 0"

definition quote_ascii :: "char \<Rightarrow> string" where
  "quote_ascii c =
     (if c = CHR 0x22 \<or> c = CHR 0x5C then [CHR 0x5C, c]
      else if in_range 32 126 c then [c]
      else case map_of [(7, CHR ''a''), (8, CHR ''b''), (12, CHR ''f''), (10, CHR ''n''), (13, CHR ''r''), (9, CHR ''t''), (11, CHR ''v'')] (byte c) of
             Some e \<Rightarrow> [CHR 0x5C, e]
           | None \<Rightarrow> [CHR 0x5C, CHR ''x'', hex_digit (byte c div 16), hex_digit (byte c mod 16)])"

definition quote_rune :: "(string \<Rightarrow> bool) \<Rightarrow> string \<Rightarrow> string" where
  "quote_rune isPrint s =
     (let c = hd s; n = rune_size s; r = take n s
      in if byte c < 128 then quote_ascii c
         else if n = 0 then [CHR 0x5C, CHR ''x'', hex_digit (byte c div 16), hex_digit (byte c mod 16)]
         else if isPrint r then r
         else if rune_value r < 65536 then [CHR 0x5C, CHR ''u''] @ hex4 (rune_value r)
         else [CHR 0x5C, CHR ''U''] @ hex4 (rune_value r div 65536) @ hex4 (rune_value r mod 65536))"

function quote_body :: "(string \<Rightarrow> bool) \<Rightarrow> string \<Rightarrow> string" where
  "quote_body isPrint s =
     (if s = [] then [] else quote_rune isPrint s @ quote_body isPrint (drop (max 1 (rune_size s)) s))"
  by pat_completeness auto
termination
  by (relation "measure (\<lambda>(p, s). length s)") auto

declare quote_body.simps [simp del]

definition labelString :: "(string \<Rightarrow> bool) \<Rightarrow> string gomap \<Rightarrow> string" where
  "labelString isPrint labels =
     (if labels = [] then []
      else let keys = sort (map fst labels);
               part = (\<lambda>k. k @ ''='' @ [CHR 0x22] @ quote_body isPrint (concat (map replace_byte (gindex labels k))) @ [CHR 0x22])
           in ''{'' @ join '','' (map part keys) @ ''}'')"

section \<open>Updates\<close>

definition gzero :: "float64 gomap \<Rightarrow> string \<Rightarrow> float64" where
  "gzero m k = (case map_of m k of None \<Rightarrow> 0 | Some v \<Rightarrow> v)"

definition gset :: "float64 gomap gomap \<Rightarrow> string \<Rightarrow> float64 gomap" where
  "gset m name = (case map_of m name of None \<Rightarrow> [] | Some s \<Rightarrow> s)"

definition Add_counter :: "(string \<Rightarrow> bool) \<Rightarrow> string \<Rightarrow> string gomap \<Rightarrow> float64 \<Rightarrow> Metrics \<Rightarrow> Metrics" where
  "Add_counter isPrint name labels v m =
     (let set = gset (m_counters m) name; ls = labelString isPrint labels
      in m\<lparr>m_counters := gupdate (m_counters m) name (gupdate set ls (fadd (gzero set ls) v))\<rparr>)"

definition Inc :: "(string \<Rightarrow> bool) \<Rightarrow> string \<Rightarrow> string gomap \<Rightarrow> Metrics \<Rightarrow> Metrics" where
  "Inc isPrint name labels m = Add_counter isPrint name labels 1 m"

definition Set_gauge :: "(string \<Rightarrow> bool) \<Rightarrow> string \<Rightarrow> string gomap \<Rightarrow> float64 \<Rightarrow> Metrics \<Rightarrow> Metrics" where
  "Set_gauge isPrint name labels v m =
     (let set = gset (m_gauges m) name; ls = labelString isPrint labels
      in m\<lparr>m_gauges := gupdate (m_gauges m) name (gupdate set ls v)\<rparr>)"

section \<open>Exposition\<close>

definition render_metric :: "(float64 \<Rightarrow> string) \<Rightarrow> string gomap \<Rightarrow> string \<Rightarrow> float64 gomap gomap \<Rightarrow> string \<Rightarrow> string" where
  "render_metric fmt_g help typ store n =
     (let h = gindex help n; series = gset store n
      in (if h \<noteq> [] then ''# HELP '' @ n @ '' '' @ h @ [CHR 0x0A] else []) @
         ''# TYPE '' @ n @ '' '' @ typ @ [CHR 0x0A] @
         concat (map (\<lambda>ls. n @ ls @ '' '' @ fmt_g (gzero series ls) @ [CHR 0x0A]) (sort (map fst series))))"

definition render_store :: "(float64 \<Rightarrow> string) \<Rightarrow> string gomap \<Rightarrow> string \<Rightarrow> float64 gomap gomap \<Rightarrow> string" where
  "render_store fmt_g help typ store =
     concat (map (render_metric fmt_g help typ store) (sort (map fst store)))"

definition ServeHTTP :: "(float64 \<Rightarrow> string) \<Rightarrow> Metrics \<Rightarrow> string" where
  "ServeHTTP fmt_g m =
     render_store fmt_g (m_help m) ''counter'' (m_counters m) @ render_store fmt_g (m_help m) ''gauge'' (m_gauges m)"

section \<open>Counting\<close>

definition counter :: "Metrics \<Rightarrow> string \<Rightarrow> string \<Rightarrow> float64" where
  "counter m name ls = gzero (gset (m_counters m) name) ls"

lemma gzero_gupdate [simp]: "gzero (gupdate m k v) k' = (if k' = k then v else gzero m k')"
  by (simp add: gzero_def)

lemma gset_gupdate [simp]: "gset (gupdate m k v) k' = (if k' = k then v else gset m k')"
  by (simp add: gset_def)

lemma counter_Inc:
  "counter (Inc p name labels m) n ls =
     (if n = name \<and> ls = labelString p labels then fadd (counter m n ls) 1 else counter m n ls)"
  by (simp add: counter_def Inc_def Add_counter_def Let_def)

lemma m_gauges_Inc [simp]: "m_gauges (Inc p name labels m) = m_gauges m"
  by (simp add: Inc_def Add_counter_def Let_def)

definition inc_calls :: "(string \<Rightarrow> bool) \<Rightarrow> (string \<times> string gomap) list \<Rightarrow> Metrics \<Rightarrow> Metrics" where
  "inc_calls p calls m = fold (\<lambda>(name, labels). Inc p name labels) calls m"

section \<open>Properties\<close>

text \<open>Counters count. From a fresh registry, after any calls of \<open>Inc\<close>, the value of a series is
  the number of calls with its name and its rendered labels, exactly, up to \<open>2 ^ 53\<close> calls, and
  series do not disturb each other.\<close>

theorem counter_counts:
  assumes "length calls \<le> 2 ^ 53"
  shows "counter (inc_calls p calls NewMetrics) name ls =
    of_nat (length (filter (\<lambda>(n, labels). n = name \<and> labelString p labels = ls) calls))"
  using assms
proof (induction calls rule: rev_induct)
  case Nil
  then show ?case by (simp add: inc_calls_def counter_def NewMetrics_def gset_def gzero_def)
next
  case (snoc call calls)
  let ?k = "length (filter (\<lambda>(n, labels). n = name \<and> labelString p labels = ls) calls)"
  have "?k \<le> length calls" by (rule length_filter_le)
  moreover have "length calls + 1 \<le> 2 ^ 53" using snoc.prems by simp
  ultimately have "?k + 1 \<le> 2 ^ 53" by linarith
  then have "fadd (of_nat ?k) 1 = of_nat (?k + 1)"
    using f64.fl_nat [of "?k + 1"] by (simp add: fadd_def add.commute)
  then show ?case
    using snoc by (cases call) (auto simp: inc_calls_def counter_Inc)
qed

theorem counter_counts_witness:
  "counter (inc_calls (\<lambda>_. True) [(''a'', []), (''b'', []), (''a'', [])] NewMetrics) ''a'' [] = 2"
  using counter_counts [of "[(''a'', []), (''b'', []), (''a'', [])]" "\<lambda>_. True" "''a''" "[]"]
  by (simp add: labelString_def)

end
