(* ===== verification/Provider.thy ===== *)
theory Provider
  imports Policy Go_Encoding
begin

text \<open>
  Package \<open>internal/provider\<close>: where secret material comes from. A \<open>Fetch\<close> gives the HTTP
  requests it sends and its result; the rest of the world answers through an \<open>upstream\<close>: the
  HTTP client, the token file, the clock, RSA signing and the JSON decoder of the responses.
  \<open>secret_source\<close> is the contract of the interface \<open>Provider\<close>: all the fields asked for or an
  error, never a part of them.
\<close>

section \<open>The interface\<close>

record Request =
  rq_Ref :: string
  rq_Fields :: "string gomap"
  rq_Params :: "string gomap"
  rq_TTL :: duration

record Result =
  rs_Secret :: "string gomap"
  rs_ExpiresAt :: time

datatype provider_error =
    InvalidRef
  | BadURL
  | TokenRead string
  | Unreachable string
  | BadStatus int
  | DecodeError string
  | FieldMissing string
  | NoPermissions
  | SignJWT string
  | TokenIncomplete
  | UnknownField string

record http_request =
  hq_method :: string
  hq_url :: string
  hq_header :: "string gomap"
  hq_body :: string

record http_response =
  hr_status :: int
  hr_body :: string

text \<open>One field of a 1Password item, and GitHub's answer.\<close>

record opField =
  of_ID :: string
  of_Label :: string
  of_Value :: string

record ghTokenResponse =
  gh_Token :: string
  gh_ExpiresAt :: time

record upstream =
  up_validURL :: "string \<Rightarrow> bool"
  up_do :: "http_request \<Rightarrow> string + http_response"
  up_token :: "string + string"
  up_now :: time
  up_rsa :: "string \<Rightarrow> string \<Rightarrow> string + string"
  up_sha256 :: "string \<Rightarrow> string"
  up_item :: "string \<Rightarrow> string + opField list"
  up_ghtoken :: "string \<Rightarrow> string + ghTokenResponse"

section \<open>1Password Connect\<close>

record OnePassword =
  op_base :: string
  op_healthAt :: time
  op_healthErr :: "provider_error option"

definition NewOnePassword :: "string \<Rightarrow> OnePassword" where
  "NewOnePassword baseURL =
     \<lparr>op_base = TrimRight baseURL CHR ''/'', op_healthAt = zero_time, op_healthErr = None\<rparr>"

definition probeAuthenticated :: "upstream \<Rightarrow> OnePassword \<Rightarrow> http_request list \<times> provider_error option" where
  "probeAuthenticated up o1 =
     (case up_token up of
        Inl e \<Rightarrow> ([], Some (TokenRead e))
      | Inr token \<Rightarrow>
          let u = op_base o1 @ ''/v1/vaults'';
              req = \<lparr>hq_method = ''GET'', hq_url = u, hq_header = [(''Authorization'', ''Bearer '' @ token)], hq_body = []\<rparr>
          in if \<not> up_validURL up u then ([], Some BadURL)
             else case up_do up req of
               Inl e \<Rightarrow> ([req], Some (Unreachable e))
             | Inr resp \<Rightarrow> ([req], if hr_status resp \<noteq> 200 then Some (BadStatus (hr_status resp)) else None))"

text \<open>\<open>Healthy\<close> reads the clock on entry and once more after a probe.\<close>

definition healthTTL :: duration where
  "healthTTL = 60 * Second"

definition Healthy :: "upstream \<Rightarrow> time \<Rightarrow> time \<Rightarrow> OnePassword \<Rightarrow>
    http_request list \<times> provider_error option \<times> OnePassword" where
  "Healthy up now1 now2 o1 =
     (if sint (Sub now1 (op_healthAt o1)) < sint healthTTL then ([], op_healthErr o1, o1)
      else let (reqs, err) = probeAuthenticated up o1
           in (reqs, err, o1\<lparr>op_healthAt := now2, op_healthErr := err\<rparr>))"

text \<open>\<open>opRef.FindStringSubmatch\<close>: the two groups of the pattern, whose lengths are fixed.\<close>

definition opRef_submatch :: "string \<Rightarrow> (string \<times> string) option" where
  "opRef_submatch s =
     (if MatchString opRefPattern s then Some (take 26 (drop 7 s), take 26 (drop 40 s)) else None)"

definition hex_upper :: "nat \<Rightarrow> char" where
  "hex_upper n = (if n < 10 then char_of (48 + n) else char_of (55 + n))"

definition PathEscape :: "string \<Rightarrow> string" where
  "PathEscape s = concat (map (\<lambda>c.
     if lower c \<or> upper c \<or> digit c \<or> c \<in> set ''-_.~$&+=:@'' then [c]
     else [CHR 0x25, hex_upper (byte c div 16), hex_upper (byte c mod 16)]) s)"

text \<open>The loop over \<open>req.Fields\<close>, in the order of the map's \<open>range\<close>.\<close>

fun op_collect :: "string gomap \<Rightarrow> string gomap \<Rightarrow> provider_error + string gomap" where
  "op_collect byLabel [] = Inr []"
| "op_collect byLabel ((leaseField, label) # fs) =
     (case map_of byLabel label of
        None \<Rightarrow> Inl (FieldMissing label)
      | Some v \<Rightarrow>
          if v = [] then Inl (FieldMissing label)
          else case op_collect byLabel fs of Inl e \<Rightarrow> Inl e | Inr out \<Rightarrow> Inr ((leaseField, v) # out))"

definition by_label :: "opField list \<Rightarrow> string gomap" where
  "by_label fs = fold (\<lambda>f m. gupdate m (of_Label f) (of_Value f)) fs []"

definition OnePassword_Fetch :: "upstream \<Rightarrow> OnePassword \<Rightarrow> Request \<Rightarrow>
    http_request list \<times> (provider_error + Result)" where
  "OnePassword_Fetch up o1 req =
     (case opRef_submatch (rq_Ref req) of
        None \<Rightarrow> ([], Inl InvalidRef)
      | Some (v, i) \<Rightarrow>
          let u = op_base o1 @ ''/v1/vaults/'' @ PathEscape v @ ''/items/'' @ PathEscape i
          in if \<not> up_validURL up u then ([], Inl BadURL)
             else case up_token up of
               Inl e \<Rightarrow> ([], Inl (TokenRead e))
             | Inr token \<Rightarrow>
                 let httpReq = \<lparr>hq_method = ''GET'', hq_url = u, hq_header = [(''Authorization'', ''Bearer '' @ token)], hq_body = []\<rparr>
                 in ([httpReq],
                     case up_do up httpReq of
                       Inl e \<Rightarrow> Inl (Unreachable e)
                     | Inr resp \<Rightarrow>
                         if hr_status resp \<noteq> 200 then Inl (BadStatus (hr_status resp))
                         else case up_item up (hr_body resp) of
                           Inl e \<Rightarrow> Inl (DecodeError e)
                         | Inr item \<Rightarrow>
                             (case op_collect (by_label item) (rq_Fields req) of
                                Inl e \<Rightarrow> Inl e
                              | Inr out \<Rightarrow> Inr \<lparr>rs_Secret = out, rs_ExpiresAt = zero_time\<rparr>)))"

section \<open>GitHub App\<close>

record GitHubApp =
  ga_base :: string
  ga_appID :: string
  ga_key :: string

definition NewGitHubApp :: "string \<Rightarrow> string \<Rightarrow> string \<Rightarrow> GitHubApp" where
  "NewGitHubApp baseURL appID key =
     \<lparr>ga_base = TrimRight (if baseURL = [] then ''https://api.github.com'' else baseURL) CHR ''/'',
      ga_appID = appID, ga_key = key\<rparr>"

text \<open>\<open>ParseKey\<close>, with the outcomes of \<open>pem.Decode\<close> and the two parsers.\<close>

datatype rsa_pkcs8 = RSA8_error | RSA8_other | RSA8_key string

datatype key_error = NoKeyBlock | NotPKCS | NotRSA

definition ParseKey :: "(string \<Rightarrow> string option) \<Rightarrow> (string \<Rightarrow> string option) \<Rightarrow> (string \<Rightarrow> rsa_pkcs8) \<Rightarrow> string \<Rightarrow>
    key_error + string" where
  "ParseKey pem_decode parse_pkcs1 parse_pkcs8 pemBytes =
     (case pem_decode pemBytes of
        None \<Rightarrow> Inl NoKeyBlock
      | Some block \<Rightarrow>
          (case parse_pkcs1 block of
             Some key \<Rightarrow> Inr key
           | None \<Rightarrow>
               (case parse_pkcs8 block of
                  RSA8_error \<Rightarrow> Inl NotPKCS
                | RSA8_other \<Rightarrow> Inl NotRSA
                | RSA8_key key \<Rightarrow> Inr key)))"

definition jwt_claims :: "time \<Rightarrow> string \<Rightarrow> (string \<times> json) list" where
  "jwt_claims now appID =
     [(''iat'', JInt (unix_seconds (Add now (- 30 * Second)))),
      (''exp'', JInt (unix_seconds (Add now (9 * Minute)))),
      (''iss'', JStr appID)]"

definition appJWT :: "upstream \<Rightarrow> GitHubApp \<Rightarrow> provider_error + string" where
  "appJWT up g =
     (let hb = render (JMap [(''alg'', JStr ''RS256''), (''typ'', JStr ''JWT'')]);
          cb = render (JMap (jwt_claims (up_now up) (ga_appID g)));
          signingInput = b64_rawurl hb @ ''.'' @ b64_rawurl cb
      in case up_rsa up (ga_key g) (up_sha256 up signingInput) of
           Inl e \<Rightarrow> Inl (SignJWT e)
         | Inr sig \<Rightarrow> Inr (signingInput @ ''.'' @ b64_rawurl sig))"

text \<open>\<open>strings.TrimSpace\<close>: the UTF-8 forms of the runes \<open>unicode.IsSpace\<close> accepts.\<close>

definition space_runes :: "string list" where
  "space_runes = map (\<lambda>n. [char_of n]) [9 :: nat, 10, 11, 12, 13, 32] @
     map (map char_of) ([[194, 133], [194, 160], [225, 154, 128], [226, 128, 168], [226, 128, 169],
       [226, 128, 175], [226, 129, 159], [227, 128, 128]] @ map (\<lambda>n. [226, 128, n]) [128 :: nat..<139])"

fun trim_left :: "nat \<Rightarrow> string list \<Rightarrow> string \<Rightarrow> string" where
  "trim_left 0 sp s = s"
| "trim_left (Suc n) sp s =
     (case find (HasPrefix s) sp of None \<Rightarrow> s | Some r \<Rightarrow> trim_left n sp (drop (length r) s))"

definition TrimSpace :: "string \<Rightarrow> string" where
  "TrimSpace s =
     (let l = trim_left (length s) space_runes s
      in rev (trim_left (length l) (map rev space_runes) (rev l)))"

definition add_permission :: "string \<Rightarrow> string gomap \<Rightarrow> string gomap" where
  "add_permission part0 out =
     (let part = TrimSpace part0
      in if part = [] then out
         else case Cut part CHR ''='' of
           (k0, v0, ok) \<Rightarrow>
             let k = TrimSpace k0; v = TrimSpace v0
             in if \<not> ok \<or> k = [] \<or> v = [] then out else gupdate out k v)"

definition parsePermissions :: "string \<Rightarrow> string gomap" where
  "parsePermissions s = fold add_permission (Split s CHR '','') []"

definition parseList :: "string \<Rightarrow> string list" where
  "parseList s = filter (\<lambda>part. part \<noteq> []) (map TrimSpace (Split s CHR '',''))"

text \<open>\<open>ghInstallationRef.FindStringSubmatch\<close>.\<close>

definition ghRef_submatch :: "string \<Rightarrow> string option" where
  "ghRef_submatch s = (if MatchString ghInstallationRefPattern s then Some (drop 14 s) else None)"

fun gh_collect :: "string \<Rightarrow> string gomap \<Rightarrow> provider_error + string gomap" where
  "gh_collect token [] = Inr []"
| "gh_collect token ((leaseField, key) # fs) =
     (if key \<noteq> ''token'' then Inl (UnknownField key)
      else case gh_collect token fs of Inl e \<Rightarrow> Inl e | Inr out \<Rightarrow> Inr ((leaseField, token) # out))"

definition gh_body :: "string gomap \<Rightarrow> string list \<Rightarrow> (string \<times> json) list" where
  "gh_body perms repos =
     [(''permissions'', JStrMap (Some perms))] @
     (if repos \<noteq> [] then [(''repositories'', JArr (map JStr repos))] else [])"

definition GitHubApp_Fetch :: "upstream \<Rightarrow> GitHubApp \<Rightarrow> Request \<Rightarrow>
    http_request list \<times> (provider_error + Result)" where
  "GitHubApp_Fetch up g req =
     (case ghRef_submatch (rq_Ref req) of
        None \<Rightarrow> ([], Inl InvalidRef)
      | Some installationID \<Rightarrow>
          let perms = parsePermissions (gindex (rq_Params req) ''permissions'')
          in if perms = [] then ([], Inl NoPermissions)
             else let payload = render (JMap (gh_body perms (parseList (gindex (rq_Params req) ''repositories''))))
                  in case appJWT up g of
                       Inl e \<Rightarrow> ([], Inl e)
                     | Inr jwt \<Rightarrow>
                         let u = ga_base g @ ''/app/installations/'' @ installationID @ ''/access_tokens'';
                             httpReq = \<lparr>hq_method = ''POST'', hq_url = u,
                               hq_header = [(''Authorization'', ''Bearer '' @ jwt), (''Accept'', ''application/vnd.github+json''),
                                 (''X-GitHub-Api-Version'', ''2022-11-28''), (''Content-Type'', ''application/json'')],
                               hq_body = payload\<rparr>
                         in if \<not> up_validURL up u then ([], Inl BadURL)
                            else ([httpReq],
                              case up_do up httpReq of
                                Inl e \<Rightarrow> Inl (Unreachable e)
                              | Inr resp \<Rightarrow>
                                  if hr_status resp \<noteq> 201 then Inl (BadStatus (hr_status resp))
                                  else case up_ghtoken up (hr_body resp) of
                                    Inl e \<Rightarrow> Inl (DecodeError e)
                                  | Inr tok \<Rightarrow>
                                      if gh_Token tok = [] \<or> IsZero (gh_ExpiresAt tok) then Inl TokenIncomplete
                                      else case gh_collect (gh_Token tok) (rq_Fields req) of
                                        Inl e \<Rightarrow> Inl e
                                      | Inr out \<Rightarrow> Inr \<lparr>rs_Secret = out, rs_ExpiresAt = gh_ExpiresAt tok\<rparr>))"

section \<open>A configured provider\<close>

datatype provider = POnePassword OnePassword | PGitHubApp GitHubApp

fun Name :: "provider \<Rightarrow> string" where
  "Name (POnePassword o1) = ''onepassword-connect''"
| "Name (PGitHubApp g) = ''github-app''"

fun Semantics :: "provider \<Rightarrow> string" where
  "Semantics (POnePassword o1) = ''static-disclosure''"
| "Semantics (PGitHubApp g) = ''revocable''"

fun Fetch :: "upstream \<Rightarrow> provider \<Rightarrow> Request \<Rightarrow> http_request list \<times> (provider_error + Result)" where
  "Fetch up (POnePassword o1) req = OnePassword_Fetch up o1 req"
| "Fetch up (PGitHubApp g) req = GitHubApp_Fetch up g req"

section \<open>The contract\<close>

text \<open>What the handlers rely on: a successful fetch has exactly the fields the scope maps, each
  with a value; and the requests it sends are of the shape the provider documents.\<close>

locale secret_source =
  fixes fetch :: "'u \<Rightarrow> 'p \<Rightarrow> Request \<Rightarrow> http_request list \<times> (provider_error + Result)"
  assumes complete: "snd (fetch up p req) = Inr r \<Longrightarrow> map fst (rs_Secret r) = map fst (rq_Fields req)"
    and nonempty: "snd (fetch up p req) = Inr r \<Longrightarrow> (k, v) \<in> set (rs_Secret r) \<Longrightarrow> v \<noteq> []"
    and one_request: "length (fst (fetch up p req)) \<le> 1"
    and asked: "snd (fetch up p req) = Inr r \<Longrightarrow> fst (fetch up p req) \<noteq> []"
begin

text \<open>Every field of the scope is delivered, and nothing else.\<close>

lemma delivers:
  assumes "snd (fetch up p req) = Inr r"
  shows "map_of (rs_Secret r) k = None \<longleftrightarrow> map_of (rq_Fields req) k = None"
  using complete [OF assms] by (metis map_of_eq_None_iff image_set)

lemma exactly_one_request:
  "snd (fetch up p req) = Inr r \<Longrightarrow> length (fst (fetch up p req)) = 1"
  using one_request [of up p req] asked [of up p req r] by (cases "fst (fetch up p req)") auto

end

lemma op_collect_Inr:
  "op_collect m fs = Inr out \<Longrightarrow> map fst out = map fst fs \<and> (\<forall>(k, v) \<in> set out. v \<noteq> [])"
proof (induction fs arbitrary: out)
  case (Cons f fs)
  obtain lf label where f: "f = (lf, label)" by (cases f)
  obtain v out' where "map_of m label = Some v" "v \<noteq> []" "op_collect m fs = Inr out'" "out = (lf, v) # out'"
    using Cons.prems unfolding f by (simp split: option.splits sum.splits if_splits)
  then show ?case using Cons.IH by (simp add: f)
qed simp

lemma gh_collect_Inr:
  "gh_collect t fs = Inr out \<longleftrightarrow> (\<forall>(lf, key) \<in> set fs. key = ''token'') \<and> out = map (\<lambda>(lf, key). (lf, t)) fs"
proof (induction fs arbitrary: out)
  case (Cons f fs)
  obtain lf key where f: "f = (lf, key)" by (cases f)
  show ?case using Cons.IH by (cases "gh_collect t fs") (auto simp: f)
qed auto

lemma OnePassword_Fetch_Inr:
  "snd (OnePassword_Fetch up o1 req) = Inr r \<Longrightarrow>
     (\<exists>m. op_collect m (rq_Fields req) = Inr (rs_Secret r)) \<and> rs_ExpiresAt r = zero_time \<and>
     fst (OnePassword_Fetch up o1 req) \<noteq> []"
  by (auto simp: OnePassword_Fetch_def Let_def split: option.splits sum.splits if_splits prod.splits)

lemma GitHubApp_Fetch_Inr:
  "snd (GitHubApp_Fetch up g req) = Inr r \<Longrightarrow>
     (\<exists>t. t \<noteq> [] \<and> gh_collect t (rq_Fields req) = Inr (rs_Secret r)) \<and> rs_ExpiresAt r \<noteq> zero_time \<and>
     fst (GitHubApp_Fetch up g req) \<noteq> []"
  by (auto simp: GitHubApp_Fetch_def Let_def IsZero_def split: option.splits sum.splits if_splits)

interpretation onepassword: secret_source OnePassword_Fetch
proof (standard, goal_cases)
  case (1 up p req r)
  then show ?case using OnePassword_Fetch_Inr [OF 1] op_collect_Inr by blast
next
  case (2 up p req r k v)
  then show ?case using OnePassword_Fetch_Inr [OF 2(1)] op_collect_Inr by fastforce
next
  case (3 up p req)
  then show ?case by (simp add: OnePassword_Fetch_def Let_def split: option.splits sum.splits prod.splits)
next
  case (4 up p req r)
  then show ?case using OnePassword_Fetch_Inr [OF 4] by blast
qed

interpretation github: secret_source GitHubApp_Fetch
proof (standard, goal_cases)
  case (1 up p req r)
  then show ?case using GitHubApp_Fetch_Inr [OF 1] by (auto simp: gh_collect_Inr comp_def split_beta)
next
  case (2 up p req r k v)
  then show ?case using GitHubApp_Fetch_Inr [OF 2(1)] by (auto simp: gh_collect_Inr)
next
  case (3 up p req)
  then show ?case by (simp add: GitHubApp_Fetch_def Let_def split: option.splits sum.splits)
next
  case (4 up p req r)
  then show ?case using GitHubApp_Fetch_Inr [OF 4] by blast
qed

interpretation source: secret_source Fetch
proof (standard, goal_cases)
  case (1 up p req r)
  then show ?case by (cases p) (auto dest: onepassword.complete github.complete)
next
  case (2 up p req r k v)
  then show ?case by (cases p) (auto dest: onepassword.nonempty github.nonempty)
next
  case (3 up p req)
  then show ?case using onepassword.one_request github.one_request by (cases p) auto
next
  case (4 up p req r)
  then show ?case by (cases p) (auto dest: onepassword.asked github.asked)
qed

section \<open>Properties\<close>

text \<open>C21: all the fields or an error. When any provider's \<open>Fetch\<close> succeeds it delivers a non-empty
  value for every field the scope maps and for no other name, out of exactly one upstream
  request.\<close>

theorem fetch_all_or_nothing:
  assumes "snd (Fetch up p req) = Inr r"
  shows "map fst (rs_Secret r) = map fst (rq_Fields req) \<and> (\<forall>(k, v) \<in> set (rs_Secret r). v \<noteq> []) \<and>
    length (fst (Fetch up p req)) = 1"
  using source.complete [OF assms] source.nonempty [OF assms] source.exactly_one_request [OF assms] by auto

lemma PathEscape_plain: "\<forall>c \<in> set s. lower_digit c \<Longrightarrow> PathEscape s = s"
  by (induction s) (auto simp: PathEscape_def lower_digit_def)

lemma opRef_submatch_Some:
  "opRef_submatch s = Some (v, i) \<longleftrightarrow>
     s = ''vaults/'' @ v @ ''/items/'' @ i \<and> length v = 26 \<and> length i = 26 \<and> (\<forall>c \<in> set v \<union> set i. lower_digit c)"
proof
  assume "opRef_submatch s = Some (v, i)"
  then have s: "s \<in> lang opRefPattern" and vi: "v = take 26 (drop 7 s)" "i = take 26 (drop 40 s)"
    by (auto simp: opRef_submatch_def MatchString_lang split: if_splits)
  then show "s = ''vaults/'' @ v @ ''/items/'' @ i \<and> length v = 26 \<and> length i = 26 \<and> (\<forall>c \<in> set v \<union> set i. lower_digit c)"
    by (auto simp: opRef_lang)
next
  assume a: "s = ''vaults/'' @ v @ ''/items/'' @ i \<and> length v = 26 \<and> length i = 26 \<and> (\<forall>c \<in> set v \<union> set i. lower_digit c)"
  then have "s \<in> lang opRefPattern" by (auto simp: opRef_lang)
  then show "opRef_submatch s = Some (v, i)" using a by (auto simp: opRef_submatch_def MatchString_lang)
qed

text \<open>A reference cannot redirect the broker's authenticated request. Whatever the reference,
  every request the 1Password provider sends is a GET of
  \<open>base/v1/vaults/v/items/i\<close> for a vault and an item of 26 lower-case letters and digits that
  the reference names, with the Connect token as its credential.\<close>

theorem onepassword_request_confined:
  assumes "httpReq \<in> set (fst (OnePassword_Fetch up o1 req))"
  shows "\<exists>v i token. rq_Ref req = ''vaults/'' @ v @ ''/items/'' @ i \<and> length v = 26 \<and> length i = 26 \<and>
    (\<forall>c \<in> set v \<union> set i. lower_digit c) \<and> up_token up = Inr token \<and>
    httpReq = \<lparr>hq_method = ''GET'', hq_url = op_base o1 @ ''/v1/vaults/'' @ v @ ''/items/'' @ i,
      hq_header = [(''Authorization'', ''Bearer '' @ token)], hq_body = []\<rparr>"
proof -
  obtain v i where vi: "opRef_submatch (rq_Ref req) = Some (v, i)"
    using assms by (auto simp: OnePassword_Fetch_def split: option.splits)
  then have esc: "PathEscape v = v" "PathEscape i = i" using PathEscape_plain by (auto simp: opRef_submatch_Some)
  have "\<exists>token. up_token up = Inr token \<and>
      httpReq = \<lparr>hq_method = ''GET'', hq_url = op_base o1 @ ''/v1/vaults/'' @ v @ ''/items/'' @ i,
        hq_header = [(''Authorization'', ''Bearer '' @ token)], hq_body = []\<rparr>"
    using assms by (auto simp: OnePassword_Fetch_def vi Let_def esc split: sum.splits if_splits)
  then show ?thesis using vi unfolding opRef_submatch_Some by blast
qed

text \<open>Text of visible ASCII characters has no blanks to trim.\<close>

definition visible :: "string \<Rightarrow> bool" where
  "visible s \<longleftrightarrow> (\<forall>c \<in> set s. 33 \<le> byte c \<and> byte c \<le> 126)"

lemma space_runes_visible:
  "\<forall>r \<in> set space_runes. r \<noteq> [] \<and> \<not> visible [hd r] \<and> \<not> visible [last r]"
  by (simp add: space_runes_def visible_def of_char_of upt_rec)

lemma trim_left_visible:
  assumes "\<forall>r \<in> set sp. r \<noteq> [] \<and> \<not> visible [hd r]" "visible s"
  shows "trim_left n sp s = s"
proof (cases n)
  case (Suc m)
  have "\<not> HasPrefix s r" if "r \<in> set sp" for r
    using assms that by (cases r) (auto simp: HasPrefix_iff visible_def)
  then have "find (HasPrefix s) sp = None" by (auto simp: find_None_iff)
  then show ?thesis using Suc by simp
qed simp

lemma TrimSpace_visible: "visible s \<Longrightarrow> TrimSpace s = s"
proof -
  assume s: "visible s"
  have "trim_left (length s) space_runes s = s"
    using space_runes_visible s by (intro trim_left_visible) auto
  moreover have "trim_left (length s) (map rev space_runes) (rev s) = rev s"
    using space_runes_visible s by (intro trim_left_visible) (auto simp: hd_rev visible_def)
  ultimately show ?thesis by (simp add: TrimSpace_def Let_def)
qed

lemma gupdate_set: "set (gupdate m k v) \<subseteq> insert (k, v) (set m)" "gupdate m k v \<noteq> []"
  by (induction m k v rule: gupdate.induct) auto

lemma permission_item_lang:
  assumes "part \<in> lang permission_item"
  shows "\<exists>k v. part = k @ CHR ''='' # v \<and> k \<noteq> [] \<and> (\<forall>c \<in> set k. lower c \<or> c = CHR ''_'') \<and>
    v \<in> {''read'', ''write'', ''admin''}"
  using assms unfolding permission_item_def lang.simps lang_Lit lang_Plus_Class by auto

lemma add_permission_item:
  assumes "part = k @ CHR ''='' # v" "k \<noteq> []" "\<forall>c \<in> set k. lower c \<or> c = CHR ''_''" "v \<in> {''read'', ''write'', ''admin''}"
  shows "add_permission part out = gupdate out k v"
proof -
  have "visible k" using assms(3) by (auto simp: visible_def lower_def)
  moreover have v: "visible v" "v \<noteq> []" using assms(4) by (auto simp: visible_def)
  ultimately have "visible part" using assms(1) by (simp add: visible_def ball_Un)
  moreover have "CHR ''='' \<notin> set k" using assms(3) by (auto simp: lower_def)
  ultimately show ?thesis
    using assms(1,2) v \<open>visible k\<close> by (simp add: add_permission_def TrimSpace_visible Cut_found)
qed

definition pinned :: "string set \<Rightarrow> string \<times> string \<Rightarrow> bool" where
  "pinned P kv \<longleftrightarrow> snd kv \<in> {''read'', ''write'', ''admin''} \<and> fst kv @ CHR ''='' # snd kv \<in> P"

lemma fold_permissions:
  assumes "set parts \<subseteq> lang permission_item" "Ball (set m) (pinned P)" "set parts \<subseteq> P"
  shows "Ball (set (fold add_permission parts m)) (pinned P) \<and>
    (parts \<noteq> [] \<or> m \<noteq> [] \<longrightarrow> fold add_permission parts m \<noteq> [])"
  using assms
proof (induction parts arbitrary: m)
  case (Cons part parts)
  obtain k v where kv: "part = k @ CHR ''='' # v" "k \<noteq> []" "\<forall>c \<in> set k. lower c \<or> c = CHR ''_''"
      "v \<in> {''read'', ''write'', ''admin''}"
    using permission_item_lang [of part] Cons.prems(1) by auto
  have "pinned P (k, v)" using kv Cons.prems(3) by (simp add: pinned_def)
  then have "Ball (set (gupdate m k v)) (pinned P)" using gupdate_set(1) [of m k v] Cons.prems(2) by blast
  then show ?case
    using Cons.IH [of "gupdate m k v"] Cons.prems add_permission_item [OF kv] gupdate_set(2) [of m k v] by simp
qed simp

lemma permissions_no_comma:
  assumes "u \<in> lang permission_item"
  shows "CHR '','' \<notin> set u"
proof -
  have "\<not> (lower CHR '','' \<or> CHR '','' = CHR ''_'')" by (simp add: lower_def)
  then show ?thesis using permission_item_lang [OF assms] by auto
qed

lemma parsePermissions_valid:
  assumes "perms \<in> lang ghPermissionsPattern"
  shows "parsePermissions perms \<noteq> []" "Ball (set (parsePermissions perms)) (pinned (set (Split perms CHR '','')))"
  using fold_permissions [of "Split perms CHR '',''" "[]" "set (Split perms CHR '','')"]
    Comma_list_split [OF assms [unfolded ghPermissionsPattern_def]] permissions_no_comma
  by (simp_all add: parsePermissions_def)

text \<open>A GitHub token carries only what the policy pins. For a scope that passed the policy's
  validation, every request the GitHub provider sends mints a token for the installation the
  scope names, with a permissions object that is not empty, whose levels are \<open>read\<close>, \<open>write\<close>
  or \<open>admin\<close>, and each entry of which is an entry of the scope's own permission list; the
  repositories are the scope's own list.\<close>

theorem github_least_privilege:
  assumes "scope_valid s" "s_Provider s = ''github-app''"
    and "httpReq \<in> set (fst (GitHubApp_Fetch up g \<lparr>rq_Ref = s_Ref s, rq_Fields = s_Fields s, rq_Params = s_Params s, rq_TTL = ttl\<rparr>))"
  shows "\<exists>n perms. s_Ref s = ''installations/'' @ n \<and> (\<forall>c \<in> set n. digit c) \<and>
    hq_url httpReq = ga_base g @ ''/app/installations/'' @ n @ ''/access_tokens'' \<and>
    hq_body httpReq = render (JMap (gh_body perms (parseList (gindex (s_Params s) ''repositories'')))) \<and>
    perms \<noteq> [] \<and>
    (\<forall>(k, v) \<in> set perms. v \<in> {''read'', ''write'', ''admin''} \<and>
       k @ CHR ''='' # v \<in> set (Split (gindex (s_Params s) ''permissions'') CHR '',''))"
proof -
  have ref: "s_Ref s \<in> lang ghInstallationRefPattern"
    and perms: "gindex (s_Params s) ''permissions'' \<in> lang ghPermissionsPattern"
    using assms(1,2) by (auto simp: scope_valid_def)
  obtain n where n: "s_Ref s = ''installations/'' @ n" "\<forall>c \<in> set n. digit c"
    using ref by (auto simp: installation_lang)
  have sub: "ghRef_submatch (s_Ref s) = Some n" using ref n(1) by (simp add: ghRef_submatch_def MatchString_lang)
  have "hq_url httpReq = ga_base g @ ''/app/installations/'' @ n @ ''/access_tokens'' \<and>
      hq_body httpReq = render (JMap (gh_body (parsePermissions (gindex (s_Params s) ''permissions''))
        (parseList (gindex (s_Params s) ''repositories''))))"
    using assms(3) by (auto simp: GitHubApp_Fetch_def sub Let_def split: sum.splits if_splits)
  moreover have "\<forall>(k, v) \<in> set (parsePermissions (gindex (s_Params s) ''permissions'')).
      v \<in> {''read'', ''write'', ''admin''} \<and> k @ CHR ''='' # v \<in> set (Split (gindex (s_Params s) ''permissions'') CHR '','')"
    using parsePermissions_valid(2) [OF perms] by (auto simp: pinned_def)
  ultimately show ?thesis using n parsePermissions_valid(1) [OF perms] by blast
qed

text \<open>The App's JWT lives nine and a half minutes: it is back-dated by 30 seconds and expires 540
  seconds ahead, under GitHub's limit of ten minutes, at whatever instant it is made.\<close>

theorem appJWT_lifetime:
  "\<exists>iat exp. jwt_claims now appID = [(''iat'', JInt iat), (''exp'', JInt exp), (''iss'', JStr appID)] \<and>
     iat = unix_seconds now - 30 \<and> exp = iat + 570"
proof -
  have "unix_seconds (now + k * 1000000000) = unix_seconds now + k" for k
    by (simp add: unix_seconds_def)
  from this [of "- 30"] this [of 540] show ?thesis
    by (simp add: jwt_claims_def Add_def Second_def Minute_def)
qed

text \<open>A concrete upstream that answers every request, and one scope of each provider.\<close>

definition sample_upstream :: upstream where
  "sample_upstream = \<lparr>up_validURL = (\<lambda>_. True),
     up_do = (\<lambda>r. Inr \<lparr>hr_status = (if hq_method r = ''GET'' then 200 else 201), hr_body = []\<rparr>),
     up_token = Inr ''connect-token'', up_now = 0, up_rsa = (\<lambda>k d. Inr d), up_sha256 = (\<lambda>s. take 32 s),
     up_item = (\<lambda>_. Inr [\<lparr>of_ID = ''1'', of_Label = ''password'', of_Value = ''hunter2''\<rparr>]),
     up_ghtoken = (\<lambda>_. Inr \<lparr>gh_Token = ''ghs_1'', gh_ExpiresAt = 3600000000000\<rparr>)\<rparr>"

definition sample_request :: Request where
  "sample_request = \<lparr>rq_Ref = s_Ref sample_scope, rq_Fields = s_Fields sample_scope, rq_Params = s_Params sample_scope,
     rq_TTL = Minute\<rparr>"

definition sample_gh_scope :: Scope where
  "sample_gh_scope = \<lparr>s_Name = ''gh'', s_Provider = ''github-app'', s_Ref = ''installations/42'',
     s_Fields = [(''GITHUB_TOKEN'', ''token'')], s_Params = [(''permissions'', ''contents=read'')]\<rparr>"

definition sample_gh_request :: Request where
  "sample_gh_request = \<lparr>rq_Ref = s_Ref sample_gh_scope, rq_Fields = s_Fields sample_gh_scope,
     rq_Params = s_Params sample_gh_scope, rq_TTL = Minute\<rparr>"

lemma sample_ref: "\<exists>v i. opRef_submatch (s_Ref sample_scope) = Some (v, i)"
  by (rule exI [of _ "replicate 26 (CHR ''a'')"], rule exI [of _ "replicate 26 (CHR ''b'')"])
    (simp add: opRef_submatch_Some sample_scope_def lower_digit_def lower_def)

lemma sample_fetch:
  "snd (OnePassword_Fetch sample_upstream (NewOnePassword ''https://connect/'') sample_request) =
     Inr \<lparr>rs_Secret = [(''token'', ''hunter2'')], rs_ExpiresAt = zero_time\<rparr>"
  "fst (OnePassword_Fetch sample_upstream (NewOnePassword ''https://connect/'') sample_request) \<noteq> []"
  using sample_ref
  by (auto simp: OnePassword_Fetch_def sample_request_def sample_upstream_def Let_def by_label_def)
    (simp add: sample_scope_def)

lemma sample_gh_permissions: "''contents=read'' \<in> lang ghPermissionsPattern"
proof -
  have "''contents'' \<in> lang (Plus (Class (\<lambda>c. lower c \<or> c = CHR ''_'')))"
    by (simp add: lang_Plus_Class lower_def)
  moreover have "''=read'' \<in> lang (Seq (Lit ''='') (Alt (Lit ''read'') (Alt (Lit ''write'') (Lit ''admin''))))"
    by simp
  ultimately have "''contents'' @ ''=read'' \<in> lang permission_item"
    unfolding permission_item_def lang.simps(4) [of "Plus r" for r] by blast
  moreover have "[] \<in> lang (Star (Seq (Lit '','') permission_item))" by (simp add: star_Nil)
  ultimately have "(''contents'' @ ''=read'') @ [] \<in> lang ghPermissionsPattern"
    unfolding ghPermissionsPattern_def Comma_list_def lang.simps(4) [of permission_item] by blast
  then show ?thesis by simp
qed

lemma sample_gh_valid: "scope_valid sample_gh_scope"
  using sample_gh_permissions
  by (simp add: scope_valid_def sample_gh_scope_def installation_lang digit_def gindex_def)

lemma sample_gh_sent: "fst (GitHubApp_Fetch sample_upstream (NewGitHubApp [] ''7'' ''key'') sample_gh_request) \<noteq> []"
proof -
  have "ghRef_submatch (s_Ref sample_gh_scope) = Some ''42''"
    by (simp add: ghRef_submatch_def MatchString_lang installation_lang sample_gh_scope_def digit_def)
  moreover have "gindex (s_Params sample_gh_scope) ''permissions'' = ''contents=read''"
    by (simp add: sample_gh_scope_def gindex_def)
  ultimately show ?thesis
    using parsePermissions_valid(1) [OF sample_gh_permissions]
    by (simp add: GitHubApp_Fetch_def sample_gh_request_def sample_upstream_def Let_def appJWT_def)
qed

theorem fetch_all_or_nothing_witness:
  "length (fst (Fetch sample_upstream (POnePassword (NewOnePassword ''https://connect/'')) sample_request)) = 1"
  using fetch_all_or_nothing [of sample_upstream "POnePassword (NewOnePassword ''https://connect/'')" sample_request]
    sample_fetch(1) by simp

theorem onepassword_request_confined_witness:
  "hq_method (hd (fst (OnePassword_Fetch sample_upstream (NewOnePassword ''https://connect/'') sample_request))) = ''GET'' \<and>
   hq_body (hd (fst (OnePassword_Fetch sample_upstream (NewOnePassword ''https://connect/'') sample_request))) = []"
  using onepassword_request_confined [OF hd_in_set [OF sample_fetch(2)]] by auto

theorem github_least_privilege_witness:
  "\<exists>n. hq_url (hd (fst (GitHubApp_Fetch sample_upstream (NewGitHubApp [] ''7'' ''key'') sample_gh_request))) =
     ga_base (NewGitHubApp [] ''7'' ''key'') @ ''/app/installations/'' @ n @ ''/access_tokens''"
  using github_least_privilege [OF sample_gh_valid _ hd_in_set [OF sample_gh_sent [unfolded sample_gh_request_def]]]
  by (auto simp: sample_gh_request_def sample_gh_scope_def)

end
