(* ===== verification/Server.thy ===== *)
theory Server
  imports Ratelimit Policy_Store Audit_Log Metrics Provider
begin

text \<open>
  Package \<open>internal/server\<close>: \<open>server.go\<close> and \<open>problem.go\<close>, the state of the broker, its
  middleware and its error responses.

  What the outside world answers is an \<open>env\<close>: the clock, the random bytes and the outcomes of
  writes to the audit stream are sequences, and \<open>sv_tick\<close> counts the answers used, so that every
  reading is a new one. A handler maps the server's state to a response and the state after it.
  A request body is given as the outcome of its JSON decoding.
\<close>

section \<open>Problems\<close>

definition errBase :: string where
  "errBase = ''https://agent-cred-broker.dev/errors/''"

definition ProblemUnauthenticated :: string where "ProblemUnauthenticated = errBase @ ''unauthenticated''"
definition ProblemGrantDenied :: string where "ProblemGrantDenied = errBase @ ''grant-denied''"
definition ProblemOutsideWindow :: string where "ProblemOutsideWindow = errBase @ ''outside-issue-window''"
definition ProblemLeaseNotFound :: string where "ProblemLeaseNotFound = errBase @ ''lease-not-found''"
definition ProblemLeaseForbidden :: string where "ProblemLeaseForbidden = errBase @ ''lease-forbidden''"
definition ProblemLeaseConflict :: string where "ProblemLeaseConflict = errBase @ ''lease-conflict''"
definition ProblemBadRequest :: string where "ProblemBadRequest = errBase @ ''bad-request''"
definition ProblemRateLimited :: string where "ProblemRateLimited = errBase @ ''rate-limited''"
definition ProblemProviderFailure :: string where "ProblemProviderFailure = errBase @ ''provider-failure''"
definition ProblemAuditUnavailable :: string where "ProblemAuditUnavailable = errBase @ ''audit-unavailable''"

record problem =
  pb_Type :: string
  pb_Title :: string
  pb_Status :: int
  pb_Detail :: string
  pb_RequestID :: string

record leaseResponse =
  lr_LeaseID :: string
  lr_Scope :: string
  lr_IssuedAt :: string
  lr_ExpiresAt :: string
  lr_UpstreamExpiresAt :: string
  lr_Renewable :: bool
  lr_Semantics :: string
  lr_Secret :: "string gomap"

text \<open>The value a response body encodes.\<close>

datatype resp_body =
    BProblem problem
  | BLease leaseResponse
  | BJson json
  | BText string
  | BEmpty

record response =
  rp_status :: int
  rp_header :: "string gomap"
  rp_body :: resp_body

definition problem_json :: "problem \<Rightarrow> json" where
  "problem_json p = JObj ([(''type'', JStr (pb_Type p)), (''title'', JStr (pb_Title p)), (''status'', JInt (pb_Status p))] @
     omitempty_str ''detail'' (pb_Detail p) @ omitempty_str ''request_id'' (pb_RequestID p))"

definition writeProblem :: "int \<Rightarrow> string \<Rightarrow> string \<Rightarrow> string \<Rightarrow> string \<Rightarrow> response" where
  "writeProblem status typ title detail requestID =
     \<lparr>rp_status = status, rp_header = [(''Content-Type'', ''application/problem+json'')],
      rp_body = BProblem \<lparr>pb_Type = typ, pb_Title = title, pb_Status = status, pb_Detail = detail, pb_RequestID = requestID\<rparr>\<rparr>"

definition writeJSON :: "string gomap \<Rightarrow> int \<Rightarrow> resp_body \<Rightarrow> response" where
  "writeJSON hdr status v = \<lparr>rp_status = status, rp_header = hdr @ [(''Content-Type'', ''application/json'')], rp_body = v\<rparr>"

definition writeHeader :: "int \<Rightarrow> response" where
  "writeHeader status = \<lparr>rp_status = status, rp_header = [], rp_body = BEmpty\<rparr>"

lemma response_simps [simp]:
  "rp_status (writeProblem st typ title d rid) = st" "rp_status (writeJSON h st v) = st" "rp_status (writeHeader st) = st"
  "rp_body (writeProblem st typ title d rid) = BProblem \<lparr>pb_Type = typ, pb_Title = title, pb_Status = st, pb_Detail = d, pb_RequestID = rid\<rparr>"
  "rp_body (writeJSON h st v) = v" "rp_body (writeHeader st) = BEmpty"
  by (simp_all add: writeProblem_def writeJSON_def writeHeader_def)

section \<open>State\<close>

record Config =
  cf_LeaseRatePerMinute :: float64
  cf_LeaseBurst :: int
  cf_ClaimRatePerMinute :: float64
  cf_ClaimBurst :: int
  cf_MaxBodyBytes :: int64
  cf_MaxContextBytes :: int
  cf_MaxClaimBytes :: int
  cf_MaxClaimsPerReq :: int

definition applyDefaults :: "Config \<Rightarrow> Config" where
  "applyDefaults c =
     \<lparr>cf_LeaseRatePerMinute = (if cf_LeaseRatePerMinute c = 0 then 10 else cf_LeaseRatePerMinute c),
      cf_LeaseBurst = (if cf_LeaseBurst c = 0 then 10 else cf_LeaseBurst c),
      cf_ClaimRatePerMinute = (if cf_ClaimRatePerMinute c = 0 then 60 else cf_ClaimRatePerMinute c),
      cf_ClaimBurst = (if cf_ClaimBurst c = 0 then 60 else cf_ClaimBurst c),
      cf_MaxBodyBytes = (if cf_MaxBodyBytes c = 0 then 131072 else cf_MaxBodyBytes c),
      cf_MaxContextBytes = (if cf_MaxContextBytes c = 0 then 4096 else cf_MaxContextBytes c),
      cf_MaxClaimBytes = (if cf_MaxClaimBytes c = 0 then 2048 else cf_MaxClaimBytes c),
      cf_MaxClaimsPerReq = (if cf_MaxClaimsPerReq c = 0 then 50 else cf_MaxClaimsPerReq c)\<rparr>"

record server =
  sv_cfg :: Config
  sv_policies :: PolicyStore
  sv_providers :: "provider gomap"
  sv_leases :: lease_table
  sv_emitter :: Emitter
  sv_signer :: Signer
  sv_metrics :: Metrics
  sv_leaseLimiter :: Limiter
  sv_claimLimiter :: Limiter
  sv_authFailLimiter :: Limiter
  sv_rlAudit :: Limiter
  sv_claimBudget :: ByteBudget
  sv_tick :: nat

definition New_Server :: "Config \<Rightarrow> PolicyStore \<Rightarrow> provider gomap \<Rightarrow> lease_table \<Rightarrow> Emitter \<Rightarrow> Signer \<Rightarrow> Metrics \<Rightarrow> server" where
  "New_Server cfg0 policies providers leases emitter signer metrics =
     (let cfg = applyDefaults cfg0
      in \<lparr>sv_cfg = cfg, sv_policies = policies, sv_providers = providers, sv_leases = leases, sv_emitter = emitter,
          sv_signer = signer, sv_metrics = metrics,
          sv_leaseLimiter = New_Limiter (cf_LeaseRatePerMinute cfg) (cf_LeaseBurst cfg),
          sv_claimLimiter = New_Limiter (cf_ClaimRatePerMinute cfg) (cf_ClaimBurst cfg),
          sv_authFailLimiter = New_Limiter 1 1, sv_rlAudit = New_Limiter 1 1,
          sv_claimBudget = NewByteBudget, sv_tick = 0\<rparr>)"

record env =
  en_clock :: "nat \<Rightarrow> time"
  en_rand :: "nat \<Rightarrow> nat \<Rightarrow> string"
  en_write :: "nat \<Rightarrow> write_outcome"
  en_upstream :: "nat \<Rightarrow> upstream"
  en_authn :: "nat \<Rightarrow> string \<Rightarrow> string + Subject"
  en_crypto :: crypto
  en_isPrint :: "string \<Rightarrow> bool"

text \<open>What the context of an authenticated request holds.\<close>

record reqctx =
  rc_Subject :: Subject
  rc_RequestID :: string
  rc_Source :: Source

datatype 'a decoded = Decoded 'a | DecodeError_body | DecodeEOF

section \<open>Primitive steps\<close>

definition tick :: "server \<Rightarrow> server" where
  "tick s = s\<lparr>sv_tick := Suc (sv_tick s)\<rparr>"

definition now_of :: "env \<Rightarrow> server \<Rightarrow> time" where
  "now_of e s = en_clock e (sv_tick s)"

definition metric_inc :: "env \<Rightarrow> string \<Rightarrow> string gomap \<Rightarrow> server \<Rightarrow> server" where
  "metric_inc e name labels s = s\<lparr>sv_metrics := Inc (en_isPrint e) name labels (sv_metrics s)\<rparr>"

definition metric_add :: "env \<Rightarrow> string \<Rightarrow> string gomap \<Rightarrow> float64 \<Rightarrow> server \<Rightarrow> server" where
  "metric_add e name labels v s = s\<lparr>sv_metrics := Add_counter (en_isPrint e) name labels v (sv_metrics s)\<rparr>"

text \<open>\<open>emitter.Emit\<close> with the counter hook the broker installs.\<close>

definition emit :: "env \<Rightarrow> Event \<Rightarrow> server \<Rightarrow> audit_error option \<times> server" where
  "emit e ev s =
     (let (r, hooks, em) = Emit (en_crypto e) (now_of e s) (en_write e (sv_tick s)) ev (sv_emitter s);
          s1 = tick s\<lparr>sv_emitter := em\<rparr>
      in (r, fold (\<lambda>t. metric_inc e ''acb_audit_events_total'' [(''type'', t)]) hooks s1))"

definition allow_lease :: "env \<Rightarrow> string \<Rightarrow> server \<Rightarrow> bool \<times> server" where
  "allow_lease e key s =
     (let (ok, l) = Allow (now_of e s) key (sv_leaseLimiter s) in (ok, tick s\<lparr>sv_leaseLimiter := l\<rparr>))"

definition allow_claim :: "env \<Rightarrow> string \<Rightarrow> server \<Rightarrow> bool \<times> server" where
  "allow_claim e key s =
     (let (ok, l) = Allow (now_of e s) key (sv_claimLimiter s) in (ok, tick s\<lparr>sv_claimLimiter := l\<rparr>))"

definition allow_authFail :: "env \<Rightarrow> string \<Rightarrow> server \<Rightarrow> bool \<times> server" where
  "allow_authFail e key s =
     (let (ok, l) = Allow (now_of e s) key (sv_authFailLimiter s) in (ok, tick s\<lparr>sv_authFailLimiter := l\<rparr>))"

definition allow_rlAudit :: "env \<Rightarrow> string \<Rightarrow> server \<Rightarrow> bool \<times> server" where
  "allow_rlAudit e key s =
     (let (ok, l) = Allow (now_of e s) key (sv_rlAudit s) in (ok, tick s\<lparr>sv_rlAudit := l\<rparr>))"

section \<open>Middleware\<close>

definition base_event :: "string \<Rightarrow> string \<Rightarrow> Subject option \<Rightarrow> Source option \<Rightarrow> (string \<times> json) list \<Rightarrow> string gomap \<Rightarrow> Event" where
  "base_event typ reqID sub src attested asserted =
     zero_event\<lparr>ev_Type := typ, ev_RequestID := reqID, ev_Subject := sub, ev_Source := src,
       ev_Attested := attested, ev_Asserted := asserted\<rparr>"

definition recordAuthFailure :: "env \<Rightarrow> string \<Rightarrow> Source option \<Rightarrow> string \<Rightarrow> server \<Rightarrow> server" where
  "recordAuthFailure e reqID src reason s =
     (let s1 = metric_inc e ''acb_auth_failures_total'' [] s;
          key = (case src of None \<Rightarrow> [] | Some x \<Rightarrow> src_IP x);
          (ok, s2) = allow_authFail e key s1
      in if \<not> ok then s2
         else snd (emit e (base_event ''auth.failed'' reqID None src
                [(''reason'', JStr reason), (''aggregated'', JBool True)] []) s2))"

definition rateLimited :: "env \<Rightarrow> Subject \<Rightarrow> Source \<Rightarrow> string \<Rightarrow> string \<Rightarrow> string \<Rightarrow> server \<Rightarrow> response \<times> server" where
  "rateLimited e sub src reqID endpoint title s =
     (let s1 = metric_inc e ''acb_rate_limited_total'' [(''subject'', Key sub)] s;
          (ok, s2) = allow_rlAudit e (Key sub) s1;
          s3 = (if ok then snd (emit e (base_event ''lease.denied'' reqID (Some sub) (Some src)
                  [(''reason'', JStr ''rate-limited''), (''decision'', JStr ''denied''), (''aggregated'', JBool True),
                   (''endpoint'', JStr endpoint), (''policy_hash'', JStr (p_Hash (Current (sv_policies s2))))] []) s2)
                else s2)
      in (writeProblem 429 ProblemRateLimited title [] reqID, s3))"

text \<open>\<open>net.SplitHostPort\<close>: the host, or \<open>None\<close> where it gives an error.\<close>

definition SplitHostPort :: "string \<Rightarrow> string option" where
  "SplitHostPort hp =
     (if CHR '':'' \<notin> set hp then None
      else let i = length hp - Suc (length (takeWhile (\<lambda>c. c \<noteq> CHR '':'') (rev hp)))
           in if hd hp = CHR ''['' then
                (if CHR '']'' \<notin> set hp then None
                 else let k = length (takeWhile (\<lambda>c. c \<noteq> CHR '']'') hp)
                      in if k + 1 \<noteq> i then None
                         else if CHR ''['' \<in> set (drop 1 hp) \<or> CHR '']'' \<in> set (drop (k + 1) hp) then None
                         else Some (drop 1 (take k hp)))
              else if CHR '':'' \<in> set (take i hp) then None
              else if CHR ''['' \<in> set hp \<or> CHR '']'' \<in> set hp then None
              else Some (take i hp))"

text \<open>A request as the HTTP server presents it, before the middleware.\<close>

record http_in =
  hi_RemoteAddr :: string
  hi_UserAgent :: string
  hi_Authorization :: string

definition withRequestID :: "env \<Rightarrow> http_in \<Rightarrow> (string \<Rightarrow> Source \<Rightarrow> server \<Rightarrow> response \<times> server) \<Rightarrow>
    server \<Rightarrow> response \<times> server" where
  "withRequestID e r next s =
     (let rid = ''req_'' @ hex_encode (en_rand e (sv_tick s) 8);
          ip = (case SplitHostPort (hi_RemoteAddr r) of None \<Rightarrow> hi_RemoteAddr r | Some host \<Rightarrow> host);
          (resp, s1) = next rid \<lparr>src_IP = ip, src_UserAgent = hi_UserAgent r\<rparr> (tick s)
      in (resp\<lparr>rp_header := (''X-Request-Id'', rid) # rp_header resp\<rparr>, s1))"

definition withAuth :: "env \<Rightarrow> http_in \<Rightarrow> (reqctx \<Rightarrow> server \<Rightarrow> response \<times> server) \<Rightarrow>
    string \<Rightarrow> Source \<Rightarrow> server \<Rightarrow> response \<times> server" where
  "withAuth e r next reqID src s =
     (case CutPrefix (hi_Authorization r) ''Bearer '' of
        (token, ok) \<Rightarrow>
          if \<not> ok \<or> token = [] then
            (writeProblem 401 ProblemUnauthenticated ''missing or malformed Authorization header'' [] reqID,
             recordAuthFailure e reqID (Some src) ''missing-bearer'' s)
          else case en_authn e (sv_tick s) token of
            Inl err \<Rightarrow>
              (writeProblem 401 ProblemUnauthenticated ''token rejected'' [] reqID,
               recordAuthFailure e reqID (Some src) ''token-rejected'' (tick s))
          | Inr sub \<Rightarrow> next \<lparr>rc_Subject = sub, rc_RequestID = reqID, rc_Source = src\<rparr> (tick s))"

section \<open>What the steps leave alone\<close>

lemma tick_frame [simp, frame]:
  "sv_cfg (tick s) = sv_cfg s" "sv_policies (tick s) = sv_policies s" "sv_providers (tick s) = sv_providers s"
  "sv_leases (tick s) = sv_leases s" "sv_emitter (tick s) = sv_emitter s" "sv_signer (tick s) = sv_signer s"
  "sv_metrics (tick s) = sv_metrics s" "sv_leaseLimiter (tick s) = sv_leaseLimiter s"
  "sv_claimLimiter (tick s) = sv_claimLimiter s" "sv_claimBudget (tick s) = sv_claimBudget s"
  by (simp_all add: tick_def)

lemma metric_inc_frame [simp, frame]:
  "sv_cfg (metric_inc e n ls s) = sv_cfg s" "sv_policies (metric_inc e n ls s) = sv_policies s"
  "sv_providers (metric_inc e n ls s) = sv_providers s" "sv_leases (metric_inc e n ls s) = sv_leases s"
  "sv_emitter (metric_inc e n ls s) = sv_emitter s" "sv_tick (metric_inc e n ls s) = sv_tick s"
  "sv_leaseLimiter (metric_inc e n ls s) = sv_leaseLimiter s" "sv_claimLimiter (metric_inc e n ls s) = sv_claimLimiter s"
  "sv_claimBudget (metric_inc e n ls s) = sv_claimBudget s"
  by (simp_all add: metric_inc_def)

lemma metric_add_frame [simp, frame]:
  "sv_cfg (metric_add e n ls v s) = sv_cfg s" "sv_policies (metric_add e n ls v s) = sv_policies s"
  "sv_providers (metric_add e n ls v s) = sv_providers s" "sv_leases (metric_add e n ls v s) = sv_leases s"
  "sv_emitter (metric_add e n ls v s) = sv_emitter s" "sv_tick (metric_add e n ls v s) = sv_tick s"
  "sv_leaseLimiter (metric_add e n ls v s) = sv_leaseLimiter s"
  by (simp_all add: metric_add_def)

lemma allow_lease_frame [simp, frame]:
  "sv_cfg (snd (allow_lease e k s)) = sv_cfg s" "sv_policies (snd (allow_lease e k s)) = sv_policies s"
  "sv_providers (snd (allow_lease e k s)) = sv_providers s" "sv_leases (snd (allow_lease e k s)) = sv_leases s"
  "sv_emitter (snd (allow_lease e k s)) = sv_emitter s" "sv_tick (snd (allow_lease e k s)) = Suc (sv_tick s)"
  by (simp_all add: allow_lease_def split_beta Let_def) (simp add: tick_def)

lemma allow_claim_frame [simp, frame]:
  "sv_cfg (snd (allow_claim e k s)) = sv_cfg s" "sv_policies (snd (allow_claim e k s)) = sv_policies s"
  "sv_leases (snd (allow_claim e k s)) = sv_leases s" "sv_emitter (snd (allow_claim e k s)) = sv_emitter s"
  "sv_tick (snd (allow_claim e k s)) = Suc (sv_tick s)"
  by (simp_all add: allow_claim_def split_beta Let_def) (simp add: tick_def)

lemma allow_rlAudit_frame [simp, frame]:
  "sv_policies (snd (allow_rlAudit e k s)) = sv_policies s" "sv_leases (snd (allow_rlAudit e k s)) = sv_leases s"
  "sv_emitter (snd (allow_rlAudit e k s)) = sv_emitter s"
  by (simp_all add: allow_rlAudit_def split_beta Let_def)

lemma allow_authFail_frame [simp, frame]:
  "sv_policies (snd (allow_authFail e k s)) = sv_policies s" "sv_leases (snd (allow_authFail e k s)) = sv_leases s"
  "sv_emitter (snd (allow_authFail e k s)) = sv_emitter s"
  by (simp_all add: allow_authFail_def split_beta Let_def)

lemma fold_hooks_frame:
  "sv_cfg (fold (\<lambda>t. metric_inc e n (f t)) hs s) = sv_cfg s" "sv_policies (fold (\<lambda>t. metric_inc e n (f t)) hs s) = sv_policies s"
  "sv_providers (fold (\<lambda>t. metric_inc e n (f t)) hs s) = sv_providers s" "sv_leases (fold (\<lambda>t. metric_inc e n (f t)) hs s) = sv_leases s"
  "sv_emitter (fold (\<lambda>t. metric_inc e n (f t)) hs s) = sv_emitter s" "sv_tick (fold (\<lambda>t. metric_inc e n (f t)) hs s) = sv_tick s"
  "sv_leaseLimiter (fold (\<lambda>t. metric_inc e n (f t)) hs s) = sv_leaseLimiter s"
  "sv_claimLimiter (fold (\<lambda>t. metric_inc e n (f t)) hs s) = sv_claimLimiter s"
  "sv_claimBudget (fold (\<lambda>t. metric_inc e n (f t)) hs s) = sv_claimBudget s"
  by (induction hs arbitrary: s) simp_all

lemma emit_frame [simp, frame]:
  "sv_cfg (snd (emit e ev s)) = sv_cfg s" "sv_policies (snd (emit e ev s)) = sv_policies s"
  "sv_providers (snd (emit e ev s)) = sv_providers s" "sv_leases (snd (emit e ev s)) = sv_leases s"
  "sv_tick (snd (emit e ev s)) = Suc (sv_tick s)" "sv_leaseLimiter (snd (emit e ev s)) = sv_leaseLimiter s"
  "sv_claimLimiter (snd (emit e ev s)) = sv_claimLimiter s" "sv_claimBudget (snd (emit e ev s)) = sv_claimBudget s"
  by (simp_all add: emit_def split_beta Let_def fold_hooks_frame) (simp add: tick_def)

lemma emit_signer [simp, frame]: "sv_signer (snd (emit e ev s)) = sv_signer s"
proof -
  have "sv_signer (fold (\<lambda>t. metric_inc e n (f t)) hs s) = sv_signer s" for n and f :: "string \<Rightarrow> string gomap" and hs s
    by (induction hs arbitrary: s) (simp_all add: metric_inc_def)
  then show ?thesis by (simp add: emit_def split_beta Let_def)
qed

text \<open>What an emission does to the stream: one signed line and the next number, or at most a torn
  line and the same number.\<close>

definition emitted :: "env \<Rightarrow> Event \<Rightarrow> server \<Rightarrow> Event" where
  "emitted e ev s = signed_event (en_crypto e) (now_of e s) ev (sv_emitter s)"

lemma emit_cases:
  obtains (ok) "fst (emit e ev s) = None"
      "sv_emitter (snd (emit e ev s)) =
        sv_emitter s\<lparr>em_out := em_out (sv_emitter s) @ event_line (emitted e ev s), em_seq := em_seq (sv_emitter s) + 1\<rparr>"
      "signed_by (en_crypto e) (em_signer (sv_emitter s)) (emitted e ev s)"
  | (failed) n err where "fst (emit e ev s) = Some err"
      "sv_emitter (snd (emit e ev s)) =
        sv_emitter s\<lparr>em_out := em_out (sv_emitter s) @ take n (event_line (emitted e ev s))\<rparr>"
proof -
  have emitter: "sv_emitter (snd (emit e ev s)) =
      snd (snd (Emit (en_crypto e) (now_of e s) (en_write e (sv_tick s)) ev (sv_emitter s)))"
    and res: "fst (emit e ev s) = fst (Emit (en_crypto e) (now_of e s) (en_write e (sv_tick s)) ev (sv_emitter s))"
    by (simp_all add: emit_def split_beta Let_def fold_hooks_frame)
  show ?thesis
    by (cases rule: Emit_cases [where cr = "en_crypto e" and now = "now_of e s" and oc = "en_write e (sv_tick s)"
          and ev = ev and em = "sv_emitter s" and m = 0])
      (use ok failed in \<open>auto simp: emitter res emitted_def signed_event_signed\<close>)
qed

lemma emitted_simps [simp]:
  "ev_Type (emitted e ev s) = ev_Type ev" "ev_Subject (emitted e ev s) = ev_Subject ev"
  "ev_RequestID (emitted e ev s) = ev_RequestID ev" "ev_Source (emitted e ev s) = ev_Source ev"
  "ev_Attested (emitted e ev s) = ev_Attested ev" "ev_Asserted (emitted e ev s) = ev_Asserted ev"
  "bi_Seq (ev_Broker (emitted e ev s)) = em_seq (sv_emitter s) + 1"
  by (simp_all add: emitted_def)

lemma base_event_simps [simp]:
  "ev_Type (base_event typ rid sub src att ass) = typ" "ev_Subject (base_event typ rid sub src att ass) = sub"
  "ev_RequestID (base_event typ rid sub src att ass) = rid" "ev_Source (base_event typ rid sub src att ass) = src"
  "ev_Attested (base_event typ rid sub src att ass) = att" "ev_Asserted (base_event typ rid sub src att ass) = ass"
  by (simp_all add: base_event_def)

lemma recordAuthFailure_frame [simp, frame]:
  "sv_leases (recordAuthFailure e rid src why s) = sv_leases s"
  "sv_policies (recordAuthFailure e rid src why s) = sv_policies s"
  by (simp_all add: recordAuthFailure_def split_beta Let_def)

lemma rateLimited_frame [simp, frame]:
  "sv_leases (snd (rateLimited e sub src rid ep title s)) = sv_leases s"
  "sv_policies (snd (rateLimited e sub src rid ep title s)) = sv_policies s"
  "fst (rateLimited e sub src rid ep title s) = writeProblem 429 ProblemRateLimited title [] rid"
  by (simp_all add: rateLimited_def split_beta Let_def)

end
