(* ===== verification/Handlers.thy ===== *)
theory Handlers
  imports Server
begin

text \<open>
  Package \<open>internal/server\<close>, file \<open>handlers.go\<close>: the lease, claim and introspection endpoints of
  the broker, and the sweep of expired leases. Each handler is one function with the guards and
  early returns of the source; the handler of \<open>POST /v1/leases\<close> is cut at its provider call and
  at the issuance that follows it.
\<close>

record leaseRequest =
  lq_Scope :: string
  lq_TTLSeconds :: int64
  lq_Context :: "string gomap option"

definition leaseMeta :: "Lease \<Rightarrow> leaseResponse" where
  "leaseMeta l = \<lparr>lr_LeaseID = l_ID l, lr_Scope = l_Scope l, lr_IssuedAt = format_rfc3339 (l_IssuedAt l),
     lr_ExpiresAt = format_rfc3339 (l_ExpiresAt l), lr_UpstreamExpiresAt = [], lr_Renewable = l_Renewable l,
     lr_Semantics = l_Semantics l, lr_Secret = []\<rparr>"

definition lease_json :: "leaseResponse \<Rightarrow> json" where
  "lease_json r = JObj ([(''lease_id'', JStr (lr_LeaseID r)), (''scope'', JStr (lr_Scope r)), (''issued_at'', JStr (lr_IssuedAt r)),
       (''expires_at'', JStr (lr_ExpiresAt r))] @ omitempty_str ''upstream_expires_at'' (lr_UpstreamExpiresAt r) @
     [(''renewable'', JBool (lr_Renewable r)), (''semantics'', JStr (lr_Semantics r))] @
     (if lr_Secret r = [] then [] else [(''secret'', JStrMap (Some (lr_Secret r)))]))"

definition clampTTL :: "int64 \<Rightarrow> 'w Grant \<Rightarrow> duration \<times> bool" where
  "clampTTL requested g =
     (if sint requested < 0 then (0, False)
      else if requested = 0 then (g_TTLDefault g, True)
      else let maxSeconds = word_of_int (quot (sint (g_TTLMax g)) (sint Second)) :: int64;
               r = (if sint requested > sint maxSeconds then maxSeconds else requested)
           in (r * Second, True))"

definition auditFailClosed :: "env \<Rightarrow> string \<Rightarrow> server \<Rightarrow> response \<times> server" where
  "auditFailClosed e reqID s =
     (writeProblem 500 ProblemAuditUnavailable ''audit event could not be written; request failed closed'' [] reqID,
      metric_inc e ''acb_audit_write_errors_total'' [] s)"

section \<open>Creating a lease\<close>

text \<open>The closure \<open>deny\<close>.\<close>

definition deny :: "env \<Rightarrow> reqctx \<Rightarrow> Policy \<Rightarrow> Scope option \<Rightarrow> leaseRequest \<Rightarrow> int \<Rightarrow> string \<Rightarrow> string \<Rightarrow> string \<Rightarrow>
    server \<Rightarrow> response \<times> server" where
  "deny e rc pol scope req status problemType title auditReason s =
     (let scopeLabel = (case scope of None \<Rightarrow> ''<unknown>'' | Some sc \<Rightarrow> s_Name sc);
          attested = [(''requested_scope'', JStr (lq_Scope req)), (''decision'', JStr ''denied''),
                      (''reason'', JStr auditReason), (''policy_hash'', JStr (p_Hash pol))] @
                     (case scope of None \<Rightarrow> [] | Some sc \<Rightarrow> [(''scope'', JStr (s_Name sc))]);
          s1 = metric_inc e ''acb_leases_denied_total''
                 [(''subject'', Key (rc_Subject rc)), (''scope'', scopeLabel), (''reason'', auditReason)] s;
          (err, s2) = emit e (base_event ''lease.denied'' (rc_RequestID rc) (Some (rc_Subject rc)) (Some (rc_Source rc))
                 attested (case lq_Context req of None \<Rightarrow> [] | Some c \<Rightarrow> c)) s1
      in (writeProblem status problemType title [] (rc_RequestID rc), s2))"

text \<open>From the provider's result to the response: the clamp to the upstream expiry, the lease, its
  event, and the roll-back when the event cannot be written.\<close>

definition clamp_upstream :: "time \<Rightarrow> time \<Rightarrow> duration \<Rightarrow> duration" where
  "clamp_upstream expiresAt now ttl =
     (let capped = Sub expiresAt now in if 0 < sint capped \<and> sint capped < sint ttl then capped else ttl)"

definition issued_attested :: "Lease \<Rightarrow> duration \<Rightarrow> string \<Rightarrow> Policy \<Rightarrow> (string \<times> json) list" where
  "issued_attested l ttl upstreamExpiry pol =
     [(''scope'', JStr (l_Scope l)), (''lease_id'', JStr (l_ID l)), (''ttl_seconds'', JInt (sint (int_of_float (Seconds ttl)))),
      (''expires_at'', JStr (format_rfc3339 (l_ExpiresAt l))), (''decision'', JStr ''issued''),
      (''semantics'', JStr (l_Semantics l)), (''policy_hash'', JStr (p_Hash pol))] @
     omitempty_str ''upstream_expires_at'' upstreamExpiry"

definition issue_record :: "env \<Rightarrow> reqctx \<Rightarrow> Policy \<Rightarrow> leaseRequest \<Rightarrow> Result \<Rightarrow> string \<Rightarrow> duration \<Rightarrow> Lease \<Rightarrow>
    server \<Rightarrow> response \<times> server" where
  "issue_record e rc pol req result upstreamExpiry ttl l s =
     (let (err, s1) = emit e (base_event ''lease.issued'' (rc_RequestID rc) (Some (rc_Subject rc)) (Some (rc_Source rc))
             (issued_attested l ttl upstreamExpiry pol) (case lq_Context req of None \<Rightarrow> [] | Some c \<Rightarrow> c)) s
      in case err of
           Some x \<Rightarrow> auditFailClosed e (rc_RequestID rc) (s1\<lparr>sv_leases := Remove (l_ID l) (sv_leases s1)\<rparr>)
         | None \<Rightarrow>
             (writeJSON [(''Cache-Control'', ''no-store'')] 201
                (BLease (leaseMeta l\<lparr>lr_UpstreamExpiresAt := upstreamExpiry, lr_Secret := rs_Secret result\<rparr>)),
              metric_inc e ''acb_leases_issued_total'' [(''subject'', Key (rc_Subject rc)), (''scope'', l_Scope l)] s1))"

definition create_issue :: "env \<Rightarrow> reqctx \<Rightarrow> Policy \<Rightarrow> leaseRequest \<Rightarrow> grant \<Rightarrow> provider \<Rightarrow> duration \<Rightarrow> Result \<Rightarrow>
    server \<Rightarrow> response \<times> server" where
  "create_issue e rc pol req grant prov ttl0 result s =
     (let (upstreamExpiry, ttl, s1) =
            (if \<not> IsZero (rs_ExpiresAt result)
             then (format_rfc3339 (rs_ExpiresAt result), clamp_upstream (rs_ExpiresAt result) (now_of e s) ttl0, tick s)
             else ([], ttl0, s));
          (l, t) = Create (now_of e s1) (en_rand e (sv_tick s1) 13) (Key (rc_Subject rc)) (lq_Scope req) (Semantics prov)
                     ttl (g_Renewable grant) (sv_leases s1)
      in issue_record e rc pol req result upstreamExpiry ttl l (tick s1\<lparr>sv_leases := t\<rparr>))"

definition create_fetch :: "env \<Rightarrow> reqctx \<Rightarrow> Policy \<Rightarrow> Scope \<Rightarrow> leaseRequest \<Rightarrow> grant \<Rightarrow> duration \<Rightarrow>
    server \<Rightarrow> response \<times> server" where
  "create_fetch e rc pol scope req grant ttl s =
     (case map_of (sv_providers s) (s_Provider scope) of
        None \<Rightarrow> deny e rc pol (Some scope) req 502 ProblemProviderFailure ''secret provider unavailable'' ''provider-unconfigured'' s
      | Some prov \<Rightarrow>
          let fetchStart = now_of e s;
              (reqs, result) = Fetch (en_upstream e (sv_tick s)) prov
                 \<lparr>rq_Ref = s_Ref scope, rq_Fields = s_Fields scope, rq_Params = s_Params scope, rq_TTL = ttl\<rparr>;
              s1 = tick s;
              labels = [(''provider'', s_Provider scope)];
              s2 = metric_add e ''acb_provider_duration_seconds_sum'' labels (Seconds (Sub (now_of e s1) fetchStart)) (tick s1);
              s3 = metric_inc e ''acb_provider_duration_seconds_count'' labels s2
          in case result of
               Inl err \<Rightarrow>
                 deny e rc pol (Some scope) req 502 ProblemProviderFailure ''secret provider failure'' ''provider-error''
                   (metric_inc e ''acb_provider_errors_total'' labels s3)
             | Inr r \<Rightarrow> create_issue e rc pol req grant prov ttl r s3)"

text \<open>A nil dereference: the HTTP server drops the connection.\<close>

definition panicked :: response where
  "panicked = writeHeader 0"

definition handleLeaseCreate :: "env \<Rightarrow> reqctx \<Rightarrow> leaseRequest decoded \<Rightarrow> server \<Rightarrow> response \<times> server" where
  "handleLeaseCreate e rc body s =
     (let sub = rc_Subject rc; reqID = rc_RequestID rc;
          pol = Current (sv_policies s);
          (ok, s1) = allow_lease e (Key sub) s
      in if \<not> ok then rateLimited e sub (rc_Source rc) reqID ''leases'' ''lease rate limit exceeded'' s1
         else case body of
           Decoded req \<Rightarrow>
             if lq_Scope req = [] then (writeProblem 400 ProblemBadRequest ''invalid request body'' [] reqID, s1)
             else if int (length (render (JStrMap (lq_Context req)))) > cf_MaxContextBytes (sv_cfg s1)
               then (writeProblem 400 ProblemBadRequest ''context exceeds size limit'' [] reqID, s1)
             else let scope = ScopeOf pol (lq_Scope req)
                  in (case GrantOf pol (Key sub) (lq_Scope req) of
                        None \<Rightarrow>
                          deny e rc pol scope req 403 ProblemGrantDenied ''no grant for scope''
                            (if scope = None then ''unknown-scope'' else ''no-grant'') s1
                      | Some grant \<Rightarrow>
                          if \<not> WindowOpen grant (now_of e s1) then
                            deny e rc pol scope req 403 ProblemOutsideWindow ''outside issuance window'' ''outside-window'' (tick s1)
                          else case clampTTL (lq_TTLSeconds req) grant of
                            (ttl, False) \<Rightarrow>
                              (writeProblem 400 ProblemBadRequest ''ttl_seconds must be non-negative'' [] reqID, tick s1)
                          | (ttl, True) \<Rightarrow>
                              (case scope of
                                 None \<Rightarrow> (panicked, tick s1)
                               | Some sc \<Rightarrow> create_fetch e rc pol sc req grant ttl (tick s1)))
         | _ \<Rightarrow> (writeProblem 400 ProblemBadRequest ''invalid request body'' [] reqID, s1))"

section \<open>Renewing, surrendering, reading\<close>

definition renewed_attested :: "Lease \<Rightarrow> Policy \<Rightarrow> (string \<times> json) list" where
  "renewed_attested l pol = [(''scope'', JStr (l_Scope l)), (''lease_id'', JStr (l_ID l)),
     (''expires_at'', JStr (format_rfc3339 (l_ExpiresAt l))), (''policy_hash'', JStr (p_Hash pol))]"

text \<open>From the grant re-check on: \<open>Renew\<close> reads the clock twice.\<close>

definition renew_apply :: "env \<Rightarrow> reqctx \<Rightarrow> string \<Rightarrow> Policy \<Rightarrow> duration \<Rightarrow> server \<Rightarrow> response \<times> server" where
  "renew_apply e rc lid pol ttl s =
     (case Renew (now_of e s) (now_of e (tick s)) lid ttl (sv_leases s) of
        (Some l, [], t) \<Rightarrow>
          let (err, s2) = emit e (base_event ''lease.renewed'' (rc_RequestID rc) (Some (rc_Subject rc)) (Some (rc_Source rc))
                 (renewed_attested l pol) []) (tick (tick s)\<lparr>sv_leases := t\<rparr>)
          in (case err of
                Some x \<Rightarrow> auditFailClosed e (rc_RequestID rc) (s2\<lparr>sv_leases := snd (snd (Surrender lid (sv_leases s2)))\<rparr>)
              | None \<Rightarrow> (writeJSON [] 200 (BLease (leaseMeta l)), s2))
      | (_, outcome, t) \<Rightarrow>
          (writeProblem 409 ProblemLeaseConflict (''lease '' @ outcome) [] (rc_RequestID rc), tick (tick s)\<lparr>sv_leases := t\<rparr>))"

definition handleLeaseRenew :: "env \<Rightarrow> reqctx \<Rightarrow> string \<Rightarrow> int64 decoded \<Rightarrow> server \<Rightarrow> response \<times> server" where
  "handleLeaseRenew e rc lid body s =
     (let sub = rc_Subject rc; reqID = rc_RequestID rc;
          (ok, s1) = allow_lease e (Key sub) s
      in if \<not> ok then rateLimited e sub (rc_Source rc) reqID ''leases'' ''lease rate limit exceeded'' s1
         else case Get lid (sv_leases s1) of
           None \<Rightarrow> (writeProblem 404 ProblemLeaseNotFound ''no such lease'' [] reqID, s1)
         | Some existing \<Rightarrow>
             if l_SubjectKey existing \<noteq> Key sub then (writeProblem 403 ProblemLeaseForbidden ''not your lease'' [] reqID, s1)
             else let pol = Current (sv_policies s1)
                  in (case GrantOf pol (Key sub) (l_Scope existing) of
                        None \<Rightarrow> (writeProblem 409 ProblemLeaseConflict ''lease not renewable'' [] reqID, s1)
                      | Some grant \<Rightarrow>
                          if \<not> g_Renewable grant then (writeProblem 409 ProblemLeaseConflict ''lease not renewable'' [] reqID, s1)
                          else if body = DecodeError_body then (writeProblem 400 ProblemBadRequest ''invalid request body'' [] reqID, s1)
                          else let ttlSeconds = (case body of Decoded n \<Rightarrow> n | _ \<Rightarrow> 0)
                               in case clampTTL ttlSeconds grant of
                                    (ttl, False) \<Rightarrow> (writeProblem 400 ProblemBadRequest ''ttl_seconds must be non-negative'' [] reqID, s1)
                                  | (ttl, True) \<Rightarrow> renew_apply e rc lid pol ttl s1))"

definition handleLeaseSurrender :: "env \<Rightarrow> reqctx \<Rightarrow> string \<Rightarrow> server \<Rightarrow> response \<times> server" where
  "handleLeaseSurrender e rc lid s =
     (let sub = rc_Subject rc; reqID = rc_RequestID rc;
          (ok, s1) = allow_lease e (Key sub) s
      in if \<not> ok then rateLimited e sub (rc_Source rc) reqID ''leases'' ''lease rate limit exceeded'' s1
         else case Get lid (sv_leases s1) of
           None \<Rightarrow> (writeProblem 404 ProblemLeaseNotFound ''no such lease'' [] reqID, s1)
         | Some existing \<Rightarrow>
             if l_SubjectKey existing \<noteq> Key sub then (writeProblem 403 ProblemLeaseForbidden ''not your lease'' [] reqID, s1)
             else if l_Surrendered existing then (writeHeader 204, s1)
             else let (err, s2) = emit e (base_event ''lease.surrendered'' reqID (Some sub) (Some (rc_Source rc))
                        [(''scope'', JStr (l_Scope existing)), (''lease_id'', JStr (l_ID existing)),
                         (''policy_hash'', JStr (p_Hash (Current (sv_policies s1))))] []) s1
                  in (case err of
                        Some x \<Rightarrow> auditFailClosed e reqID s2
                      | None \<Rightarrow> (writeHeader 204, s2\<lparr>sv_leases := snd (snd (Surrender lid (sv_leases s2)))\<rparr>)))"

definition handleLeaseGet :: "reqctx \<Rightarrow> string \<Rightarrow> server \<Rightarrow> response \<times> server" where
  "handleLeaseGet rc lid s =
     (case Get lid (sv_leases s) of
        None \<Rightarrow> (writeProblem 404 ProblemLeaseNotFound ''no such lease'' [] (rc_RequestID rc), s)
      | Some l \<Rightarrow>
          if l_SubjectKey l \<noteq> Key (rc_Subject rc) then (writeProblem 403 ProblemLeaseForbidden ''not your lease'' [] (rc_RequestID rc), s)
          else (writeJSON [] 200 (BLease (leaseMeta l)), s))"

section \<open>Claims\<close>

record claimsRequest =
  cq_LeaseID :: string
  cq_Claims :: "string gomap option list"

text \<open>The size loop: the total, or \<open>None\<close> when an entry is too large.\<close>

fun claims_size :: "int \<Rightarrow> string gomap option list \<Rightarrow> int64 \<Rightarrow> int64 option" where
  "claims_size maxBytes [] totalBytes = Some totalBytes"
| "claims_size maxBytes (c # cs) totalBytes =
     (let b = render (JStrMap c)
      in if int (length b) > maxBytes then None else claims_size maxBytes cs (totalBytes + of_nat (length b)))"

definition claim_event :: "reqctx \<Rightarrow> string \<Rightarrow> string gomap option \<Rightarrow> string \<Rightarrow> Event" where
  "claim_event rc leaseID c cid =
     base_event ''claim.recorded'' (rc_RequestID rc) (Some (rc_Subject rc)) (Some (rc_Source rc))
       ([(''claim_id'', JStr cid)] @ omitempty_str ''lease_id'' leaseID) (case c of None \<Rightarrow> [] | Some m \<Rightarrow> m)"

text \<open>The emission loop: the IDs of all the claims, or \<open>None\<close> at the first that cannot be written.\<close>

fun claims_emit :: "env \<Rightarrow> reqctx \<Rightarrow> string \<Rightarrow> string gomap option list \<Rightarrow> string list \<Rightarrow> server \<Rightarrow>
    string list option \<times> server" where
  "claims_emit e rc leaseID [] ids s = (Some ids, s)"
| "claims_emit e rc leaseID (c # cs) ids s =
     (let cid = NewID ''claim'' (en_rand e (sv_tick s) 13);
          (err, s1) = emit e (claim_event rc leaseID c cid) (tick s)
      in case err of
           Some x \<Rightarrow> (None, s1)
         | None \<Rightarrow> claims_emit e rc leaseID cs (ids @ [cid]) s1)"

definition handleClaims :: "env \<Rightarrow> reqctx \<Rightarrow> claimsRequest decoded \<Rightarrow> server \<Rightarrow> response \<times> server" where
  "handleClaims e rc body s =
     (let sub = rc_Subject rc; reqID = rc_RequestID rc;
          (ok, s1) = allow_claim e (Key sub) s
      in if \<not> ok then rateLimited e sub (rc_Source rc) reqID ''claims'' ''claim rate limit exceeded'' s1
         else case body of
           Decoded req \<Rightarrow>
             let n = int (length (cq_Claims req))
             in if n = 0 \<or> n > cf_MaxClaimsPerReq (sv_cfg s1) then
                  (writeProblem 400 ProblemBadRequest
                     (''claims must contain 1-'' @ int_string (cf_MaxClaimsPerReq (sv_cfg s1)) @ '' entries'') [] reqID, s1)
                else (case claims_size (cf_MaxClaimBytes (sv_cfg s1)) (cq_Claims req) 0 of
                        None \<Rightarrow> (writeProblem 400 ProblemBadRequest ''claim entry exceeds size limit'' [] reqID, s1)
                      | Some totalBytes \<Rightarrow>
                          if cq_LeaseID req \<noteq> [] \<and>
                             (case Get (cq_LeaseID req) (sv_leases s1) of None \<Rightarrow> True | Some l \<Rightarrow> l_SubjectKey l \<noteq> Key sub)
                          then (writeProblem 403 ProblemLeaseForbidden ''lease not held by caller'' [] reqID, s1)
                          else let budgetCap = ClaimBytesCap (Current (sv_policies s1)) (Key sub);
                                   (spent, bb) = Spend (now_of e s1) (Key sub) totalBytes budgetCap (sv_claimBudget s1);
                                   s2 = tick s1\<lparr>sv_claimBudget := bb\<rparr>
                               in if \<not> spent then
                                    (writeProblem 429 ProblemRateLimited ''daily claim-bytes cap exceeded'' [] reqID,
                                     metric_inc e ''acb_rate_limited_total'' [(''subject'', Key sub)] s2)
                                  else (case claims_emit e rc (cq_LeaseID req) (cq_Claims req) [] s2 of
                                          (None, s3) \<Rightarrow> auditFailClosed e reqID s3
                                        | (Some ids, s3) \<Rightarrow>
                                            (writeJSON [] 202 (BJson (JObj [(''claim_ids'', JArr (map JStr ids))])),
                                             metric_inc e ''acb_claims_recorded_total'' [(''subject'', Key sub)] s3)))
         | _ \<Rightarrow> (writeProblem 400 ProblemBadRequest ''invalid request body'' [] reqID, s1))"

section \<open>Introspection\<close>

definition grantOut :: "grant \<Rightarrow> json" where
  "grantOut g = JObj ([(''scope'', JStr (g_Scope g)),
       (''ttl_default_seconds'', JInt (sint (int_of_float (Seconds (g_TTLDefault g))))),
       (''ttl_max_seconds'', JInt (sint (int_of_float (Seconds (g_TTLMax g))))),
       (''renewable'', JBool (g_Renewable g))] @
     (if g_IssueWindows g = [] then []
      else [(''issue_windows'', JArr (map (\<lambda>w. JObj [(''cron'', JStr (w_Cron w)),
              (''duration'', JStr (duration_String (w_Duration w)))]) (g_IssueWindows g)))]))"

definition handleWhoami :: "reqctx \<Rightarrow> server \<Rightarrow> response \<times> server" where
  "handleWhoami rc s =
     (let pol = Current (sv_policies s)
      in (writeJSON [] 200 (BJson (JMap [(''subject'', subject_json (rc_Subject rc)),
            (''grants'', JArr (map grantOut (GrantsFor pol (Key (rc_Subject rc)))))])), s))"

definition handleVerifyKey :: "server \<Rightarrow> response" where
  "handleVerifyKey s =
     writeJSON [] 200 (BJson (JMap [(''keys'', JArr [JMap [(''kid'', JStr (sg_kid (sv_signer s))), (''alg'', JStr ''Ed25519''),
       (''public_key'', JStr (PublicBase64 (sv_signer s)))]])]))"

section \<open>Sweeping\<close>

definition expired_event :: "string \<Rightarrow> Lease \<Rightarrow> Event" where
  "expired_event polHash l =
     (case Cut (l_SubjectKey l) CHR ''/'' of
        (ns, sa, ok) \<Rightarrow>
          base_event ''lease.expired'' [] (Some \<lparr>sub_Namespace = ns, sub_ServiceAccount = sa, sub_Pod = [], sub_PodUID = []\<rparr>) None
            [(''scope'', JStr (l_Scope l)), (''lease_id'', JStr (l_ID l)),
             (''expired_at'', JStr (format_rfc3339 (l_ExpiresAt l))), (''policy_hash'', JStr polHash)] [])"

definition SweepExpiredLeases :: "env \<Rightarrow> duration \<Rightarrow> string list \<Rightarrow> server \<Rightarrow> server" where
  "SweepExpiredLeases e retain order s =
     (let polHash = p_Hash (Current (sv_policies s));
          (out, t) = SweepExpired (now_of e s) retain order (sv_leases s)
      in fold (\<lambda>l s. snd (emit e (expired_event polHash l) s)) out (tick s\<lparr>sv_leases := t\<rparr>))"

section \<open>Routing\<close>

text \<open>The patterns of the two muxes, with the path value and the decoded body of each.\<close>

datatype route =
    PostLeases "leaseRequest decoded"
  | PostRenew string "int64 decoded"
  | DeleteLease string
  | GetLease string
  | PostClaims "claimsRequest decoded"
  | GetWhoami

fun mux :: "env \<Rightarrow> route \<Rightarrow> reqctx \<Rightarrow> server \<Rightarrow> response \<times> server" where
  "mux e (PostLeases body) rc s = handleLeaseCreate e rc body s"
| "mux e (PostRenew lid body) rc s = handleLeaseRenew e rc lid body s"
| "mux e (DeleteLease lid) rc s = handleLeaseSurrender e rc lid s"
| "mux e (GetLease lid) rc s = handleLeaseGet rc lid s"
| "mux e (PostClaims body) rc s = handleClaims e rc body s"
| "mux e GetWhoami rc s = handleWhoami rc s"

definition Handler :: "env \<Rightarrow> http_in \<Rightarrow> route \<Rightarrow> server \<Rightarrow> response \<times> server" where
  "Handler e r rt s = withRequestID e r (withAuth e r (mux e rt)) s"

datatype health_route = Healthz | Readyz | GetMetrics | VerifyKey

fun HealthHandler :: "(float64 \<Rightarrow> string) \<Rightarrow> bool \<Rightarrow> health_route \<Rightarrow> server \<Rightarrow> response" where
  "HealthHandler fmt_g ready Healthz s = writeHeader 200"
| "HealthHandler fmt_g ready Readyz s = (if ready then writeHeader 200 else writeHeader 503)"
| "HealthHandler fmt_g ready GetMetrics s =
     \<lparr>rp_status = 200, rp_header = [(''Content-Type'', ''text/plain; version=0.0.4; charset=utf-8'')],
      rp_body = BText (ServeHTTP fmt_g (sv_metrics s))\<rparr>"
| "HealthHandler fmt_g ready VerifyKey s = handleVerifyKey s"

end
