(* ===== verification/Broker_Sample.thy ===== *)
theory Broker_Sample
  imports Handlers
begin

text \<open>
  A concrete broker on which the statements with hypotheses are evaluated: the sample policy, one
  1Password provider whose upstream answers, an audit writer that never fails and one that
  always does.
\<close>

definition sample_subject :: Subject where
  "sample_subject = \<lparr>sub_Namespace = ''ns'', sub_ServiceAccount = ''sa'', sub_Pod = ''pod-1'', sub_PodUID = ''uid-1''\<rparr>"

definition sample_rc :: reqctx where
  "sample_rc = \<lparr>rc_Subject = sample_subject, rc_RequestID = ''req_1'', rc_Source = \<lparr>src_IP = ''10.0.0.1'', src_UserAgent = []\<rparr>\<rparr>"

definition sample_env :: "write_outcome \<Rightarrow> env" where
  "sample_env oc = \<lparr>en_clock = (\<lambda>_. 0), en_rand = (\<lambda>k n. replicate n (CHR ''r'')), en_write = (\<lambda>_. oc),
     en_upstream = (\<lambda>_. sample_upstream), en_authn = (\<lambda>k tok. Inr sample_subject), en_crypto = sample_crypto,
     en_isPrint = (\<lambda>_. True)\<rparr>"

definition sample_config :: Config where
  "sample_config = \<lparr>cf_LeaseRatePerMinute = 0, cf_LeaseBurst = 0, cf_ClaimRatePerMinute = 0, cf_ClaimBurst = 0,
     cf_MaxBodyBytes = 0, cf_MaxContextBytes = 0, cf_MaxClaimBytes = 0, cf_MaxClaimsPerReq = 0\<rparr>"

definition sample_server :: server where
  "sample_server = New_Server sample_config sample_store
     [(''onepassword-connect'', POnePassword (NewOnePassword ''https://connect/''))] NewStore sample_emitter
     (NewSigner sample_crypto ''key'') NewMetrics"

definition sample_lease_req :: leaseRequest where
  "sample_lease_req = \<lparr>lq_Scope = ''db'', lq_TTLSeconds = 0, lq_Context = None\<rparr>"

definition sample_granted :: grant where
  "sample_granted = compile_grant (\<lambda>_. Inr hourly) sample_grant"

lemma sample_policy_ok: "policy_ok (Current (sv_policies sample_server))"
proof -
  have "Parse (ld_yaml sample_loader) (ld_cron sample_loader) (ld_sha256 sample_loader) ''raw'' = Inr (ps_current sample_store)"
    using sample_load(1) by (simp add: load_def)
  then have "policy_ok (ps_current sample_store)" by (rule Parse_ok)
  then show ?thesis by (simp add: sample_server_def New_Server_def Let_def Current_def)
qed

lemma sample_policies [simp]: "sv_policies sample_server = sample_store" "sv_tick sample_server = 0"
  "sv_leases sample_server = NewStore"
  "sv_providers sample_server = [(''onepassword-connect'', POnePassword (NewOnePassword ''https://connect/''))]"
  "sv_emitter sample_server = sample_emitter"
  by (simp_all add: sample_server_def New_Server_def Let_def)

lemma sample_key [simp]: "Key sample_subject = ''ns/sa''" "rc_Subject sample_rc = sample_subject"
  by (simp_all add: Key_def sample_subject_def sample_rc_def)

lemma sample_lookup:
  "GrantOf (ps_current sample_store) ''ns/sa'' ''db'' = Some sample_granted"
  "ScopeOf (ps_current sample_store) ''db'' = Some sample_scope"
  by (simp_all add: sample_store_def GrantOf_def ScopeOf_def compile_policy_def sample_doc_def subject_entry_def
      compile_subject_def grant_entries_def sample_granted_def compile_grant_def set_windows_def sample_grant_def
      sample_scope_def)

lemma sample_window_open: "WindowOpen sample_granted 0"
  by (simp add: WindowOpen_def sample_granted_def compile_grant_def set_windows_def sample_grant_def compile_window_def
      sample_window_def Open_def Let_def After_def Add_def hourly_def Minute_def Second_def)

lemma sample_clamp: "clampTTL 0 sample_granted = (Minute, True)"
  by (simp add: clampTTL_def sample_granted_def compile_grant_def set_windows_def sample_grant_def)

lemma New_Limiter_first:
  assumes "0 < b" "b \<le> 2 ^ 53"
  shows "fst (Allow t k (New_Limiter r b))"
proof -
  have f: "round64 (of_int b) = of_int b" using assms by (intro f64.fl_int) simp
  have "refill t k (New_Limiter r b) = of_int b"
    by (simp add: refill_def New_Limiter_def Let_def Sub_self float_of_int_def f fmul_def fadd_def f64.fl_0)
  then show ?thesis using assms(1) by (simp add: Allow_fst)
qed

text \<open>A server like the sample one in what issuance looks at.\<close>

definition like_sample :: "server \<Rightarrow> bool" where
  "like_sample s \<longleftrightarrow> Current (sv_policies s) = Current sample_store \<and> sv_cfg s = applyDefaults sample_config \<and>
     sv_providers s = [(''onepassword-connect'', POnePassword (NewOnePassword ''https://connect/''))] \<and>
     sv_leaseLimiter s = New_Limiter 10 10"

lemma like_sample_server: "like_sample sample_server" "like_sample (tick (tick sample_server))"
  by (simp_all add: like_sample_def sample_server_def New_Server_def Let_def)
    (simp_all add: applyDefaults_def sample_config_def)

lemma sample_allowed: "like_sample s \<Longrightarrow> fst (allow_lease e k s)"
  using New_Limiter_first [of 10] by (simp add: allow_lease_def split_beta Let_def like_sample_def)

lemma sample_emit: "fst (emit (sample_env Written) ev s) = None" "fst (emit (sample_env (Failed 0)) ev s) \<noteq> None"
  by (simp_all add: emit_def split_beta Let_def Emit_def sample_env_def sample_crypto_def)

lemma issue_record_status:
  "rp_status (fst (issue_record e rc pol req r up ttl l s)) =
     (if fst (emit e (base_event ''lease.issued'' (rc_RequestID rc) (Some (rc_Subject rc)) (Some (rc_Source rc))
             (issued_attested l ttl up pol) (case lq_Context req of None \<Rightarrow> [] | Some c \<Rightarrow> c)) s) = None then 201 else 500)"
  by (auto simp: issue_record_def split_beta Let_def auditFailClosed_def split: option.splits)

lemma create_issue_status:
  "rp_status (fst (create_issue (sample_env Written) rc pol req g prov ttl r s)) = 201"
  "rp_status (fst (create_issue (sample_env (Failed 0)) rc pol req g prov ttl r s)) = 500"
  by (simp_all add: create_issue_def split_beta Let_def issue_record_status sample_emit del: split_paired_Ex)

lemma sample_create_fetch:
  assumes "sv_providers s = [(''onepassword-connect'', POnePassword (NewOnePassword ''https://connect/''))]"
  shows "rp_status (fst (create_fetch (sample_env Written) rc pol sample_scope req g Minute s)) = 201"
    "rp_status (fst (create_fetch (sample_env (Failed 0)) rc pol sample_scope req g Minute s)) = 500"
proof -
  have sc: "s_Provider sample_scope = ''onepassword-connect''" by (simp add: sample_scope_def)
  have "snd (Fetch sample_upstream (POnePassword (NewOnePassword ''https://connect/''))
      \<lparr>rq_Ref = s_Ref sample_scope, rq_Fields = s_Fields sample_scope, rq_Params = s_Params sample_scope, rq_TTL = Minute\<rparr>) =
      Inr \<lparr>rs_Secret = [(''token'', ''hunter2'')], rs_ExpiresAt = zero_time\<rparr>"
    using sample_fetch(1) by (simp add: sample_request_def)
  then have "\<exists>s3. create_fetch (sample_env oc) rc pol sample_scope req g Minute s =
      create_issue (sample_env oc) rc pol req g (POnePassword (NewOnePassword ''https://connect/'')) Minute
        \<lparr>rs_Secret = [(''token'', ''hunter2'')], rs_ExpiresAt = zero_time\<rparr> s3" for oc
    using assms by (simp add: create_fetch_def sc Let_def split_beta sample_env_def) blast
  from this [of Written] this [of "Failed 0"] show
      "rp_status (fst (create_fetch (sample_env Written) rc pol sample_scope req g Minute s)) = 201"
      "rp_status (fst (create_fetch (sample_env (Failed 0)) rc pol sample_scope req g Minute s)) = 500"
    by (auto simp: create_issue_status)
qed

lemma sample_create_request:
  assumes "like_sample s" "Key (rc_Subject rc) = ''ns/sa''" "lq_Scope req = ''db''" "lq_TTLSeconds req = 0"
    and "length (render (JStrMap (lq_Context req))) \<le> 4096"
  shows "rp_status (fst (handleLeaseCreate (sample_env Written) rc (Decoded req) s)) = 201"
    "rp_status (fst (handleLeaseCreate (sample_env (Failed 0)) rc (Decoded req) s)) = 500"
proof -
  have *: "handleLeaseCreate (sample_env oc) rc (Decoded req) s =
      create_fetch (sample_env oc) rc (ps_current sample_store) sample_scope req sample_granted Minute
        (tick (snd (allow_lease (sample_env oc) ''ns/sa'' s)))" for oc
    using sample_allowed [OF assms(1), of "sample_env oc" "''ns/sa''"] sample_window_open sample_lookup sample_clamp assms
    by (simp add: handleLeaseCreate_def Let_def split_beta Current_def
        like_sample_def applyDefaults_def sample_config_def now_of_def sample_env_def)
  show "rp_status (fst (handleLeaseCreate (sample_env Written) rc (Decoded req) s)) = 201"
    "rp_status (fst (handleLeaseCreate (sample_env (Failed 0)) rc (Decoded req) s)) = 500"
    unfolding * by (rule sample_create_fetch, use assms(1) in \<open>simp add: like_sample_def\<close>)+
qed

lemma sample_create_like:
  assumes "like_sample s" "Key (rc_Subject rc) = ''ns/sa''"
  shows "rp_status (fst (handleLeaseCreate (sample_env Written) rc (Decoded sample_lease_req) s)) = 201"
    "rp_status (fst (handleLeaseCreate (sample_env (Failed 0)) rc (Decoded sample_lease_req) s)) = 500"
  by (rule sample_create_request [OF assms]; simp add: sample_lease_req_def JStrMap_def)+

lemma sample_rc_key: "Key (rc_Subject sample_rc) = ''ns/sa''"
  by simp

lemmas sample_create = sample_create_like [OF like_sample_server(1) sample_rc_key]

end
