(* ===== verification/Disclosure.thy ===== *)
theory Disclosure
  imports Broker_Sample
begin

text \<open>
  What the lease endpoint promises: no secret leaves the broker without a grant and a signed
  record, denials tell the caller nothing, and lifetimes stay within the policy.
\<close>

section \<open>Lifetimes\<close>

lemma clampTTL_cases:
  "clampTTL req g = (ttl, ok) \<longleftrightarrow>
     (sint req < 0 \<and> ttl = 0 \<and> \<not> ok) \<or>
     (req = 0 \<and> ttl = g_TTLDefault g \<and> ok) \<or>
     (0 < sint req \<and> ok \<and>
      ttl = word_of_int (min (sint req) (sint (word_of_int (quot (sint (g_TTLMax g)) 1000000000) :: int64))) * Second)"
proof -
  have "sint req = 0 \<longleftrightarrow> req = 0" by (metis signed_0 signed_eq_0_iff)
  then show ?thesis
    by (auto simp: clampTTL_def Let_def min_def not_less)
qed

lemma quot_range:
  assumes "0 < m" "m \<le> max_int64"
  shows "0 \<le> quot m 1000000000" "quot m 1000000000 * 1000000000 \<le> m" "quot m 1000000000 \<le> max_int64"
  using assms by (auto simp: quot_def max_int64_def)

text \<open>The clamp is exact: it works in whole seconds below the maximum, so the product that
  follows cannot wrap.\<close>

lemma clampTTL_seconds:
  assumes "ttl_valid g" "clampTTL req g = (ttl, True)" "req \<noteq> 0"
  shows "0 < sint req" "sint ttl = min (sint req) (sint (g_TTLMax g) div 1000000000) * 1000000000"
proof -
  let ?m = "sint (g_TTLMax g)"
  have m: "0 < ?m" "?m \<le> max_int64" using assms(1) sint_range [of "g_TTLMax g"] by (auto simp: ttl_valid_def)
  have q: "quot ?m 1000000000 = ?m div 1000000000" using m(1) by (simp add: quot_def)
  have qw: "sint (word_of_int (?m div 1000000000) :: int64) = ?m div 1000000000"
    using quot_range [OF m] by (simp add: sint_word_of_int_exact q min_int64_def max_int64_def)
  show pos: "0 < sint req" using assms by (auto simp: clampTTL_cases)
  let ?r = "min (sint req) (?m div 1000000000)"
  have r: "0 \<le> ?r" "?r * 1000000000 \<le> ?m"
  proof -
    show "0 \<le> ?r" using pos m(1) by simp
    have "?r * 1000000000 \<le> ?m div 1000000000 * 1000000000" by simp
    also have "\<dots> \<le> ?m" using m(1) by simp
    finally show "?r * 1000000000 \<le> ?m" .
  qed
  have "ttl = word_of_int ?r * Second" using assms pos by (auto simp: clampTTL_cases q qw)
  then have "ttl = word_of_int (?r * 1000000000)" by (simp add: Second_def)
  moreover have "sint (word_of_int (?r * 1000000000) :: int64) = ?r * 1000000000"
  proof (rule sint_word_of_int_exact)
    have "min_int64 \<le> x * 1000000000" if "0 \<le> x" for x :: int using that by (simp add: min_int64_def)
    then show "min_int64 \<le> ?r * 1000000000" using r(1) .
    show "?r * 1000000000 \<le> max_int64" using r(2) m(2) by (rule order_trans)
  qed
  ultimately show "sint ttl = ?r * 1000000000" by simp
qed

context grant_policy
begin

text \<open>Any lifetime the clamp admits for a grant of the policy is at most the grant's maximum.\<close>

lemma granted_lifetime:
  assumes "ok p" "grant_of p k n = Some g" "clampTTL req g = (ttl, True)"
  shows "0 \<le> sint ttl \<and> sint ttl \<le> sint (g_TTLMax g)"
proof (cases "req = 0")
  case True
  then show ?thesis using grant_lifetimes [OF assms(1,2)] assms(3) by (auto simp: clampTTL_cases ttl_valid_def)
next
  case False
  let ?m = "sint (g_TTLMax g)"
  have v: "ttl_valid g" by (rule grant_lifetimes [OF assms(1,2)])
  have "0 < ?m" using v by (simp add: ttl_valid_def)
  have "min (sint req) (?m div 1000000000) * 1000000000 \<le> ?m div 1000000000 * 1000000000" by simp
  also have "\<dots> \<le> ?m" using \<open>0 < ?m\<close> by simp
  finally have "min (sint req) (?m div 1000000000) * 1000000000 \<le> ?m" .
  then show ?thesis using clampTTL_seconds [OF v assms(3) False] \<open>0 < ?m\<close> by simp
qed

end

section \<open>Issuance\<close>

lemma deny_simps [simp]:
  "fst (deny e rc pol sc req st typ title why s) = writeProblem st typ title [] (rc_RequestID rc)"
  "sv_leases (snd (deny e rc pol sc req st typ title why s)) = sv_leases s"
  by (simp_all add: deny_def split_beta Let_def)

text \<open>A disclosure: the response carries the secret of an issued lease, the table holds that lease,
  and the stream has grown by exactly the signed line of its event.\<close>

definition disclosed :: "env \<Rightarrow> reqctx \<Rightarrow> Policy \<Rightarrow> leaseRequest \<Rightarrow> server \<Rightarrow> response \<Rightarrow> server \<Rightarrow>
    Lease \<Rightarrow> string gomap \<Rightarrow> Event \<Rightarrow> bool" where
  "disclosed e rc pol req s resp s' l secret ev \<longleftrightarrow>
     rp_status resp = 201 \<and> (\<exists>r. rp_body resp = BLease r \<and> lr_LeaseID r = l_ID l \<and> lr_Secret r = secret) \<and>
     sv_leases s' = (sv_leases s)(l_ID l \<mapsto> l) \<and> (\<exists>k \<ge> sv_tick s. l_ID l = NewID ''lease'' (en_rand e k 13)) \<and>
     l_SubjectKey l = Key (rc_Subject rc) \<and> l_Scope l = lq_Scope req \<and>
     em_out (sv_emitter s') = em_out (sv_emitter s) @ event_line ev \<and>
     em_seq (sv_emitter s') = em_seq (sv_emitter s) + 1 \<and> bi_Seq (ev_Broker ev) = em_seq (sv_emitter s) + 1 \<and>
     signed_by (en_crypto e) (em_signer (sv_emitter s)) ev \<and>
     ev_Type ev = ''lease.issued'' \<and> ev_RequestID ev = rc_RequestID rc \<and> ev_Subject ev = Some (rc_Subject rc) \<and>
     ev_Asserted ev = (case lq_Context req of None \<Rightarrow> [] | Some c \<Rightarrow> c) \<and>
     {(''lease_id'', JStr (l_ID l)), (''scope'', JStr (lq_Scope req)), (''policy_hash'', JStr (p_Hash pol)),
      (''expires_at'', JStr (format_rfc3339 (l_ExpiresAt l)))} \<subseteq> set (ev_Attested ev)"

text \<open>A refusal: no secret in the response.\<close>

definition no_secret :: "response \<Rightarrow> bool" where
  "no_secret resp \<longleftrightarrow> (case rp_body resp of BLease r \<Rightarrow> lr_Secret r = [] | _ \<Rightarrow> True)"

lemma no_secret_simps [simp]:
  "no_secret (writeProblem st typ title d rid)" "no_secret (writeHeader st)" "no_secret (writeJSON h st (BLease (leaseMeta l)))"
  "no_secret (writeJSON h st (BJson j))" "no_secret panicked"
  by (simp_all add: no_secret_def leaseMeta_def panicked_def)

definition issue_ttl :: "env \<Rightarrow> server \<Rightarrow> duration \<Rightarrow> Result \<Rightarrow> duration" where
  "issue_ttl e s ttl r = (if IsZero (rs_ExpiresAt r) then ttl else clamp_upstream (rs_ExpiresAt r) (now_of e s) ttl)"

lemma create_issue_cases:
  obtains (issued) l ev where
      "disclosed e rc pol req s (fst (create_issue e rc pol req g prov ttl r s)) (snd (create_issue e rc pol req g prov ttl r s)) l (rs_Secret r) ev"
      "l_ExpiresAt l = l_IssuedAt l + sint (issue_ttl e s ttl r)" "l_Renewable l = g_Renewable g"
  | (failed) lid where "rp_status (fst (create_issue e rc pol req g prov ttl r s)) = 500"
      "no_secret (fst (create_issue e rc pol req g prov ttl r s))"
      "sv_leases (snd (create_issue e rc pol req g prov ttl r s)) = (sv_leases s)(lid := None)"
      "\<exists>k \<ge> sv_tick s. lid = NewID ''lease'' (en_rand e k 13)"
proof -
  define s1 where "s1 = (if IsZero (rs_ExpiresAt r) then s else tick s)"
  define up where "up = (if IsZero (rs_ExpiresAt r) then [] else format_rfc3339 (rs_ExpiresAt r))"
  define l where "l = fst (Create (now_of e s1) (en_rand e (sv_tick s1) 13) (Key (rc_Subject rc)) (lq_Scope req)
    (Semantics prov) (issue_ttl e s ttl r) (g_Renewable g) (sv_leases s1))"
  define s2 where "s2 = tick s1\<lparr>sv_leases := (sv_leases s1)(l_ID l \<mapsto> l)\<rparr>"
  define ev where "ev = base_event ''lease.issued'' (rc_RequestID rc) (Some (rc_Subject rc)) (Some (rc_Source rc))
    (issued_attested l (issue_ttl e s ttl r) up pol) (case lq_Context req of None \<Rightarrow> [] | Some c \<Rightarrow> c)"
  have tab: "snd (Create (now_of e s1) (en_rand e (sv_tick s1) 13) (Key (rc_Subject rc)) (lq_Scope req)
      (Semantics prov) (issue_ttl e s ttl r) (g_Renewable g) (sv_leases s1)) = (sv_leases s1)(l_ID l \<mapsto> l)"
    by (simp add: l_def Create_def Let_def)
  have eq: "create_issue e rc pol req g prov ttl r s = issue_record e rc pol req r up (issue_ttl e s ttl r) l s2"
    unfolding s2_def tab [symmetric] by (simp add: create_issue_def l_def s1_def up_def issue_ttl_def split_beta Let_def)
  have frames: "sv_leases s1 = sv_leases s" "sv_emitter s1 = sv_emitter s" "sv_leases s2 = (sv_leases s)(l_ID l \<mapsto> l)"
      "sv_emitter s2 = sv_emitter s"
    by (simp_all add: s2_def s1_def)
  have lease: "l_SubjectKey l = Key (rc_Subject rc)" "l_Scope l = lq_Scope req" "l_Renewable l = g_Renewable g"
      "l_ExpiresAt l = l_IssuedAt l + sint (issue_ttl e s ttl r)"
    by (simp_all add: l_def Create_def Let_def Add_def)
  have drawn: "\<exists>k \<ge> sv_tick s. l_ID l = NewID ''lease'' (en_rand e k 13)"
    by (rule exI [of _ "sv_tick s1"]) (simp add: l_def s1_def Create_def Let_def tick_def)
  show ?thesis
  proof (cases rule: emit_cases [of e ev s2])
    case ok
    have "disclosed e rc pol req s (fst (create_issue e rc pol req g prov ttl r s))
        (snd (create_issue e rc pol req g prov ttl r s)) l (rs_Secret r) (emitted e ev s2)"
      using ok frames lease drawn
      by (simp add: disclosed_def eq issue_record_def ev_def [symmetric] split_beta Let_def)
        (auto simp: leaseMeta_def ev_def issued_attested_def)
    then show ?thesis using that(1) lease by blast
  next
    case (failed n err)
    then show ?thesis
      using that(2) [of "l_ID l"] frames drawn by (auto simp: eq issue_record_def ev_def [symmetric] split_beta Let_def auditFailClosed_def Remove_def)
  qed
qed

lemma disclosed_frame:
  "sv_leases t = sv_leases s \<Longrightarrow> sv_emitter t = sv_emitter s \<Longrightarrow> sv_tick s \<le> sv_tick t \<Longrightarrow>
   disclosed e rc pol req t resp s' l sec ev \<Longrightarrow> disclosed e rc pol req s resp s' l sec ev"
  unfolding disclosed_def by (auto intro: order_trans)

lemma issue_ttl_le: "sint (issue_ttl e s ttl r) \<le> sint ttl"
  by (simp add: issue_ttl_def clamp_upstream_def Let_def)

text \<open>The table after a refused issuance: as before, or without one newly drawn ID.\<close>

definition rolled_back :: "env \<Rightarrow> server \<Rightarrow> lease_table \<Rightarrow> bool" where
  "rolled_back e s t' \<longleftrightarrow> t' = sv_leases s \<or> (\<exists>k \<ge> sv_tick s. t' = (sv_leases s)(NewID ''lease'' (en_rand e k 13) := None))"

lemma create_fetch_cases:
  obtains (issued) l ev prov k r where
      "disclosed e rc pol req s (fst (create_fetch e rc pol sc req g ttl s)) (snd (create_fetch e rc pol sc req g ttl s)) l (rs_Secret r) ev"
      "map_of (sv_providers s) (s_Provider sc) = Some prov"
      "snd (Fetch (en_upstream e k) prov \<lparr>rq_Ref = s_Ref sc, rq_Fields = s_Fields sc, rq_Params = s_Params sc, rq_TTL = ttl\<rparr>) = Inr r"
      "l_ExpiresAt l \<le> l_IssuedAt l + sint ttl" "l_Renewable l = g_Renewable g"
  | (refused) "rp_status (fst (create_fetch e rc pol sc req g ttl s)) \<in> {500, 502}"
      "no_secret (fst (create_fetch e rc pol sc req g ttl s))"
      "rolled_back e s (sv_leases (snd (create_fetch e rc pol sc req g ttl s)))"
proof (cases "map_of (sv_providers s) (s_Provider sc)")
  case None
  then show ?thesis using refused by (simp add: create_fetch_def rolled_back_def)
next
  case (Some prov)
  let ?req = "\<lparr>rq_Ref = s_Ref sc, rq_Fields = s_Fields sc, rq_Params = s_Params sc, rq_TTL = ttl\<rparr>"
  let ?labels = "[(''provider'', s_Provider sc)]"
  define s3 where "s3 = metric_inc e ''acb_provider_duration_seconds_count'' ?labels
    (metric_add e ''acb_provider_duration_seconds_sum'' ?labels (Seconds (Sub (now_of e (tick s)) (now_of e s))) (tick (tick s)))"
  have s3: "sv_leases s3 = sv_leases s" "sv_emitter s3 = sv_emitter s" "sv_tick s \<le> sv_tick s3" by (simp_all add: s3_def tick_def)
  show ?thesis
  proof (cases "snd (Fetch (en_upstream e (sv_tick s)) prov ?req)")
    case (Inl err)
    then show ?thesis using refused Some by (simp add: create_fetch_def Let_def split_beta rolled_back_def)
  next
    case (Inr r)
    then have eq: "create_fetch e rc pol sc req g ttl s = create_issue e rc pol req g prov ttl r s3"
      using Some by (simp add: create_fetch_def Let_def split_beta s3_def)
    show ?thesis
    proof (cases rule: create_issue_cases [of e rc pol req s3 g prov ttl r])
      case (issued l ev)
      have d: "disclosed e rc pol req s (fst (create_fetch e rc pol sc req g ttl s)) (snd (create_fetch e rc pol sc req g ttl s)) l (rs_Secret r) ev"
        using disclosed_frame [OF s3 issued(1)] unfolding eq .
      show ?thesis
        using issued(2,3) issue_ttl_le [of e s3 ttl r] by (intro that(1) [OF d Some Inr]) simp_all
    next
      case (failed lid)
      then show ?thesis using refused s3 by (auto simp: eq rolled_back_def intro: order_trans)
    qed
  qed
qed

lemma handleLeaseCreate_cases [consumes 1]:
  assumes "policy_ok (Current (sv_policies s))"
  defines "pol \<equiv> Current (sv_policies s)"
  obtains (issued) req g sc l secret ev where "body = Decoded req"
      "GrantOf pol (Key (rc_Subject rc)) (lq_Scope req) = Some g" "ScopeOf pol (lq_Scope req) = Some sc"
      "WindowOpen g (en_clock e (Suc (sv_tick s)))"
      "disclosed e rc pol req s (fst (handleLeaseCreate e rc body s)) (snd (handleLeaseCreate e rc body s)) l secret ev"
      "map fst secret = map fst (s_Fields sc)" "\<forall>(k, v) \<in> set secret. v \<noteq> []"
      "l_ExpiresAt l \<le> l_IssuedAt l + sint (g_TTLMax g)"
  | (refused) "rp_status (fst (handleLeaseCreate e rc body s)) \<in> {400, 403, 429, 500, 502}"
      "no_secret (fst (handleLeaseCreate e rc body s))"
      "rolled_back e s (sv_leases (snd (handleLeaseCreate e rc body s)))"
proof -
  define s1 where "s1 = snd (allow_lease e (Key (rc_Subject rc)) s)"
  have s1: "sv_leases (tick s1) = sv_leases s" "sv_emitter (tick s1) = sv_emitter s" "sv_leases s1 = sv_leases s"
      "now_of e s1 = en_clock e (Suc (sv_tick s))" "sv_cfg s1 = sv_cfg s"
    by (simp_all add: s1_def now_of_def)
  have later: "sv_tick s \<le> sv_tick (tick s1)" by (simp add: s1_def allow_lease_def split_beta Let_def tick_def)
  note simps = handleLeaseCreate_def Let_def split_beta s1_def [symmetric] pol_def [symmetric] s1 rolled_back_def
  consider (limited) "\<not> fst (allow_lease e (Key (rc_Subject rc)) s)"
    | (bad) "fst (allow_lease e (Key (rc_Subject rc)) s)" "\<nexists>req. body = Decoded req"
    | (body) req where "fst (allow_lease e (Key (rc_Subject rc)) s)" "body = Decoded req"
    by blast
  then show ?thesis
  proof cases
    case limited
    then show ?thesis using refused by (simp add: simps)
  next
    case bad
    then show ?thesis using refused by (cases body) (simp_all add: simps)
  next
    case body
    consider (invalid) "lq_Scope req = [] \<or> int (length (render (JStrMap (lq_Context req)))) > cf_MaxContextBytes (sv_cfg s)"
      | (valid) "lq_Scope req \<noteq> []" "\<not> int (length (render (JStrMap (lq_Context req)))) > cf_MaxContextBytes (sv_cfg s)"
      by blast
    then show ?thesis
    proof cases
      case invalid
      then show ?thesis using refused body by (auto simp: simps)
    next
      case valid
      show ?thesis
      proof (cases "GrantOf pol (Key (rc_Subject rc)) (lq_Scope req)")
        case None
        then show ?thesis using refused body valid by (simp add: simps)
      next
        case (Some g)
        obtain sc where sc: "ScopeOf pol (lq_Scope req) = Some sc"
          using pol.granted_scope [OF assms(1)] Some unfolding pol_def by metis
        obtain ttl ok where clamp: "clampTTL (lq_TTLSeconds req) g = (ttl, ok)" by (cases "clampTTL (lq_TTLSeconds req) g")
        show ?thesis
        proof (cases "WindowOpen g (en_clock e (Suc (sv_tick s))) \<and> ok")
          case False
          then show ?thesis using refused body valid Some clamp by (cases ok) (auto simp: simps)
        next
          case True
          then have eq: "handleLeaseCreate e rc body s = create_fetch e rc pol sc req g ttl (tick s1)"
            using body valid Some clamp sc by (simp add: simps)
          have ttl: "sint ttl \<le> sint (g_TTLMax g)"
            using pol.granted_lifetime [OF assms(1), folded pol_def, OF Some, of "lq_TTLSeconds req" ttl] clamp True by simp
          show ?thesis
          proof (cases rule: create_fetch_cases [of e rc pol req "tick s1" sc g ttl])
            case (issued l ev prov k r)
            have d: "disclosed e rc pol req s (fst (handleLeaseCreate e rc body s)) (snd (handleLeaseCreate e rc body s)) l (rs_Secret r) ev"
              using disclosed_frame [OF s1(1,2) later issued(1)] unfolding eq .
            show ?thesis
              using issued(4) True ttl source.complete [OF issued(3)] source.nonempty [OF issued(3)]
              by (intro that(1) [OF body(2) Some sc _ d]) auto
          next
            case refused
            then show ?thesis using that(2) s1 later by (auto simp: eq rolled_back_def intro: order_trans)
          qed
        qed
      qed
    qed
  qed
qed

section \<open>Properties\<close>

text \<open>C1: no disclosure without a grant and a signed record. Whenever \<open>POST /v1/leases\<close> answers 201, or
  answers with any secret material at all, the policy grants the scope to the caller within an
  open window; the secret has exactly the fields of the scope, none empty; the lease is in the
  table, within the grant's maximal lifetime; and the audit stream has grown by exactly one
  line, the signed \<open>lease.issued\<close> event under the next sequence number that names the caller,
  the scope, the lease and its expiry.\<close>

theorem disclosure_audited:
  assumes "policy_ok (Current (sv_policies s))"
    and "rp_status (fst (handleLeaseCreate e rc body s)) = 201 \<or> \<not> no_secret (fst (handleLeaseCreate e rc body s))"
  shows "\<exists>req g sc l secret ev. body = Decoded req \<and>
    GrantOf (Current (sv_policies s)) (Key (rc_Subject rc)) (lq_Scope req) = Some g \<and>
    ScopeOf (Current (sv_policies s)) (lq_Scope req) = Some sc \<and>
    WindowOpen g (en_clock e (Suc (sv_tick s))) \<and>
    disclosed e rc (Current (sv_policies s)) req s (fst (handleLeaseCreate e rc body s)) (snd (handleLeaseCreate e rc body s)) l secret ev \<and>
    map fst secret = map fst (s_Fields sc) \<and> (\<forall>(k, v) \<in> set secret. v \<noteq> []) \<and>
    l_ExpiresAt l \<le> l_IssuedAt l + sint (g_TTLMax g)"
  using assms(1)
proof (cases rule: handleLeaseCreate_cases [of s body rc e])
  case (issued req g sc l secret ev)
  then show ?thesis by blast
next
  case refused
  then show ?thesis using assms(2) by auto
qed

text \<open>C2: a refused request discloses nothing and leaves no lease behind. Any other answer than 201,
  a failed audit write included, carries no secret, and the lease table is as it was, provided
  the random IDs drawn from then on are new.\<close>

theorem refusal_leaves_no_lease:
  assumes "policy_ok (Current (sv_policies s))"
    and "rp_status (fst (handleLeaseCreate e rc body s)) \<noteq> 201"
    and "\<And>k. sv_tick s \<le> k \<Longrightarrow> sv_leases s (NewID ''lease'' (en_rand e k 13)) = None"
  shows "no_secret (fst (handleLeaseCreate e rc body s)) \<and>
    sv_leases (snd (handleLeaseCreate e rc body s)) = sv_leases s \<and>
    rp_status (fst (handleLeaseCreate e rc body s)) \<in> {400, 403, 429, 500, 502}"
  using assms(1)
proof (cases rule: handleLeaseCreate_cases [of s body rc e])
  case (issued req g sc l secret ev)
  then show ?thesis using assms(2) by (simp add: disclosed_def)
next
  case refused
  then show ?thesis using assms(3) by (auto simp: rolled_back_def fun_upd_idem)
qed

text \<open>C9: denials are no oracle for scope names. A caller without a grant gets the same response for
  a scope that does not exist as for one that does: status, type, title and all.\<close>

theorem denial_uniform:
  assumes "GrantOf (Current (sv_policies s)) (Key (rc_Subject rc)) (lq_Scope req) = None"
    and "GrantOf (Current (sv_policies s)) (Key (rc_Subject rc)) (lq_Scope req') = None"
    and "lq_Scope req \<noteq> []" "lq_Scope req' \<noteq> []" "lq_Context req' = lq_Context req"
  shows "fst (handleLeaseCreate e rc (Decoded req) s) = fst (handleLeaseCreate e rc (Decoded req') s)"
  using assms by (simp add: handleLeaseCreate_def Let_def split_beta)

text \<open>C17: the granted lifetime. For a grant of a loaded policy a negative request is rejected; no
  request means the default; any other, up to the largest \<open>int64\<close>, gives the requested seconds
  or the whole seconds of the maximum, whichever is less, without overflow, and never more than
  \<open>ttlMax\<close>.\<close>

theorem clampTTL_exact:
  assumes "Parse yaml cronParse sha256 raw = Inr p" "GrantOf p k sc = Some g" "clampTTL req g = (ttl, ok)"
  shows "ok = (0 \<le> sint req) \<and>
    (ok \<longrightarrow> 0 \<le> sint ttl \<and> sint ttl \<le> sint (g_TTLMax g) \<and>
      sint ttl = (if req = 0 then sint (g_TTLDefault g)
                  else min (sint req) (sint (g_TTLMax g) div 1000000000) * 1000000000))"
proof -
  have p: "policy_ok p" using Parse_ok [OF assms(1)] .
  have v: "ttl_valid g" by (rule pol.grant_lifetimes [OF p assms(2)])
  show ?thesis
  proof (cases ok)
    case True
    then have c: "clampTTL req g = (ttl, True)" using assms(3) by simp
    then show ?thesis
      using pol.granted_lifetime [OF p assms(2) c] clampTTL_seconds [OF v c] True
      by (auto simp: clampTTL_cases)
  next
    case False
    then show ?thesis using assms(3) by (auto simp: clampTTL_cases)
  qed
qed

theorem disclosure_audited_witness:
  "\<exists>l secret ev. disclosed (sample_env Written) sample_rc (Current (sv_policies sample_server)) sample_lease_req sample_server
     (fst (handleLeaseCreate (sample_env Written) sample_rc (Decoded sample_lease_req) sample_server))
     (snd (handleLeaseCreate (sample_env Written) sample_rc (Decoded sample_lease_req) sample_server)) l secret ev \<and>
   map fst secret = [''token'']"
proof -
  from disclosure_audited [OF sample_policy_ok disjI1 [OF sample_create(1)]]
  obtain req g sc l secret ev where *: "Decoded sample_lease_req = Decoded req"
      "ScopeOf (Current (sv_policies sample_server)) (lq_Scope req) = Some sc"
      "disclosed (sample_env Written) sample_rc (Current (sv_policies sample_server)) req sample_server
        (fst (handleLeaseCreate (sample_env Written) sample_rc (Decoded sample_lease_req) sample_server))
        (snd (handleLeaseCreate (sample_env Written) sample_rc (Decoded sample_lease_req) sample_server)) l secret ev"
      "map fst secret = map fst (s_Fields sc)"
    by blast
  have "lq_Scope sample_lease_req = ''db''" by (simp add: sample_lease_req_def)
  then have "sc = sample_scope" using * sample_lookup(2) by (simp add: Current_def)
  then have "map fst secret = [''token'']" using *(4) by (simp add: sample_scope_def)
  moreover have req: "req = sample_lease_req" using *(1) by simp
  ultimately show ?thesis using *(3) unfolding req by (intro exI conjI)
qed

theorem refusal_leaves_no_lease_witness:
  "sv_leases (snd (handleLeaseCreate (sample_env (Failed 0)) sample_rc (Decoded sample_lease_req) sample_server)) = NewStore"
  using refusal_leaves_no_lease [OF sample_policy_ok, of "sample_env (Failed 0)" sample_rc "Decoded sample_lease_req"] sample_create(2)
  by (simp add: NewStore_def)

lemma sample_ungranted:
  "GrantOf (Current (sv_policies sample_server)) (Key (rc_Subject (sample_rc\<lparr>rc_Subject := sample_subject\<lparr>sub_Namespace := ''x''\<rparr>\<rparr>))) n = None"
  by (simp add: Current_def sample_store_def GrantOf_def compile_policy_def sample_doc_def subject_entry_def
      compile_subject_def Key_def sample_subject_def)

theorem denial_uniform_witness:
  "fst (handleLeaseCreate (sample_env Written) (sample_rc\<lparr>rc_Subject := sample_subject\<lparr>sub_Namespace := ''x''\<rparr>\<rparr>)
      (Decoded sample_lease_req) sample_server) =
   fst (handleLeaseCreate (sample_env Written) (sample_rc\<lparr>rc_Subject := sample_subject\<lparr>sub_Namespace := ''x''\<rparr>\<rparr>)
      (Decoded (sample_lease_req\<lparr>lq_Scope := ''nope''\<rparr>)) sample_server)"
  by (rule denial_uniform [OF sample_ungranted sample_ungranted]) (simp_all add: sample_lease_req_def)

theorem clampTTL_exact_witness:
  "sint (fst (clampTTL 9223372036854775807 sample_granted)) = 3600000000000"
proof -
  have g: "GrantOf sample_policy ''ns/sa'' ''db'' = Some sample_granted"
    by (simp add: sample_policy_def GrantOf_def compile_policy_def sample_doc_def subject_entry_def
        compile_subject_def grant_entries_def sample_granted_def compile_grant_def set_windows_def sample_grant_def)
  show ?thesis
    using clampTTL_exact [OF sample_parse g, of 9223372036854775807 "fst (clampTTL 9223372036854775807 sample_granted)"
        "snd (clampTTL 9223372036854775807 sample_granted)"]
    by (simp add: sample_granted_def compile_grant_def set_windows_def sample_grant_def Hour_def Minute_def Second_def)
qed

end
