(* ===== verification/Lifecycle.thy ===== *)
theory Lifecycle
  imports Disclosure
begin

text \<open>
  The life of a lease after its issuance, as the endpoints drive it: renewal under the current
  policy, surrender, reading, claims against it, its expiry in the record, and the isolation of
  subjects from each other.
\<close>

section \<open>Renewal\<close>

text \<open>What one signed line of the stream attests.\<close>

definition attests :: "env \<Rightarrow> reqctx \<Rightarrow> server \<Rightarrow> server \<Rightarrow> string \<Rightarrow> (string \<times> json) list \<Rightarrow> bool" where
  "attests e rc s s' typ facts \<longleftrightarrow>
     (\<exists>ev. em_out (sv_emitter s') = em_out (sv_emitter s) @ event_line ev \<and>
        em_seq (sv_emitter s') = em_seq (sv_emitter s) + 1 \<and> bi_Seq (ev_Broker ev) = em_seq (sv_emitter s) + 1 \<and>
        signed_by (en_crypto e) (em_signer (sv_emitter s)) ev \<and> ev_Type ev = typ \<and>
        ev_Subject ev = Some (rc_Subject rc) \<and> ev_RequestID ev = rc_RequestID rc \<and> set facts \<subseteq> set (ev_Attested ev))"

lemma emit_attests:
  assumes "fst (emit e (base_event typ (rc_RequestID rc) (Some (rc_Subject rc)) src facts ass) s) = None"
  shows "attests e rc s (snd (emit e (base_event typ (rc_RequestID rc) (Some (rc_Subject rc)) src facts ass) s)) typ facts"
  by (cases rule: emit_cases [of e "base_event typ (rc_RequestID rc) (Some (rc_Subject rc)) src facts ass" s])
    (use assms in \<open>auto simp: attests_def\<close>)

lemma attests_frame:
  "sv_emitter s1 = sv_emitter s \<Longrightarrow> attests e rc s1 s' typ facts = attests e rc s s' typ facts"
  by (simp add: attests_def)

text \<open>The lease may be renewed at the clock reading: present, unsurrendered, unexpired, renewable.\<close>

definition renewable_at :: "time \<Rightarrow> Lease \<Rightarrow> bool" where
  "renewable_at now l \<longleftrightarrow> \<not> l_Surrendered l \<and> now \<le> l_ExpiresAt l \<and> l_Renewable l"

lemma Renew_cases:
  assumes "t lid = Some l"
  obtains (renewed) "renewable_at n1 l"
      "Renew n1 n2 lid ttl t = (Some (l\<lparr>l_ExpiresAt := Add n2 ttl\<rparr>), [], t(lid \<mapsto> l\<lparr>l_ExpiresAt := Add n2 ttl\<rparr>))"
  | (refused) outcome where "\<not> renewable_at n1 l" "Renew n1 n2 lid ttl t = (None, outcome, t)" "outcome \<noteq> []"
proof (cases "renewable_at n1 l")
  case True
  then show ?thesis using renewed assms by (simp add: Renew_def renewable_at_def After_def Let_def)
next
  case False
  then have "\<exists>outcome. Renew n1 n2 lid ttl t = (None, outcome, t) \<and> outcome \<noteq> []"
    using assms by (auto simp: Renew_def renewable_at_def After_def)
  then show ?thesis using refused False by blast
qed

lemma renew_apply_cases:
  fixes e :: env and s :: server and l :: Lease and ttl :: duration
  assumes "sv_leases s lid = Some l"
  defines "n1 \<equiv> now_of e s" and "n2 \<equiv> now_of e (tick s)"
  defines "l' \<equiv> l\<lparr>l_ExpiresAt := Add n2 ttl\<rparr>"
  obtains (renewed) "renewable_at n1 l" "fst (renew_apply e rc lid pol ttl s) = writeJSON [] 200 (BLease (leaseMeta l'))"
      "sv_leases (snd (renew_apply e rc lid pol ttl s)) = (sv_leases s)(lid \<mapsto> l')"
      "attests e rc s (snd (renew_apply e rc lid pol ttl s)) ''lease.renewed'' (renewed_attested l' pol)"
  | (unaudited) "renewable_at n1 l" "rp_status (fst (renew_apply e rc lid pol ttl s)) = 500"
      "no_secret (fst (renew_apply e rc lid pol ttl s))"
      "sv_leases (snd (renew_apply e rc lid pol ttl s)) = (sv_leases s)(lid \<mapsto> l'\<lparr>l_Surrendered := True\<rparr>)"
  | (refused) "\<not> renewable_at n1 l" "rp_status (fst (renew_apply e rc lid pol ttl s)) = 409"
      "no_secret (fst (renew_apply e rc lid pol ttl s))"
      "sv_leases (snd (renew_apply e rc lid pol ttl s)) = sv_leases s"
      "sv_emitter (snd (renew_apply e rc lid pol ttl s)) = sv_emitter s"
proof (cases rule: Renew_cases [where t = "sv_leases s", OF assms(1), of n1 n2 ttl])
  case 1
  define s1 where "s1 = tick (tick s)\<lparr>sv_leases := (sv_leases s)(lid \<mapsto> l')\<rparr>"
  define ev where "ev = base_event ''lease.renewed'' (rc_RequestID rc) (Some (rc_Subject rc)) (Some (rc_Source rc))
    (renewed_attested l' pol) []"
  have eq: "renew_apply e rc lid pol ttl s =
      (case fst (emit e ev s1) of
         Some x \<Rightarrow> auditFailClosed e (rc_RequestID rc)
           (snd (emit e ev s1)\<lparr>sv_leases := snd (snd (Surrender lid (sv_leases (snd (emit e ev s1)))))\<rparr>)
       | None \<Rightarrow> (writeJSON [] 200 (BLease (leaseMeta l')), snd (emit e ev s1)))"
    using 1(2) by (simp add: renew_apply_def n1_def n2_def l'_def s1_def ev_def split_beta Let_def split: option.split)
  have s1: "sv_leases s1 = (sv_leases s)(lid \<mapsto> l')" "sv_emitter s1 = sv_emitter s" by (simp_all add: s1_def)
  show ?thesis
  proof (cases "fst (emit e ev s1)")
    case None
    have "attests e rc s1 (snd (emit e ev s1)) ''lease.renewed'' (renewed_attested l' pol)"
      unfolding ev_def by (rule emit_attests) (use None in \<open>simp add: ev_def\<close>)
    then have "attests e rc s (snd (emit e ev s1)) ''lease.renewed'' (renewed_attested l' pol)"
      by (simp only: attests_frame [OF s1(2)])
    then show ?thesis using renewed 1(1) None s1 by (simp add: eq)
  next
    case (Some x)
    have "\<not> l_Surrendered l'" using 1(1) by (simp add: l'_def renewable_at_def)
    then show ?thesis
      using unaudited 1(1) Some s1 by (simp add: eq auditFailClosed_def Surrender_def Let_def)
  qed
next
  case (2 outcome)
  then show ?thesis using refused by (simp add: renew_apply_def n1_def n2_def split_beta)
qed

text \<open>The guards before \<open>Renew\<close>: the caller owns the lease and the current policy still grants its
  scope as renewable.\<close>

definition may_renew :: "reqctx \<Rightarrow> server \<Rightarrow> Lease \<Rightarrow> grant \<Rightarrow> bool" where
  "may_renew rc s l g \<longleftrightarrow> l_SubjectKey l = Key (rc_Subject rc) \<and>
     GrantOf (Current (sv_policies s)) (Key (rc_Subject rc)) (l_Scope l) = Some g \<and> g_Renewable g"

lemma handleLeaseRenew_cases:
  obtains (applied) l g ttl s1 req where "sv_leases s lid = Some l" "may_renew rc s l g" "clampTTL req g = (ttl, True)"
      "handleLeaseRenew e rc lid body s = renew_apply e rc lid (Current (sv_policies s)) ttl s1"
      "sv_leases s1 = sv_leases s" "sv_emitter s1 = sv_emitter s" "sv_tick s1 = Suc (sv_tick s)"
  | (stopped) "rp_status (fst (handleLeaseRenew e rc lid body s)) \<in> {400, 403, 404, 409, 429}"
      "no_secret (fst (handleLeaseRenew e rc lid body s))"
      "sv_leases (snd (handleLeaseRenew e rc lid body s)) = sv_leases s"
proof -
  define s1 where "s1 = snd (allow_lease e (Key (rc_Subject rc)) s)"
  have s1: "sv_leases s1 = sv_leases s" "sv_emitter s1 = sv_emitter s" "sv_tick s1 = Suc (sv_tick s)" "sv_policies s1 = sv_policies s"
    by (simp_all add: s1_def)
  note simps = handleLeaseRenew_def Let_def split_beta s1_def [symmetric] s1 Get_def
  show ?thesis
  proof (cases "fst (allow_lease e (Key (rc_Subject rc)) s) \<and> sv_leases s lid \<noteq> None")
    case False
    then show ?thesis using stopped by (cases "fst (allow_lease e (Key (rc_Subject rc)) s)") (simp_all add: simps)
  next
    case True
    then obtain l where l: "fst (allow_lease e (Key (rc_Subject rc)) s)" "sv_leases s lid = Some l" by blast
    let ?g = "GrantOf (Current (sv_policies s)) (Key (rc_Subject rc)) (l_Scope l)"
    let ?req = "case body of Decoded n \<Rightarrow> n | _ \<Rightarrow> 0"
    show ?thesis
    proof (cases "\<exists>g. may_renew rc s l g \<and> body \<noteq> DecodeError_body \<and> snd (clampTTL ?req g)")
      case True
      then obtain g where g: "may_renew rc s l g" "body \<noteq> DecodeError_body" "snd (clampTTL ?req g)" by blast
      then have c: "clampTTL ?req g = (fst (clampTTL ?req g), True)" by (cases "clampTTL ?req g") simp
      show ?thesis
        by (rule applied [OF l(2) g(1) c _ s1(1-3)])
          (use l g c in \<open>auto simp: simps may_renew_def split: prod.splits\<close>)
    next
      case False
      then show ?thesis
        using stopped l
        by (cases ?g; cases "clampTTL ?req (the ?g)"; cases "snd (clampTTL ?req (the ?g))")
          (auto simp: simps may_renew_def)
    qed
  qed
qed

section \<open>Surrender\<close>

lemma handleLeaseSurrender_cases:
  obtains (marked) l where "sv_leases s lid = Some l" "l_SubjectKey l = Key (rc_Subject rc)" "\<not> l_Surrendered l"
      "fst (handleLeaseSurrender e rc lid s) = writeHeader 204"
      "sv_leases (snd (handleLeaseSurrender e rc lid s)) = (sv_leases s)(lid \<mapsto> l\<lparr>l_Surrendered := True\<rparr>)"
      "attests e rc s (snd (handleLeaseSurrender e rc lid s)) ''lease.surrendered''
        [(''scope'', JStr (l_Scope l)), (''lease_id'', JStr (l_ID l))]"
  | (again) l where "sv_leases s lid = Some l" "l_SubjectKey l = Key (rc_Subject rc)" "l_Surrendered l"
      "fst (handleLeaseSurrender e rc lid s) = writeHeader 204"
      "sv_leases (snd (handleLeaseSurrender e rc lid s)) = sv_leases s"
      "sv_emitter (snd (handleLeaseSurrender e rc lid s)) = sv_emitter s"
  | (stopped) "rp_status (fst (handleLeaseSurrender e rc lid s)) \<in> {403, 404, 429, 500}"
      "no_secret (fst (handleLeaseSurrender e rc lid s))"
      "sv_leases (snd (handleLeaseSurrender e rc lid s)) = sv_leases s"
proof -
  define s1 where "s1 = snd (allow_lease e (Key (rc_Subject rc)) s)"
  have s1: "sv_leases s1 = sv_leases s" "sv_emitter s1 = sv_emitter s" "sv_policies s1 = sv_policies s"
    by (simp_all add: s1_def)
  note simps = handleLeaseSurrender_def Let_def split_beta s1_def [symmetric] s1 Get_def
  show ?thesis
  proof (cases "fst (allow_lease e (Key (rc_Subject rc)) s) \<and> (\<exists>l. sv_leases s lid = Some l \<and> l_SubjectKey l = Key (rc_Subject rc))")
    case False
    then show ?thesis
      using stopped by (cases "fst (allow_lease e (Key (rc_Subject rc)) s)"; cases "sv_leases s lid") (auto simp: simps)
  next
    case True
    then obtain l where l: "fst (allow_lease e (Key (rc_Subject rc)) s)" "sv_leases s lid = Some l" "l_SubjectKey l = Key (rc_Subject rc)"
      by blast
    show ?thesis
    proof (cases "l_Surrendered l")
      case True
      then show ?thesis using again l by (simp add: simps)
    next
      case False
      let ?facts = "[(''scope'', JStr (l_Scope l)), (''lease_id'', JStr (l_ID l)), (''policy_hash'', JStr (p_Hash (Current (sv_policies s))))]"
      define ev where "ev = base_event ''lease.surrendered'' (rc_RequestID rc) (Some (rc_Subject rc)) (Some (rc_Source rc)) ?facts []"
      show ?thesis
      proof (cases "fst (emit e ev s1)")
        case None
        have "attests e rc s1 (snd (emit e ev s1)) ''lease.surrendered'' ?facts"
          unfolding ev_def by (rule emit_attests) (use None in \<open>simp add: ev_def\<close>)
        then have "attests e rc s (snd (emit e ev s1)) ''lease.surrendered'' ?facts"
          by (simp only: attests_frame [OF s1(2)])
        then show ?thesis
          using marked l False None by (simp add: simps ev_def [symmetric] Surrender_def attests_def) blast
      next
        case (Some x)
        then show ?thesis using stopped l False by (simp add: simps ev_def [symmetric] auditFailClosed_def)
      qed
    qed
  qed
qed

section \<open>Claims\<close>

text \<open>The event that records one claim.\<close>

definition records_claim :: "env \<Rightarrow> Signer \<Rightarrow> reqctx \<Rightarrow> string gomap option \<times> string \<Rightarrow> Event \<Rightarrow> bool" where
  "records_claim e sg rc ci ev \<longleftrightarrow> signed_by (en_crypto e) sg ev \<and> ev_Type ev = ''claim.recorded'' \<and>
     ev_Subject ev = Some (rc_Subject rc) \<and> ev_RequestID ev = rc_RequestID rc \<and>
     ev_Asserted ev = (case fst ci of None \<Rightarrow> [] | Some m \<Rightarrow> m) \<and> (''claim_id'', JStr (snd ci)) \<in> set (ev_Attested ev)"

lemma claims_emit_frame [simp, frame]:
  "sv_leases (snd (claims_emit e rc lid cs ids s)) = sv_leases s"
  "sv_policies (snd (claims_emit e rc lid cs ids s)) = sv_policies s"
  by (induction cs arbitrary: ids s) (simp_all add: Let_def split_beta split: option.split)

lemma claims_emit_Some:
  assumes "claims_emit e rc lid cs ids s = (Some ids', s')"
  shows "\<exists>new evs. ids' = ids @ new \<and> length new = length cs \<and>
    list_all2 (records_claim e (em_signer (sv_emitter s)) rc) (zip cs new) evs \<and>
    em_out (sv_emitter s') = em_out (sv_emitter s) @ concat (map event_line evs) \<and>
    em_seq (sv_emitter s') = em_seq (sv_emitter s) + of_nat (length cs)"
  using assms
proof (induction cs arbitrary: ids s)
  case Nil
  then show ?case by (intro exI [of _ "[]"]) simp
next
  case (Cons c cs)
  define cid where "cid = NewID ''claim'' (en_rand e (sv_tick s) 13)"
  define ev where "ev = claim_event rc lid c cid"
  let ?s = "snd (emit e ev (tick s))"
  show ?case
  proof (cases rule: emit_cases [of e ev "tick s"])
    case ok
    then have "claims_emit e rc lid cs (ids @ [cid]) ?s = (Some ids', s')"
      using Cons.prems by (simp add: Let_def split_beta cid_def [symmetric] ev_def [symmetric])
    then obtain new evs where IH: "ids' = (ids @ [cid]) @ new" "length new = length cs"
        "list_all2 (records_claim e (em_signer (sv_emitter ?s)) rc) (zip cs new) evs"
        "em_out (sv_emitter s') = em_out (sv_emitter ?s) @ concat (map event_line evs)"
        "em_seq (sv_emitter s') = em_seq (sv_emitter ?s) + of_nat (length cs)"
      using Cons.IH by blast
    have "records_claim e (em_signer (sv_emitter s)) rc (c, cid) (emitted e ev (tick s))"
      using ok(3) by (simp add: records_claim_def ev_def claim_event_def)
    then show ?thesis
      using IH ok(2) by (intro exI [of _ "cid # new"] exI [of _ "emitted e ev (tick s) # evs"]) simp
  next
    case (failed n err)
    then show ?thesis using Cons.prems by (simp add: Let_def split_beta cid_def [symmetric] ev_def [symmetric])
  qed
qed

lemma claims_size_Some:
  "claims_size maxBytes cs n = Some r \<Longrightarrow> \<forall>c \<in> set cs. int (length (render (JStrMap c))) \<le> maxBytes"
  by (induction maxBytes cs n rule: claims_size.induct) (auto simp: Let_def split: if_splits)

lemma auditFailClosed_simps [simp]:
  "fst (auditFailClosed e rid s) = writeProblem 500 ProblemAuditUnavailable ''audit event could not be written; request failed closed'' [] rid"
  "sv_leases (snd (auditFailClosed e rid s)) = sv_leases s" "sv_emitter (snd (auditFailClosed e rid s)) = sv_emitter s"
  by (simp_all add: auditFailClosed_def)

definition claim_lease_ok :: "reqctx \<Rightarrow> server \<Rightarrow> claimsRequest \<Rightarrow> bool" where
  "claim_lease_ok rc s req \<longleftrightarrow> cq_LeaseID req = [] \<or>
     (\<exists>l. sv_leases s (cq_LeaseID req) = Some l \<and> l_SubjectKey l = Key (rc_Subject rc))"

lemma handleClaims_cases:
  obtains (accepted) req ids n s2 s3 where "body = Decoded req" "claim_lease_ok rc s req" "cq_Claims req \<noteq> []"
      "int (length (cq_Claims req)) \<le> cf_MaxClaimsPerReq (sv_cfg s)"
      "claims_size (cf_MaxClaimBytes (sv_cfg s)) (cq_Claims req) 0 = Some n"
      "fst (Spend (en_clock e (Suc (sv_tick s))) (Key (rc_Subject rc)) n
        (ClaimBytesCap (Current (sv_policies s)) (Key (rc_Subject rc))) (sv_claimBudget s))"
      "claims_emit e rc (cq_LeaseID req) (cq_Claims req) [] s2 = (Some ids, s3)" "sv_emitter s2 = sv_emitter s"
      "sv_emitter (snd (handleClaims e rc body s)) = sv_emitter s3"
      "fst (handleClaims e rc body s) = writeJSON [] 202 (BJson (JObj [(''claim_ids'', JArr (map JStr ids))]))"
      "sv_leases (snd (handleClaims e rc body s)) = sv_leases s"
  | (stopped) "rp_status (fst (handleClaims e rc body s)) \<in> {400, 403, 429, 500}"
      "no_secret (fst (handleClaims e rc body s))" "sv_leases (snd (handleClaims e rc body s)) = sv_leases s"
proof -
  let ?k = "Key (rc_Subject rc)"
  define s1 where "s1 = snd (allow_claim e ?k s)"
  have s1: "sv_leases s1 = sv_leases s" "sv_emitter s1 = sv_emitter s" "sv_policies s1 = sv_policies s" "sv_cfg s1 = sv_cfg s"
      "sv_claimBudget s1 = sv_claimBudget s" "now_of e s1 = en_clock e (Suc (sv_tick s))"
    by (simp_all add: s1_def now_of_def) (simp add: allow_claim_def split_beta Let_def)
  note simps = handleClaims_def Let_def split_beta s1_def [symmetric] s1 Get_def
  show ?thesis
  proof (cases "fst (allow_claim e ?k s) \<and> (\<exists>req. body = Decoded req)")
    case False
    then show ?thesis using stopped by (cases body) (auto simp: simps)
  next
    case True
    then obtain req where req: "fst (allow_claim e ?k s)" "body = Decoded req" by blast
    show ?thesis
    proof (cases "cq_Claims req \<noteq> [] \<and> int (length (cq_Claims req)) \<le> cf_MaxClaimsPerReq (sv_cfg s) \<and>
        claims_size (cf_MaxClaimBytes (sv_cfg s)) (cq_Claims req) 0 \<noteq> None \<and> claim_lease_ok rc s req")
      case False
      then show ?thesis using stopped req by (auto simp: simps claim_lease_ok_def split: option.split)
    next
      case True
      then obtain n where n: "claims_size (cf_MaxClaimBytes (sv_cfg s)) (cq_Claims req) 0 = Some n" by blast
      let ?sp = "Spend (en_clock e (Suc (sv_tick s))) ?k n (ClaimBytesCap (Current (sv_policies s)) ?k) (sv_claimBudget s)"
      define s2 where "s2 = tick s1\<lparr>sv_claimBudget := snd ?sp\<rparr>"
      have s2: "sv_leases s2 = sv_leases s" "sv_emitter s2 = sv_emitter s" by (simp_all add: s2_def s1)
      have lease: "\<not> (cq_LeaseID req \<noteq> [] \<and> (case sv_leases s (cq_LeaseID req) of None \<Rightarrow> True | Some l \<Rightarrow> l_SubjectKey l \<noteq> ?k))"
        using True by (auto simp: claim_lease_ok_def)
      have eq: "handleClaims e rc body s =
          (if \<not> fst ?sp then
             (writeProblem 429 ProblemRateLimited ''daily claim-bytes cap exceeded'' [] (rc_RequestID rc),
              metric_inc e ''acb_rate_limited_total'' [(''subject'', ?k)] s2)
           else case claims_emit e rc (cq_LeaseID req) (cq_Claims req) [] s2 of
                  (None, s3) \<Rightarrow> auditFailClosed e (rc_RequestID rc) s3
                | (Some ids, s3) \<Rightarrow>
                    (writeJSON [] 202 (BJson (JObj [(''claim_ids'', JArr (map JStr ids))])),
                     metric_inc e ''acb_claims_recorded_total'' [(''subject'', ?k)] s3))"
        using req True n by (simp add: simps s2_def not_less) (use lease in blast)
      show ?thesis
      proof (cases "fst ?sp")
        case False
        then show ?thesis using stopped s2 by (simp add: eq)
      next
        case spent: True
        obtain r s3 where r: "claims_emit e rc (cq_LeaseID req) (cq_Claims req) [] s2 = (r, s3)"
          by (cases "claims_emit e rc (cq_LeaseID req) (cq_Claims req) [] s2")
        have s3: "sv_leases s3 = sv_leases s"
          using claims_emit_frame(1) [of e rc "cq_LeaseID req" "cq_Claims req" "[]" s2] r s2 by simp
        show ?thesis
        proof (cases r)
          case None
          then show ?thesis using stopped spent r s3 by (simp add: eq)
        next
          case (Some ids)
          then show ?thesis
            using accepted [OF req(2) _ _ _ n spent r [unfolded Some] s2(2)] True spent r s3 by (simp add: eq)
        qed
      qed
    qed
  qed
qed

section \<open>Who may touch which lease\<close>

text \<open>Only issuance carries a secret, and only to an authenticated caller.\<close>

lemma mux_no_secret: "\<not> no_secret (fst (mux e rt rc s)) \<Longrightarrow> \<exists>body. rt = PostLeases body"
proof (cases rt)
  case (PostRenew lid body)
  moreover have "no_secret (fst (handleLeaseRenew e rc lid body s))"
  proof (cases rule: handleLeaseRenew_cases [of s lid rc e body])
    case (applied l g ttl s1 req)
    have l1: "sv_leases s1 lid = Some l" using applied(1,5) by simp
    show ?thesis unfolding applied(4)
      by (cases rule: renew_apply_cases [OF l1, of e rc "Current (sv_policies s)" ttl]) simp_all
  qed
  ultimately show "\<not> no_secret (fst (mux e rt rc s)) \<Longrightarrow> ?thesis" by simp
next
  case (DeleteLease lid)
  then show "\<not> no_secret (fst (mux e rt rc s)) \<Longrightarrow> ?thesis"
    by (cases rule: handleLeaseSurrender_cases [of s lid rc e]) simp_all
next
  case (GetLease lid)
  then show "\<not> no_secret (fst (mux e rt rc s)) \<Longrightarrow> ?thesis"
    by (simp add: handleLeaseGet_def split: option.splits if_splits)
next
  case (PostClaims body)
  then show "\<not> no_secret (fst (mux e rt rc s)) \<Longrightarrow> ?thesis"
    by (cases rule: handleClaims_cases [of body rc s e]) simp_all
next
  case GetWhoami
  then show "\<not> no_secret (fst (mux e rt rc s)) \<Longrightarrow> ?thesis" by (simp add: handleWhoami_def Let_def)
qed simp

lemma mux_other_lease:
  assumes "policy_ok (Current (sv_policies s))" "sv_leases s lid = Some l" "l_SubjectKey l \<noteq> Key (rc_Subject rc)"
    and fresh: "\<And>k. sv_tick s \<le> k \<Longrightarrow> lid \<noteq> NewID ''lease'' (en_rand e k 13)"
  shows "sv_leases (snd (mux e rt rc s)) lid = Some l"
proof (cases rt)
  case (PostLeases body)
  show ?thesis
    using assms(1)
  proof (cases rule: handleLeaseCreate_cases [of s body rc e])
    case (issued req g sc l' secret ev)
    then have "l_ID l' \<noteq> lid" and "sv_leases (snd (handleLeaseCreate e rc body s)) = (sv_leases s)(l_ID l' \<mapsto> l')"
      using fresh by (auto simp: disclosed_def)
    then show ?thesis using PostLeases assms(2) by simp
  next
    case refused
    then show ?thesis using PostLeases assms(2) fresh by (auto simp: rolled_back_def)
  qed
next
  case (PostRenew lid' body)
  then show ?thesis
  proof (cases rule: handleLeaseRenew_cases [of s lid' rc e body])
    case (applied l1 g ttl s1 req)
    have l1: "sv_leases s1 lid' = Some l1" using applied(1,5) by simp
    have ne: "lid' \<noteq> lid" using applied(1,2) assms(2,3) by (auto simp: may_renew_def)
    show ?thesis
      by (cases rule: renew_apply_cases [OF l1, of e rc "Current (sv_policies s)" ttl])
        (use PostRenew applied(4,5) ne assms(2) in simp_all)
  qed (use assms(2) PostRenew in simp)
next
  case (DeleteLease lid')
  then show ?thesis
  proof (cases rule: handleLeaseSurrender_cases [of s lid' rc e])
    case (marked l1)
    then show ?thesis using DeleteLease assms(2,3) by auto
  qed (use DeleteLease assms(2) in simp_all)
next
  case (GetLease lid')
  then show ?thesis using assms(2) by (simp add: handleLeaseGet_def split: option.splits)
next
  case (PostClaims body)
  then show ?thesis using assms(2) by (cases rule: handleClaims_cases [of body rc s e]) simp_all
next
  case GetWhoami
  then show ?thesis using assms(2) by (simp add: handleWhoami_def Let_def)
qed

section \<open>Expiry in the record\<close>

lemma sweep_fold_frame:
  "sv_leases (fold (\<lambda>l s. snd (emit e (f l) s)) ls s) = sv_leases s"
  by (induction ls arbitrary: s) simp_all

lemma expired_event_subject:
  assumes "l_SubjectKey l = Key sub" "CHR ''/'' \<notin> set (sub_Namespace sub)"
  shows "map_option Key (ev_Subject (expired_event h l)) = Some (l_SubjectKey l)"
    "map_option sub_Namespace (ev_Subject (expired_event h l)) = Some (sub_Namespace sub)"
  using assms by (simp_all add: expired_event_def Key_def Cut_found)

text \<open>A response with a secret comes from the create handler, run for an accepted token.\<close>

lemma Handler_secret:
  assumes "\<not> no_secret (fst (Handler e r rt s))"
  shows "\<exists>token sub body. hi_Authorization r = ''Bearer '' @ token \<and> token \<noteq> [] \<and>
    en_authn e (Suc (sv_tick s)) token = Inr sub \<and> rt = PostLeases body \<and>
    (\<exists>rc. rc_Subject rc = sub \<and> \<not> no_secret (fst (handleLeaseCreate e rc body (tick (tick s)))))"
proof -
  let ?src = "\<lparr>src_IP = case SplitHostPort (hi_RemoteAddr r) of None \<Rightarrow> hi_RemoteAddr r | Some h \<Rightarrow> h, src_UserAgent = hi_UserAgent r\<rparr>"
  let ?rid = "''req_'' @ hex_encode (en_rand e (sv_tick s) 8)"
  have a: "\<not> no_secret (fst (withAuth e r (mux e rt) ?rid ?src (tick s)))"
    using assms by (simp add: Handler_def withRequestID_def split_beta Let_def no_secret_def)
  obtain token where cut: "CutPrefix (hi_Authorization r) ''Bearer '' = (token, True)" "token \<noteq> []"
    using a by (cases "CutPrefix (hi_Authorization r) ''Bearer ''") (auto simp: withAuth_def split: if_splits)
  have tok: "hi_Authorization r = ''Bearer '' @ token"
    using cut(1) by (auto simp: CutPrefix_def HasPrefix_iff split: if_splits)
  obtain sub where sub: "en_authn e (sv_tick (tick s)) token = Inr sub"
    using a cut by (cases "en_authn e (sv_tick (tick s)) token") (simp_all add: withAuth_def)
  let ?rc = "\<lparr>rc_Subject = sub, rc_RequestID = ?rid, rc_Source = ?src\<rparr>"
  have m: "\<not> no_secret (fst (mux e rt ?rc (tick (tick s))))"
    using a cut sub by (simp add: withAuth_def)
  then obtain body where body: "rt = PostLeases body" using mux_no_secret by blast
  have "\<not> no_secret (fst (handleLeaseCreate e ?rc body (tick (tick s))))" "rc_Subject ?rc = sub"
    using m body by simp_all
  moreover have "en_authn e (Suc (sv_tick s)) token = Inr sub" using sub by (simp add: tick_def)
  ultimately show ?thesis using tok cut(2) body by blast
qed

section \<open>Properties\<close>

text \<open>C12: a lease is renewed only under the current policy. When \<open>POST /v1/leases/{id}/renew\<close> answers
  200, the lease was the caller's own, unsurrendered, unexpired and renewable; the policy in
  force now still grants its scope to the caller as renewable; only its expiry moved, to at most
  the grant's maximum after the second clock reading; and the stream has grown by exactly the
  signed \<open>lease.renewed\<close> event.\<close>

theorem renewal_under_current_policy:
  assumes "policy_ok (Current (sv_policies s))" "rp_status (fst (handleLeaseRenew e rc lid body s)) = 200"
  shows "\<exists>l l' g. sv_leases s lid = Some l \<and> l_SubjectKey l = Key (rc_Subject rc) \<and>
    GrantOf (Current (sv_policies s)) (Key (rc_Subject rc)) (l_Scope l) = Some g \<and> g_Renewable g \<and>
    l_Renewable l \<and> \<not> l_Surrendered l \<and> en_clock e (Suc (sv_tick s)) \<le> l_ExpiresAt l \<and>
    l' = l\<lparr>l_ExpiresAt := l_ExpiresAt l'\<rparr> \<and>
    l_ExpiresAt l' \<le> en_clock e (Suc (Suc (sv_tick s))) + sint (g_TTLMax g) \<and>
    sv_leases (snd (handleLeaseRenew e rc lid body s)) = (sv_leases s)(lid \<mapsto> l') \<and>
    attests e rc s (snd (handleLeaseRenew e rc lid body s)) ''lease.renewed''
      (renewed_attested l' (Current (sv_policies s)))"
proof (cases rule: handleLeaseRenew_cases [of s lid rc e body])
  case (applied l g ttl s1 req)
  have l1: "sv_leases s1 lid = Some l" using applied(1,5) by simp
  have g: "GrantOf (Current (sv_policies s)) (Key (rc_Subject rc)) (l_Scope l) = Some g" "g_Renewable g"
      "l_SubjectKey l = Key (rc_Subject rc)"
    using applied(2) by (auto simp: may_renew_def)
  have ttl: "sint ttl \<le> sint (g_TTLMax g)"
    using pol.granted_lifetime [OF assms(1) g(1) applied(3)] by simp
  have n: "now_of e s1 = en_clock e (Suc (sv_tick s))" "now_of e (tick s1) = en_clock e (Suc (Suc (sv_tick s)))"
    using applied(7) by (simp_all add: now_of_def tick_def)
  let ?l = "l\<lparr>l_ExpiresAt := Add (now_of e (tick s1)) ttl\<rparr>"
  show ?thesis
  proof (cases rule: renew_apply_cases [OF l1, of e rc "Current (sv_policies s)" ttl])
    case 1
    then show ?thesis
      using applied g ttl n by (intro exI [of _ l] exI [of _ ?l] exI [of _ g])
        (simp add: renewable_at_def Add_def attests_frame [OF applied(6)])
  qed (use assms(2) applied(4) in simp_all)
qed (use assms(2) in auto)

text \<open>C13: no unaudited extension survives. When the event of a renewal cannot be written, the answer
  is 500 without content of the lease, and the lease is left surrendered, so that no later
  renewal can revive it.\<close>

theorem renewal_fails_closed:
  assumes "rp_status (fst (handleLeaseRenew e rc lid body s)) = 500"
  shows "\<exists>l. sv_leases (snd (handleLeaseRenew e rc lid body s)) lid = Some l \<and> l_Surrendered l \<and>
    (\<forall>n1 n2 ttl. fst (Renew n1 n2 lid ttl (sv_leases (snd (handleLeaseRenew e rc lid body s)))) = None)"
proof (cases rule: handleLeaseRenew_cases [of s lid rc e body])
  case (applied l g ttl s1 req)
  have l1: "sv_leases s1 lid = Some l" using applied(1,5) by simp
  show ?thesis
    by (cases rule: renew_apply_cases [OF l1, of e rc "Current (sv_policies s)" ttl])
      (use assms applied(4) in \<open>simp_all add: Renew_def\<close>)
qed (use assms in auto)

text \<open>Surrender is recorded once. A surrender that answers 204 either finds the caller's lease
  unsurrendered, marks it, and writes exactly one signed \<open>lease.surrendered\<close> event, or finds it
  surrendered already and changes neither the table nor the stream; every other answer leaves
  the table as it was, so that it can be tried again.\<close>

theorem surrender_once:
  "(rp_status (fst (handleLeaseSurrender e rc lid s)) = 204 \<and>
     (\<exists>l. sv_leases s lid = Some l \<and> l_SubjectKey l = Key (rc_Subject rc) \<and>
       (if l_Surrendered l
        then sv_leases (snd (handleLeaseSurrender e rc lid s)) = sv_leases s \<and>
             sv_emitter (snd (handleLeaseSurrender e rc lid s)) = sv_emitter s
        else sv_leases (snd (handleLeaseSurrender e rc lid s)) = (sv_leases s)(lid \<mapsto> l\<lparr>l_Surrendered := True\<rparr>) \<and>
             attests e rc s (snd (handleLeaseSurrender e rc lid s)) ''lease.surrendered''
               [(''scope'', JStr (l_Scope l)), (''lease_id'', JStr (l_ID l))]))) \<or>
   (rp_status (fst (handleLeaseSurrender e rc lid s)) \<in> {403, 404, 429, 500} \<and>
     sv_leases (snd (handleLeaseSurrender e rc lid s)) = sv_leases s)"
  by (cases rule: handleLeaseSurrender_cases [of s lid rc e]) auto

text \<open>C38: accepted claims are in the stream. When \<open>POST /v1/claims\<close> answers 202, the request held
  between one and the permitted number of claims, none over the size limit, for a lease of the
  caller's own if it names one; and the stream has grown by exactly one signed
  \<open>claim.recorded\<close> event per claim, in order, each with the claim's content as asserted and the
  ID the response returns for it.\<close>

theorem claims_all_recorded:
  assumes "rp_status (fst (handleClaims e rc body s)) = 202"
  shows "\<exists>req ids evs. body = Decoded req \<and> cq_Claims req \<noteq> [] \<and>
    int (length (cq_Claims req)) \<le> cf_MaxClaimsPerReq (sv_cfg s) \<and>
    (\<forall>c \<in> set (cq_Claims req). int (length (render (JStrMap c))) \<le> cf_MaxClaimBytes (sv_cfg s)) \<and>
    claim_lease_ok rc s req \<and>
    rp_body (fst (handleClaims e rc body s)) = BJson (JObj [(''claim_ids'', JArr (map JStr ids))]) \<and>
    length ids = length (cq_Claims req) \<and>
    list_all2 (records_claim e (em_signer (sv_emitter s)) rc) (zip (cq_Claims req) ids) evs \<and>
    em_out (sv_emitter (snd (handleClaims e rc body s))) = em_out (sv_emitter s) @ concat (map event_line evs) \<and>
    em_seq (sv_emitter (snd (handleClaims e rc body s))) = em_seq (sv_emitter s) + of_nat (length (cq_Claims req))"
proof (cases rule: handleClaims_cases [of body rc s e])
  case (accepted req ids n s2 s3)
  obtain evs where "list_all2 (records_claim e (em_signer (sv_emitter s)) rc) (zip (cq_Claims req) ids) evs"
      "em_out (sv_emitter s3) = em_out (sv_emitter s) @ concat (map event_line evs)" "length ids = length (cq_Claims req)"
      "em_seq (sv_emitter s3) = em_seq (sv_emitter s) + of_nat (length (cq_Claims req))"
    using claims_emit_Some [OF accepted(7)] accepted(8) by auto
  then show ?thesis using accepted claims_size_Some [OF accepted(5)] by (intro exI [of _ req] exI [of _ ids] exI [of _ evs]) simp
qed (use assms in auto)

text \<open>Only an authenticated issuance discloses. A response of the API that carries secret material
  answers a \<open>POST /v1/leases\<close> with a non-empty bearer token that the authenticator accepted; no
  other endpoint, and no unauthenticated request, ever returns a secret.\<close>

theorem only_authenticated_issuance_discloses:
  assumes "\<not> no_secret (fst (Handler e r rt s))"
  shows "\<exists>token sub body. hi_Authorization r = ''Bearer '' @ token \<and> token \<noteq> [] \<and>
    en_authn e (Suc (sv_tick s)) token = Inr sub \<and> rt = PostLeases body"
  using Handler_secret [OF assms] by blast

text \<open>C7: subjects cannot touch each other's leases. Whatever an authenticated caller sends, a lease
  of another subject stays exactly as it is, provided no random ID drawn from then on is its ID.\<close>

theorem tenant_isolation:
  assumes "policy_ok (Current (sv_policies s))" "sv_leases s lid = Some l" "l_SubjectKey l \<noteq> Key (rc_Subject rc)"
    and "\<And>k. sv_tick s \<le> k \<Longrightarrow> lid \<noteq> NewID ''lease'' (en_rand e k 13)"
  shows "sv_leases (snd (mux e rt rc s)) lid = Some l"
  using assms by (rule mux_other_lease)

text \<open>The sample broker holding one lease of the sample subject.\<close>

definition sample_held :: Lease where
  "sample_held = sample_lease\<lparr>l_Scope := ''db''\<rparr>"

definition sample_holder :: server where
  "sample_holder = sample_server\<lparr>sv_leases := [sample_id \<mapsto> sample_held]\<rparr>"

lemma sample_holder_simps [simp]:
  "sv_leases sample_holder = [sample_id \<mapsto> sample_held]" "sv_policies sample_holder = sample_store" "sv_tick sample_holder = 0"
  "l_SubjectKey sample_held = ''ns/sa''" "l_Scope sample_held = ''db''"
  by (simp_all add: sample_holder_def sample_held_def sample_lease_def)

lemma sample_holder_ok: "policy_ok (Current (sv_policies sample_holder))"
  using sample_policy_ok by simp

lemma sample_holder_allowed: "fst (allow_lease e k sample_holder)" "fst (allow_claim e k sample_holder)"
  using New_Limiter_first [of 10] New_Limiter_first [of 60]
  by (simp_all add: allow_lease_def allow_claim_def split_beta Let_def sample_holder_def sample_server_def New_Server_def
      applyDefaults_def sample_config_def)

lemma sample_renew:
  "rp_status (fst (handleLeaseRenew (sample_env Written) sample_rc sample_id DecodeEOF sample_holder)) = 200"
  "rp_status (fst (handleLeaseRenew (sample_env (Failed 0)) sample_rc sample_id DecodeEOF sample_holder)) = 500"
proof -
  have renew: "Renew 0 0 sample_id Minute [sample_id \<mapsto> sample_held] =
      (Some (sample_held\<lparr>l_ExpiresAt := Add 0 Minute\<rparr>), [], [sample_id \<mapsto> sample_held\<lparr>l_ExpiresAt := Add 0 Minute\<rparr>])"
    by (simp add: Renew_def sample_held_def sample_lease_def After_def Let_def)
  have *: "handleLeaseRenew (sample_env oc) sample_rc sample_id DecodeEOF sample_holder =
      renew_apply (sample_env oc) sample_rc sample_id (ps_current sample_store) Minute
        (snd (allow_lease (sample_env oc) ''ns/sa'' sample_holder))" for oc
    using sample_holder_allowed(1) [of "sample_env oc" "''ns/sa''"] sample_lookup(1) sample_clamp
    by (simp add: handleLeaseRenew_def Let_def split_beta Get_def Current_def)
      (simp add: sample_granted_def compile_grant_def set_windows_def sample_grant_def)
  show "rp_status (fst (handleLeaseRenew (sample_env Written) sample_rc sample_id DecodeEOF sample_holder)) = 200"
    "rp_status (fst (handleLeaseRenew (sample_env (Failed 0)) sample_rc sample_id DecodeEOF sample_holder)) = 500"
    unfolding * using sample_emit renew
    by (auto simp: renew_apply_def split_beta Let_def now_of_def sample_env_def [of oc for oc] split: option.split)
qed

theorem renewal_under_current_policy_witness:
  "\<exists>l'. sv_leases (snd (handleLeaseRenew (sample_env Written) sample_rc sample_id DecodeEOF sample_holder)) = [sample_id \<mapsto> l'] \<and>
     l_ExpiresAt l' \<le> 3600000000000"
  using renewal_under_current_policy [OF sample_holder_ok sample_renew(1)] sample_lookup(1)
  by (auto simp: Current_def sample_env_def sample_granted_def compile_grant_def set_windows_def sample_grant_def
      Hour_def Minute_def Second_def)

theorem renewal_fails_closed_witness:
  "\<exists>l. sv_leases (snd (handleLeaseRenew (sample_env (Failed 0)) sample_rc sample_id DecodeEOF sample_holder)) sample_id = Some l \<and>
     l_Surrendered l"
  using renewal_fails_closed [OF sample_renew(2)] by blast

lemma sample_claims:
  "rp_status (fst (handleClaims (sample_env Written) sample_rc (Decoded \<lparr>cq_LeaseID = sample_id, cq_Claims = [Some []]\<rparr>) sample_holder)) = 202"
proof -
  have size: "length (render (JStrMap (Some []))) = 2" by (simp add: JStrMap_def JMap_def)
  have cap: "ClaimBytesCap (ps_current sample_store) ''ns/sa'' = 4096"
    by (simp add: ClaimBytesCap_def sample_store_def compile_policy_def sample_doc_def compile_subject_def)
  have spend: "fst (Spend t k 2 4096 NewByteBudget)" for t k
    by (simp add: Spend_def Let_def used_of_def NewByteBudget_def)
  have budget: "sv_claimBudget (snd (allow_claim e k sample_holder)) = NewByteBudget" for e k
    by (simp add: allow_claim_def split_beta Let_def sample_holder_def sample_server_def New_Server_def)
  have cfg: "cf_MaxClaimsPerReq (sv_cfg sample_holder) = 50" "cf_MaxClaimBytes (sv_cfg sample_holder) = 2048"
    by (simp_all add: sample_holder_def sample_server_def New_Server_def Let_def applyDefaults_def sample_config_def)
  show ?thesis
    using sample_holder_allowed(2) [of "sample_env Written" "''ns/sa''"] sample_emit(1)
    by (simp add: handleClaims_def Let_def split_beta Get_def Current_def size cap spend budget cfg split: option.split)
qed

theorem claims_all_recorded_witness:
  "em_seq (sv_emitter (snd (handleClaims (sample_env Written) sample_rc
     (Decoded \<lparr>cq_LeaseID = sample_id, cq_Claims = [Some []]\<rparr>) sample_holder))) = em_seq (sv_emitter sample_holder) + 1"
  using claims_all_recorded [OF sample_claims] by auto

definition sample_http :: http_in where
  "sample_http = \<lparr>hi_RemoteAddr = ''10.0.0.1:5000'', hi_UserAgent = ''agent'', hi_Authorization = ''Bearer t''\<rparr>"

lemma sample_create_secret:
  assumes "like_sample s" "Key (rc_Subject rc) = ''ns/sa''"
  shows "\<not> no_secret (fst (handleLeaseCreate (sample_env Written) rc (Decoded sample_lease_req) s))"
proof -
  have ok: "policy_ok (Current (sv_policies s))" using sample_policy_ok assms(1) by (simp add: like_sample_def)
  then show ?thesis
  proof (cases rule: handleLeaseCreate_cases [of s "Decoded sample_lease_req" rc "sample_env Written"])
    case (issued req g sc l secret ev)
    then have "s_Fields sc \<noteq> []" using pol.scope_named [OF ok issued(3)] by (simp add: scope_valid_def)
    then have "secret \<noteq> []" using issued(6) by auto
    then show ?thesis using issued(5) by (auto simp: disclosed_def no_secret_def)
  next
    case refused
    then show ?thesis using sample_create_like(1) [OF assms] by simp
  qed
qed

text \<open>The middleware on a request with a bearer token that is accepted.\<close>

lemma Handler_accepted:
  assumes "hi_Authorization r = ''Bearer '' @ token" "token \<noteq> []" "en_authn e (Suc (sv_tick s)) token = Inr sub"
  obtains rc where "rc_Subject rc = sub" "rp_status (fst (Handler e r rt s)) = rp_status (fst (mux e rt rc (tick (tick s))))"
    "rp_body (fst (Handler e r rt s)) = rp_body (fst (mux e rt rc (tick (tick s))))"
    "snd (Handler e r rt s) = snd (mux e rt rc (tick (tick s)))"
proof (rule that)
  let ?rc = "\<lparr>rc_Subject = sub, rc_RequestID = ''req_'' @ hex_encode (en_rand e (sv_tick s) 8),
    rc_Source = \<lparr>src_IP = case SplitHostPort (hi_RemoteAddr r) of None \<Rightarrow> hi_RemoteAddr r | Some h \<Rightarrow> h, src_UserAgent = hi_UserAgent r\<rparr>\<rparr>"
  have cut: "CutPrefix (hi_Authorization r) ''Bearer '' = (token, True)"
    by (simp add: assms(1) CutPrefix_def HasPrefix_def)
  have t: "sv_tick (tick s) = Suc (sv_tick s)" by (simp add: tick_def)
  show "rp_status (fst (Handler e r rt s)) = rp_status (fst (mux e rt ?rc (tick (tick s))))"
    "rp_body (fst (Handler e r rt s)) = rp_body (fst (mux e rt ?rc (tick (tick s))))"
    "snd (Handler e r rt s) = snd (mux e rt ?rc (tick (tick s)))" "rc_Subject ?rc = sub"
    using assms(2,3) by (simp_all add: Handler_def withRequestID_def withAuth_def split_beta Let_def cut t)
qed

lemma sample_http_secret:
  "\<not> no_secret (fst (Handler (sample_env Written) sample_http (PostLeases (Decoded sample_lease_req)) sample_server))"
proof -
  have "hi_Authorization sample_http = ''Bearer '' @ ''t''"
    "en_authn (sample_env Written) (Suc (sv_tick sample_server)) ''t'' = Inr sample_subject"
    by (simp_all add: sample_http_def sample_env_def)
  then obtain rc where "rc_Subject rc = sample_subject"
      "rp_body (fst (Handler (sample_env Written) sample_http (PostLeases (Decoded sample_lease_req)) sample_server)) =
       rp_body (fst (handleLeaseCreate (sample_env Written) rc (Decoded sample_lease_req) (tick (tick sample_server))))"
    using Handler_accepted [of sample_http "''t''" "sample_env Written" sample_server sample_subject
        "PostLeases (Decoded sample_lease_req)"] by auto
  then show ?thesis using sample_create_secret [OF like_sample_server(2), of rc] by (simp add: no_secret_def)
qed

theorem only_authenticated_issuance_discloses_witness:
  "\<exists>token. hi_Authorization sample_http = ''Bearer '' @ token \<and> token \<noteq> []"
  using only_authenticated_issuance_discloses [OF sample_http_secret] by blast

theorem tenant_isolation_witness:
  "sv_leases (snd (mux (sample_env Written) (DeleteLease sample_id)
     (sample_rc\<lparr>rc_Subject := sample_subject\<lparr>sub_Namespace := ''x''\<rparr>\<rparr>) sample_holder)) sample_id = Some sample_held"
proof (rule tenant_isolation [OF sample_holder_ok])
  have "sample_id \<noteq> NewID ''lease'' (en_rand (sample_env Written) k n)" for k n
    by (cases n) (simp_all add: sample_id_def NewID_def sample_env_def hex_encode_def hex_digit_def)
  then show "sample_id \<noteq> NewID ''lease'' (en_rand (sample_env Written) k 13)" for k .
qed (simp_all add: Key_def sample_subject_def)

end
