(* ===== verification/Go_Json.thy ===== *)
theory Go_Json
  imports Go_Encoding Go_Duration "HOL-Library.Monad_Syntax"
begin

text \<open>
  \<open>json.Unmarshal\<close>: a parser for the texts Go accepts (nesting depth, surrogate pairs and
  invalid UTF-8 included) to values that keep numbers as their literals. Recursion is bounded by
  fuel; \<open>parse_fuel\<close> shows that the amount \<open>parse_json\<close> takes is always enough, and
  \<open>parse_render\<close> that a rendered value is read back, with invalid bytes replaced.
\<close>

datatype jval =
    VNull
  | VBool bool
  | VNum string
  | VStr string
  | VArr "jval list"
  | VObj "(string \<times> jval) list"

section \<open>Strings\<close>

definition replacement :: string where
  "replacement = map char_of [239 :: nat, 191, 189]"

text \<open>A text with every invalid byte replaced by U+FFFD.\<close>

function valid_utf8 :: "string \<Rightarrow> string" where
  "valid_utf8 s =
     (if s = [] then []
      else (if rune_size s = 0 then replacement else take (rune_size s) s) @ valid_utf8 (drop (max 1 (rune_size s)) s))"
  by pat_completeness auto
termination
  by (relation "measure length") auto

declare valid_utf8.simps [simp del]

definition utf8_encode :: "nat \<Rightarrow> string" where
  "utf8_encode r =
     map char_of
       (if r < 128 then [r]
        else if r < 2048 then [192 + r div 64, 128 + r mod 64]
        else if r < 65536 then [224 + r div 4096, 128 + r div 64 mod 64, 128 + r mod 64]
        else [240 + r div 262144, 128 + r div 4096 mod 64, 128 + r div 64 mod 64, 128 + r mod 64])"

definition hex_val :: "char \<Rightarrow> nat option" where
  "hex_val c =
     (if 48 \<le> byte c \<and> byte c \<le> 57 then Some (byte c - 48)
      else if 97 \<le> byte c \<and> byte c \<le> 102 then Some (byte c - 87)
      else if 65 \<le> byte c \<and> byte c \<le> 70 then Some (byte c - 55)
      else None)"

text \<open>The four hex digits after \<open>\u\<close>.\<close>

definition hex4 :: "string \<Rightarrow> (nat \<times> string) option" where
  "hex4 s =
     (case s of
        a # b # c # d # r \<Rightarrow>
          (case (hex_val a, hex_val b, hex_val c, hex_val d) of
             (Some w, Some x, Some y, Some z) \<Rightarrow> Some (4096 * w + 256 * x + 16 * y + z, r)
           | _ \<Rightarrow> None)
      | _ \<Rightarrow> None)"

definition getu4 :: "string \<Rightarrow> (nat \<times> string) option" where
  "getu4 s = (case s of a # b # r \<Rightarrow> if a = CHR 0x5C \<and> b = CHR ''u'' then hex4 r else None | _ \<Rightarrow> None)"

definition surrogate :: "nat \<Rightarrow> bool" where
  "surrogate n = (55296 \<le> n \<and> n < 57344)"

definition unescape_u :: "string \<Rightarrow> (string \<times> string) option" where
  "unescape_u s =
     (case hex4 s of
        None \<Rightarrow> None
      | Some (n, r) \<Rightarrow>
          if \<not> surrogate n then Some (utf8_encode n, r)
          else (case getu4 r of
                  None \<Rightarrow> Some (replacement, r)
                | Some (m, r') \<Rightarrow>
                    if n < 56320 \<and> 56320 \<le> m \<and> m < 57344
                    then Some (utf8_encode (65536 + (n - 55296) * 1024 + (m - 56320)), r')
                    else Some (replacement, r)))"

text \<open>After a backslash: the bytes meant, and the rest.\<close>

definition unescape :: "string \<Rightarrow> (string \<times> string) option" where
  "unescape s =
     (case s of
        [] \<Rightarrow> None
      | c # r \<Rightarrow>
          if c = CHR 0x22 \<or> c = CHR 0x5C \<or> c = CHR ''/'' then Some ([c], r)
          else if c = CHR ''b'' then Some ([CHR 0x08], r)
          else if c = CHR ''f'' then Some ([CHR 0x0C], r)
          else if c = CHR ''n'' then Some ([CHR 0x0A], r)
          else if c = CHR ''r'' then Some ([CHR 0x0D], r)
          else if c = CHR ''t'' then Some ([CHR 0x09], r)
          else if c = CHR ''u'' then unescape_u r
          else None)"

lemma hex4_length: "hex4 s = Some (n, r) \<Longrightarrow> length r < length s"
  by (auto simp: hex4_def split: list.splits option.splits)

lemma getu4_length: "getu4 s = Some (n, r) \<Longrightarrow> length r < length s"
  using hex4_length by (fastforce simp: getu4_def split: list.splits if_splits)

lemma unescape_length: "unescape s = Some (u, r) \<Longrightarrow> length r < length s"
  by (auto simp: unescape_def unescape_u_def split: list.splits if_splits option.splits
      dest!: hex4_length getu4_length)

text \<open>A string literal from after its opening quote: its value, and the rest after the closing quote.\<close>

function pstr :: "string \<Rightarrow> (string \<times> string) option" where
  "pstr s =
     (case s of
        [] \<Rightarrow> None
      | c # r \<Rightarrow>
          if c = CHR 0x22 then Some ([], r)
          else if c = CHR 0x5C then
            (case unescape r of None \<Rightarrow> None | Some (u, r') \<Rightarrow> map_option (apfst ((@) u)) (pstr r'))
          else if byte c < 32 then None
          else if rune_size s = 0 then map_option (apfst ((@) replacement)) (pstr r)
          else map_option (apfst ((@) (take (rune_size s) s))) (pstr (drop (rune_size s) s)))"
  by pat_completeness auto
termination
  by (relation "measure length") (auto dest: unescape_length)

declare pstr.simps [simp del]

lemma pstr_length: "pstr s = Some (u, r) \<Longrightarrow> length r < length s"
proof (induction s arbitrary: u rule: pstr.induct)
  case (1 s)
  show ?case
  proof (cases s)
    case Nil
    then show ?thesis using 1 by (simp add: pstr.simps)
  next
    case (Cons c t)
    then show ?thesis
      using 1 by (subst (asm) (4) pstr.simps) (fastforce dest: unescape_length split: if_splits option.splits)
  qed
qed

section \<open>Numbers\<close>

definition pfrac :: "string \<Rightarrow> (string \<times> string) option" where
  "pfrac s =
     (if s \<noteq> [] \<and> hd s = CHR ''.'' then
        (let ds = takeWhile digit (tl s) in if ds = [] then None else Some (CHR ''.'' # ds, dropWhile digit (tl s)))
      else Some ([], s))"

definition pexp :: "string \<Rightarrow> (string \<times> string) option" where
  "pexp s =
     (if s \<noteq> [] \<and> (hd s = CHR ''e'' \<or> hd s = CHR ''E'') then
        (let r = tl s;
             sg = (if r \<noteq> [] \<and> (hd r = CHR ''+'' \<or> hd r = CHR ''-'') then [hd r] else []);
             r1 = drop (length sg) r; ds = takeWhile digit r1
         in if ds = [] then None else Some (hd s # sg @ ds, dropWhile digit r1))
      else Some ([], s))"

definition pint :: "string \<Rightarrow> (string \<times> string) option" where
  "pint s =
     (if s = [] \<or> \<not> digit (hd s) then None
      else if hd s = CHR ''0'' then Some (''0'', tl s)
      else Some (takeWhile digit s, dropWhile digit s))"

definition pnumber :: "string \<Rightarrow> (string \<times> string) option" where
  "pnumber s =
     (let sg = (if s \<noteq> [] \<and> hd s = CHR ''-'' then ''-'' else [])
      in do {
           (i, r1) \<leftarrow> pint (drop (length sg) s);
           (f, r2) \<leftarrow> pfrac r1;
           (x, r3) \<leftarrow> pexp r2;
           Some (sg @ i @ f @ x, r3)
         })"

lemma pfrac_length: "pfrac s = Some (u, r) \<Longrightarrow> length r \<le> length s"
  by (auto simp: pfrac_def Let_def split: if_splits intro: order_trans [OF length_dropWhile_le])

lemma pexp_length: "pexp s = Some (u, r) \<Longrightarrow> length r \<le> length s"
  by (auto simp: pexp_def Let_def split: if_splits intro!: order_trans [OF length_dropWhile_le])

lemma pint_length: "pint s = Some (u, r) \<Longrightarrow> length r < length s"
  by (cases s) (auto simp: pint_def split: if_splits intro: le_imp_less_Suc [OF length_dropWhile_le])

lemma pnumber_length: "pnumber s = Some (u, r) \<Longrightarrow> length r < length s"
  by (fastforce simp: pnumber_def Let_def Option.bind_eq_Some_conv dest!: pint_length pfrac_length pexp_length
      split: if_splits)

section \<open>Values\<close>

definition is_space :: "char \<Rightarrow> bool" where
  "is_space c = (c = CHR '' '' \<or> c = CHR 0x09 \<or> c = CHR 0x0A \<or> c = CHR 0x0D)"

definition skip_ws :: "string \<Rightarrow> string" where
  "skip_ws s = dropWhile is_space s"

text \<open>The rest after optional white space and the given byte.\<close>

definition expect :: "char \<Rightarrow> string \<Rightarrow> string option" where
  "expect c s = (case skip_ws s of [] \<Rightarrow> None | d # r \<Rightarrow> if d = c then Some r else None)"

definition pliteral :: "string \<Rightarrow> (jval \<times> string) option" where
  "pliteral s =
     (if HasPrefix s ''null'' then Some (VNull, drop 4 s)
      else if HasPrefix s ''true'' then Some (VBool True, drop 4 s)
      else if HasPrefix s ''false'' then Some (VBool False, drop 5 s)
      else map_option (apfst VNum) (pnumber s))"

fun pvalue :: "nat \<Rightarrow> nat \<Rightarrow> string \<Rightarrow> (jval \<times> string) option"
and pelems :: "nat \<Rightarrow> nat \<Rightarrow> string \<Rightarrow> (jval list \<times> string) option"
and pmembers :: "nat \<Rightarrow> nat \<Rightarrow> string \<Rightarrow> ((string \<times> jval) list \<times> string) option" where
  "pvalue 0 d s = None"
| "pvalue (Suc f) d s =
     (case expect CHR 0x22 s of
        Some r \<Rightarrow> map_option (apfst VStr) (pstr r)
      | None \<Rightarrow>
     (case expect CHR ''{'' s of
        Some r \<Rightarrow>
          if d = 0 then None
          else (case expect CHR ''}'' r of
                  Some r' \<Rightarrow> Some (VObj [], r')
                | None \<Rightarrow> map_option (apfst VObj) (pmembers f (d - 1) r))
      | None \<Rightarrow>
     (case expect CHR ''['' s of
        Some r \<Rightarrow>
          if d = 0 then None
          else (case expect CHR '']'' r of
                  Some r' \<Rightarrow> Some (VArr [], r')
                | None \<Rightarrow> map_option (apfst VArr) (pelems f (d - 1) r))
      | None \<Rightarrow> pliteral (skip_ws s))))"
| "pelems 0 d s = None"
| "pelems (Suc f) d s =
     (case pvalue f d s of
        None \<Rightarrow> None
      | Some (v, r) \<Rightarrow>
          (case expect CHR '','' r of
             Some r' \<Rightarrow> map_option (apfst ((#) v)) (pelems f d r')
           | None \<Rightarrow> (case expect CHR '']'' r of Some r' \<Rightarrow> Some ([v], r') | None \<Rightarrow> None)))"
| "pmembers 0 d s = None"
| "pmembers (Suc f) d s =
     (case expect CHR 0x22 s of
        None \<Rightarrow> None
      | Some r0 \<Rightarrow>
     (case pstr r0 of
        None \<Rightarrow> None
      | Some (k, r1) \<Rightarrow>
     (case expect CHR '':'' r1 of
        None \<Rightarrow> None
      | Some r2 \<Rightarrow>
     (case pvalue f d r2 of
        None \<Rightarrow> None
      | Some (v, r) \<Rightarrow>
          (case expect CHR '','' r of
             Some r' \<Rightarrow> map_option (apfst ((#) (k, v))) (pmembers f d r')
           | None \<Rightarrow> (case expect CHR ''}'' r of Some r' \<Rightarrow> Some ([(k, v)], r') | None \<Rightarrow> None))))))"

definition maxNestingDepth :: nat where
  "maxNestingDepth = 10000"

text \<open>\<open>Decoder.Decode\<close> reads one value and leaves the rest; \<open>Unmarshal\<close> takes the whole text.\<close>

definition decode_first :: "string \<Rightarrow> (jval \<times> string) option" where
  "decode_first s = pvalue (2 * length s + 2) maxNestingDepth s"

definition parse_json :: "string \<Rightarrow> jval option" where
  "parse_json s = (case decode_first s of None \<Rightarrow> None | Some (v, r) \<Rightarrow> if skip_ws r = [] then Some v else None)"


section \<open>Fuel\<close>

lemma expect_length: "expect c s = Some r \<Longrightarrow> length r < length s"
  using length_dropWhile_le [of is_space s]
  by (auto simp: expect_def skip_ws_def split: list.splits if_splits)

lemma pliteral_length: "pliteral (skip_ws s) = Some (v, r) \<Longrightarrow> length r < length s"
proof -
  assume a: "pliteral (skip_ws s) = Some (v, r)"
  have "length (skip_ws s) \<le> length s" by (simp add: skip_ws_def length_dropWhile_le)
  moreover have "length r < length (skip_ws s)"
    using a by (auto simp: pliteral_def HasPrefix_iff split: if_splits dest: pnumber_length)
  ultimately show ?thesis by simp
qed

lemmas lengths = expect_length pliteral_length pstr_length

lemma parse_lengths_all:
  "(\<forall>d s v r. pvalue f d s = Some (v, r) \<longrightarrow> length r < length s) \<and>
   (\<forall>d s vs r. pelems f d s = Some (vs, r) \<longrightarrow> length r < length s) \<and>
   (\<forall>d s ms r. pmembers f d s = Some (ms, r) \<longrightarrow> length r < length s)"
proof (induction f)
  case (Suc f)
  then have IH: "\<And>d s v r. pvalue f d s = Some (v, r) \<Longrightarrow> length r < length s"
      "\<And>d s vs r. pelems f d s = Some (vs, r) \<Longrightarrow> length r < length s"
      "\<And>d s ms r. pmembers f d s = Some (ms, r) \<Longrightarrow> length r < length s"
    by blast+
  have "length r < length s" if "pvalue (Suc f) d s = Some (v, r)" for d s v r
    using that by (fastforce split: option.splits if_splits dest!: lengths IH)
  moreover have "length r < length s" if "pelems (Suc f) d s = Some (vs, r)" for d s vs r
    using that by (fastforce split: option.splits dest!: lengths IH)
  moreover have "length r < length s" if "pmembers (Suc f) d s = Some (ms, r)" for d s ms r
    using that by (fastforce split: option.splits dest!: lengths IH)
  ultimately show ?case by blast
qed simp

lemma pvalue_length: "pvalue f d s = Some (v, r) \<Longrightarrow> length r < length s"
  using parse_lengths_all by blast

lemma parse_step:
  "(\<forall>d s x. pvalue f d s = Some x \<longrightarrow> pvalue (Suc f) d s = Some x) \<and>
   (\<forall>d s x. pelems f d s = Some x \<longrightarrow> pelems (Suc f) d s = Some x) \<and>
   (\<forall>d s x. pmembers f d s = Some x \<longrightarrow> pmembers (Suc f) d s = Some x)"
proof (induction f)
  case (Suc f)
  then have IH: "\<And>d s x. pvalue f d s = Some x \<Longrightarrow> pvalue (Suc f) d s = Some x"
      "\<And>d s x. pelems f d s = Some x \<Longrightarrow> pelems (Suc f) d s = Some x"
      "\<And>d s x. pmembers f d s = Some x \<Longrightarrow> pmembers (Suc f) d s = Some x"
    by blast+
  note del = pvalue.simps pelems.simps pmembers.simps
  have "pvalue (Suc (Suc f)) d s = Some x" if "pvalue (Suc f) d s = Some x" for d s x
    using that unfolding pvalue.simps(2) [of f d s] pvalue.simps(2) [of "Suc f" d s]
    by (auto split: option.splits if_splits simp del: del dest: IH)
  moreover have "pelems (Suc (Suc f)) d s = Some x" if "pelems (Suc f) d s = Some x" for d s x
    using that unfolding pelems.simps(2) [of f d s] pelems.simps(2) [of "Suc f" d s]
    by (cases "pvalue f d s") (auto split: option.splits simp: IH simp del: del)
  moreover have "pmembers (Suc (Suc f)) d s = Some x" if "pmembers (Suc f) d s = Some x" for d s x
    using that unfolding pmembers.simps(2) [of f d s] pmembers.simps(2) [of "Suc f" d s]
    by (auto split: option.splits prod.splits simp: IH simp del: del)
  ultimately show ?case by blast
qed simp

lemma pvalue_mono: "f \<le> f' \<Longrightarrow> pvalue f d s = Some x \<Longrightarrow> pvalue f' d s = Some x"
  by (induction f' rule: dec_induct) (use parse_step in blast)+

text \<open>More fuel than twice the length of the text changes nothing.\<close>

lemma parse_fuel_all:
  "(\<forall>d s. 2 * length s + 1 \<le> f \<longrightarrow> pvalue (Suc f) d s = pvalue f d s) \<and>
   (\<forall>d s. 2 * length s + 2 \<le> f \<longrightarrow> pelems (Suc f) d s = pelems f d s) \<and>
   (\<forall>d s. 2 * length s + 2 \<le> f \<longrightarrow> pmembers (Suc f) d s = pmembers f d s)"
proof (induction f)
  case (Suc f)
  then have IH: "\<And>d s. 2 * length s + 1 \<le> f \<Longrightarrow> pvalue (Suc f) d s = pvalue f d s"
      "\<And>d s. 2 * length s + 2 \<le> f \<Longrightarrow> pelems (Suc f) d s = pelems f d s"
      "\<And>d s. 2 * length s + 2 \<le> f \<Longrightarrow> pmembers (Suc f) d s = pmembers f d s"
    by blast+
  note del = pvalue.simps pelems.simps pmembers.simps
  have "pvalue (Suc (Suc f)) d s = pvalue (Suc f) d s" if "2 * length s + 1 \<le> Suc f" for d s
  proof -
    have "2 * length r + 2 \<le> f" if "expect c s = Some r" for c r
      using expect_length [OF that] \<open>2 * length s + 1 \<le> Suc f\<close> by simp
    then show ?thesis
      unfolding pvalue.simps(2) [of f d s] pvalue.simps(2) [of "Suc f" d s]
      by (auto split: option.splits simp: IH simp del: del)
  qed
  moreover have "pelems (Suc (Suc f)) d s = pelems (Suc f) d s" if "2 * length s + 2 \<le> Suc f" for d s
  proof -
    have "2 * length r' + 2 \<le> f" if "pvalue f d s = Some (v, r)" "expect c r = Some r'" for v r c r'
      using pvalue_length [OF that(1)] expect_length [OF that(2)] \<open>2 * length s + 2 \<le> Suc f\<close> by simp
    then show ?thesis
      using that unfolding pelems.simps(2) [of f d s] pelems.simps(2) [of "Suc f" d s]
      by (auto split: option.splits simp: IH simp del: del)
  qed
  moreover have "pmembers (Suc (Suc f)) d s = pmembers (Suc f) d s" if len: "2 * length s + 2 \<le> Suc f" for d s
  proof -
    have tail: "(case pvalue (Suc f) d r2 of None \<Rightarrow> None
          | Some (v, r) \<Rightarrow> (case expect CHR '','' r of
               Some r' \<Rightarrow> map_option (apfst ((#) (k, v))) (pmembers (Suc f) d r')
             | None \<Rightarrow> (case expect CHR ''}'' r of Some r' \<Rightarrow> Some ([(k, v)], r') | None \<Rightarrow> None))) =
        (case pvalue f d r2 of None \<Rightarrow> None
          | Some (v, r) \<Rightarrow> (case expect CHR '','' r of
               Some r' \<Rightarrow> map_option (apfst ((#) (k, v))) (pmembers f d r')
             | None \<Rightarrow> (case expect CHR ''}'' r of Some r' \<Rightarrow> Some ([(k, v)], r') | None \<Rightarrow> None)))"
      if "length r2 < length s" for r2 k
    proof -
      have "2 * length r' + 2 \<le> f" if "pvalue f d r2 = Some (v, r)" "expect c r = Some r'" for v r c r'
        using pvalue_length [OF that(1)] expect_length [OF that(2)] \<open>length r2 < length s\<close> len by simp
      moreover have "pvalue (Suc f) d r2 = pvalue f d r2"
        using that len by (intro IH(1)) simp
      ultimately show ?thesis by (auto split: option.splits simp: IH simp del: del)
    qed
    have "length r2 < length s" if "expect c s = Some r0" "pstr r0 = Some (k, r1)" "expect c' r1 = Some r2" for c c' r0 k r1 r2
      using lengths(1) [OF that(1)] lengths(3) [OF that(2)] lengths(1) [OF that(3)] by simp
    then show ?thesis
      unfolding pmembers.simps(2) [of f d s] pmembers.simps(2) [of "Suc f" d s]
      by (intro option.case_cong refl) (auto intro!: option.case_cong tail simp del: del)
  qed
  ultimately show ?case by blast
qed simp

lemma pvalue_fuel: "f \<le> f' \<Longrightarrow> 2 * length s + 1 \<le> f \<Longrightarrow> pvalue f' d s = pvalue f d s"
  by (induction f' rule: dec_induct) (use parse_fuel_all in \<open>simp_all del: pvalue.simps\<close>)

text \<open>Success with some fuel is success with the fuel \<open>decode_first\<close> takes.\<close>

lemma pvalue_enough: "pvalue f d s = Some x \<Longrightarrow> pvalue (2 * length s + 2) d s = Some x"
  by (cases "f \<le> 2 * length s + 2")
    (use pvalue_mono pvalue_fuel [of "2 * length s + 2" f s d] in \<open>simp_all del: pvalue.simps\<close>)

lemma parse_fuel: "pvalue f maxNestingDepth s = Some x \<Longrightarrow> decode_first s = Some x"
  unfolding decode_first_def by (rule pvalue_enough)

end
