(* ===== verification/Json_Roundtrip.thy ===== *)
theory Json_Roundtrip
  imports Go_Json
begin

text \<open>
  Reading back what \<open>render\<close> writes: \<open>parse_render\<close>. Strings come back with their invalid bytes
  replaced, which is what the escapes of \<open>json.Marshal\<close> already say; numbers as their literals.
\<close>

fun val_of :: "json \<Rightarrow> jval" where
  "val_of JNull = VNull"
| "val_of (JBool b) = VBool b"
| "val_of (JInt i) = VNum (int_string i)"
| "val_of (JStr s) = VStr (valid_utf8 s)"
| "val_of (JArr vs) = VArr (map val_of vs)"
| "val_of (JObj kvs) = VObj (map (\<lambda>(k, v). (valid_utf8 k, val_of v)) kvs)"

fun nested_within :: "nat \<Rightarrow> json \<Rightarrow> bool" where
  "nested_within d (JArr vs) = (d \<noteq> 0 \<and> (\<forall>v \<in> set vs. nested_within (d - 1) v))"
| "nested_within d (JObj kvs) = (d \<noteq> 0 \<and> (\<forall>kv \<in> set kvs. nested_within (d - 1) (snd kv)))"
| "nested_within d _ = True"

section \<open>Strings\<close>

lemma hex_val_hex_digit: "n < 16 \<Longrightarrow> hex_val (hex_digit n) = Some n"
  by (auto simp: hex_val_def hex_digit_def of_char_of)

lemma byte_less_256: "byte c < 256"
  using nat_of_char_less_256 [of c] by simp

lemma char_of_byte: "byte c = n \<Longrightarrow> c = char_of n"
  using char_of_char [of c] by auto

lemma control_chars:
  "char_of (8 :: nat) = CHR 0x08" "char_of (9 :: nat) = CHR 0x09" "char_of (10 :: nat) = CHR 0x0A"
  "char_of (12 :: nat) = CHR 0x0C" "char_of (13 :: nat) = CHR 0x0D"
  using char_of_char [of "CHR 0x08", where 'a = nat] char_of_char [of "CHR 0x09", where 'a = nat]
    char_of_char [of "CHR 0x0A", where 'a = nat] char_of_char [of "CHR 0x0C", where 'a = nat]
    char_of_char [of "CHR 0x0D", where 'a = nat] by simp_all

lemma unescape_escape_byte:
  assumes "byte c < 128" "\<not> htmlSafe c"
  shows "\<exists>e. escape_byte c = CHR 0x5C # e \<and> unescape (e @ r) = Some ([c], r)"
proof -
  consider "c = CHR 0x22 \<or> c = CHR 0x5C" | "byte c \<in> {8, 9, 10, 12, 13}"
    | (u) "c \<noteq> CHR 0x22" "c \<noteq> CHR 0x5C" "byte c \<notin> {8, 9, 10, 12, 13}" by blast
  then show ?thesis
  proof cases
    case u
    have "16 * (byte c div 16) + byte c mod 16 = byte c" by simp
    moreover have "hex_val (CHR ''0'') = Some 0" by (simp add: hex_val_def)
    ultimately have "hex4 (''00'' @ [hex_digit (byte c div 16), hex_digit (byte c mod 16)] @ r) = Some (byte c, r)"
      using assms(1) by (simp add: hex4_def hex_val_hex_digit)
    moreover have "\<not> surrogate (byte c)" using assms(1) by (simp add: surrogate_def)
    moreover have "utf8_encode (byte c) = [c]" using assms(1) by (simp add: utf8_encode_def)
    ultimately show ?thesis
      using u by (simp add: escape_byte_def unescape_def unescape_u_def)
  qed (use assms in \<open>auto simp: escape_byte_def unescape_def control_chars dest!: char_of_byte\<close>)
qed

lemma pstr_Cons_escape:
  "unescape (e @ r) = Some (u, r) \<Longrightarrow> pstr (CHR 0x5C # e @ r) = map_option (apfst ((@) u)) (pstr r)"
  by (subst pstr.simps) simp

text \<open>The size of a rune depends on its bytes only.\<close>

lemma rune_size_multi:
  assumes "rune_size (c # r) = n" "n \<noteq> 0" "\<not> byte c < 128"
  obtains lo hi where "utf8_first c = Some (n, lo, hi)" "n - 1 \<le> length r"
    "in_range lo hi (r ! 0)" "list_all (in_range 128 191) (drop 1 (take (n - 1) r))"
proof (cases "utf8_first c")
  case None
  then show ?thesis using assms by (simp add: rune_size_def)
next
  case (Some p)
  obtain m lo hi where p: "p = (m, lo, hi)" by (cases p)
  then have m: "n = m" "m - 1 \<le> length r" "in_range lo hi (r ! 0)"
      "list_all (in_range 128 191) (drop 1 (take (m - 1) r))"
    using assms Some by (simp_all add: rune_size_def split: if_splits)
  show ?thesis
    using that [of lo hi] m Some p by simp
qed

lemma rune_size_take:
  assumes "rune_size s = n" "n \<noteq> 0"
  shows "rune_size (take n s @ t) = n" "n \<le> length s"
proof -
  obtain c r where s: "s = c # r" using assms by (cases s) (auto simp: rune_size_def)
  have "rune_size (take n s @ t) = n \<and> n \<le> length s"
  proof (cases "byte c < 128")
    case True
    then show ?thesis using assms s by (auto simp: rune_size_def)
  next
    case False
    have "rune_size (c # r) = n" using assms(1) s by simp
    then obtain lo hi where m: "utf8_first c = Some (n, lo, hi)" "n - 1 \<le> length r"
        "in_range lo hi (r ! 0)" "list_all (in_range 128 191) (drop 1 (take (n - 1) r))"
      using assms(2) False by (rule rune_size_multi)
    have "2 \<le> n" using m(1) by (auto simp: utf8_first_def split: if_splits)
    then obtain k where k: "n = Suc (Suc k)" by (cases n; cases "n - 1") auto
    then obtain b q where r: "r = b # q" using m(2) by (cases r) auto
    have "rune_size (c # b # take k q @ t) = n"
      using m False k r by (simp add: rune_size_def)
    then show ?thesis using m(2) s k r by simp
  qed
  then show "rune_size (take n s @ t) = n" "n \<le> length s" by auto
qed

lemma rune_size_Cons: "rune_size (c # r) = 0 \<Longrightarrow> 128 \<le> byte c"
  by (simp add: rune_size_def split: if_splits)

lemma pstr_rune:
  assumes "s \<noteq> []" "rune_size s \<noteq> 0" "128 \<le> byte (hd s)"
  shows "pstr (take (rune_size s) s @ t) = map_option (apfst ((@) (take (rune_size s) s))) (pstr t)"
proof -
  define n where "n = rune_size s"
  have n: "rune_size (take n s @ t) = n" "n \<le> length s" "n \<noteq> 0"
    using rune_size_take(1) [of s n t] rune_size_take(2) [of s n] assms by (simp_all add: n_def)
  then obtain c r where c: "take n s @ t = c # r" "128 \<le> byte c" using assms(1,3) by (cases s; cases n) auto
  then have "c \<noteq> CHR 0x22" "c \<noteq> CHR 0x5C" by auto
  then have "pstr (take n s @ t) = map_option (apfst ((@) (take n (take n s @ t)))) (pstr (drop n (take n s @ t)))"
    using n(1,3) c by (subst pstr.simps) simp
  then show ?thesis using n(2) by (simp add: n_def)
qed

lemma pstr_u:
  assumes "hex4 (h @ t) = Some (n, t)" "\<not> surrogate n"
  shows "pstr (CHR 0x5C # CHR ''u'' # h @ t) = map_option (apfst ((@) (utf8_encode n))) (pstr t)"
  using assms pstr_Cons_escape [of "CHR ''u'' # h" t "utf8_encode n"]
  by (simp add: unescape_def unescape_u_def)

lemma escape_separator:
  assumes "List.member line_separators u" "u = take n s"
  shows "pstr (CHR 0x5C # CHR ''u'' # ''202'' @ [hex_digit (byte (s ! 2) mod 16)] @ t) = map_option (apfst ((@) u)) (pstr t)"
proof -
  obtain k :: nat where k: "k \<in> {8, 9}" "u = [char_of (226 :: nat), char_of (128 :: nat), char_of (160 + k)]"
    using assms(1) by (fastforce simp: line_separators_def List.member_iff)
  then have "2 < n" "2 < length s" using assms(2) by (auto dest!: arg_cong [where f = length])
  then have "s ! 2 = u ! 2" using assms(2) by simp
  then have "byte (s ! 2) mod 16 = k" using k by (auto simp: of_char_of)
  moreover have "hex4 (''202'' @ [hex_digit k] @ t) = Some (8224 + k, t)"
    using k(1) hex_val_hex_digit [of k] by (auto simp: hex4_def hex_val_def hex_digit_def of_char_of)
  moreover have "utf8_encode (8224 + k) = u" "\<not> surrogate (8224 + k)"
    using k by (auto simp: utf8_encode_def surrogate_def)
  ultimately show ?thesis using pstr_u [of "''202'' @ [hex_digit k]" t "8224 + k"] by simp
qed

lemma pstr_escape_rune:
  assumes "s \<noteq> []"
  shows "pstr (escape_rune s @ t) =
    map_option (apfst ((@) (if rune_size s = 0 then replacement else take (rune_size s) s))) (pstr t)"
proof -
  obtain c r where s: "s = c # r" using assms by (cases s) auto
  consider (safe) "byte c < 128" "htmlSafe c" | (esc) "byte c < 128" "\<not> htmlSafe c"
    | (bad) "128 \<le> byte c" "rune_size s = 0"
    | (sep) "128 \<le> byte c" "rune_size s \<noteq> 0" "List.member line_separators (take (rune_size s) s)"
    | (rune) "128 \<le> byte c" "rune_size s \<noteq> 0" "\<not> List.member line_separators (take (rune_size s) s)"
    by linarith
  then show ?thesis
  proof cases
    case safe
    then have "c \<noteq> CHR 0x22" "c \<noteq> CHR 0x5C" "32 \<le> byte c" by (auto simp: htmlSafe_def)
    moreover have "rune_size (c # u) = 1" for u using safe by (simp add: rune_size_def)
    ultimately show ?thesis
      using safe s by (simp add: escape_rune_def) (subst pstr.simps, simp)
  next
    case esc
    obtain e where "escape_byte c = CHR 0x5C # e" "unescape (e @ t) = Some ([c], t)"
      using unescape_escape_byte [OF esc, of t] by blast
    moreover have "rune_size s = 1" using esc s by (simp add: rune_size_def)
    ultimately show ?thesis using esc s pstr_Cons_escape [of e t "[c]"] by (simp add: escape_rune_def)
  next
    case bad
    have "hex4 (''fffd'' @ t) = Some (65533, t)" by (simp add: hex4_def hex_val_def)
    moreover have "utf8_encode 65533 = replacement" "\<not> surrogate 65533"
      by (simp_all add: utf8_encode_def replacement_def surrogate_def)
    ultimately show ?thesis using bad s pstr_u [of "''fffd''" t 65533] by (simp add: escape_rune_def)
  next
    case sep
    then show ?thesis using s escape_separator [OF sep(3) refl, of t] by (simp add: escape_rune_def Let_def)
  next
    case rune
    then show ?thesis using s pstr_rune [of s t] by (simp add: escape_rune_def Let_def)
  qed
qed

lemma pstr_escape: "pstr (escape s @ CHR 0x22 # t) = Some (valid_utf8 s, t)"
proof (induction s rule: escape.induct)
  case (1 s)
  show ?case
  proof (cases "s = []")
    case True
    then show ?thesis by (simp add: escape.simps valid_utf8.simps) (subst pstr.simps, simp)
  next
    case False
    then show ?thesis
      using 1 pstr_escape_rune [OF False] by (subst escape.simps, subst valid_utf8.simps) simp
  qed
qed

section \<open>Numbers\<close>

lemma takeWhile_digits: "\<forall>c \<in> set ds. digit c \<Longrightarrow> r = [] \<or> \<not> digit (hd r) \<Longrightarrow> takeWhile digit (ds @ r) = ds \<and> dropWhile digit (ds @ r) = r"
  by (cases r) auto

lemma itoa_digit: "\<forall>c \<in> set (itoa n). digit c"
  using itoa_digits by (auto simp: digit_def)

lemma itoa_hd: "hd (itoa n) = CHR ''0'' \<longleftrightarrow> n = 0"
proof (induction n rule: itoa.induct)
  case (1 n)
  have "char_of (48 + n) = CHR ''0'' \<longleftrightarrow> n = 0" if "n < 10"
    using that char_of_char [of "CHR ''0''", where 'a = nat]
    by (auto dest: arg_cong [where f = "of_char :: char \<Rightarrow> nat"] simp: of_char_of)
  then show ?case using 1 by (subst itoa.simps) (auto simp: hd_append)
qed

text \<open>What may follow a value inside a rendered text.\<close>

definition closes :: "string \<Rightarrow> bool" where
  "closes r \<longleftrightarrow> r = [] \<or> hd r \<in> {CHR '','', CHR '']'', CHR ''}'', CHR 0x0A}"

lemma pint_itoa: "closes r \<Longrightarrow> pint (itoa n @ r) = Some (itoa n, r)"
proof -
  assume r: "closes r"
  then have nd: "r = [] \<or> \<not> digit (hd r)" by (auto simp: closes_def digit_def)
  have "digit (hd (itoa n))" by (rule bspec [OF itoa_digit [of n]]) simp
  moreover have "itoa 0 = ''0''"
    using char_of_char [of "CHR ''0''", where 'a = nat] by (simp add: itoa.simps)
  ultimately show ?thesis
    using takeWhile_digits [OF itoa_digit nd, of n] itoa_hd [of n] by (cases "n = 0") (simp_all add: pint_def)
qed

lemma pnumber_int_string:
  assumes "closes r"
  shows "pnumber (int_string i @ r) = Some (int_string i, r)"
proof -
  have "pfrac r = Some ([], r)" "pexp r = Some ([], r)"
    using assms by (auto simp: closes_def pfrac_def pexp_def)
  moreover have "hd (itoa n) \<noteq> CHR ''-''" for n
    using bspec [OF itoa_digit [of n], of "hd (itoa n)"] by (auto simp: digit_def)
  ultimately show ?thesis
    using pint_itoa [OF assms] by (simp add: pnumber_def int_string_def)
qed

section \<open>Values\<close>

lemma expect_simps:
  "\<not> is_space c \<Longrightarrow> expect c (c # r) = Some r"
  "\<not> is_space d \<Longrightarrow> d \<noteq> c \<Longrightarrow> expect c (d # r) = None"
  by (simp_all add: expect_def skip_ws_def)

lemma is_space_simps:
  "\<not> is_space CHR 0x22" "\<not> is_space CHR ''{''" "\<not> is_space CHR ''}''" "\<not> is_space CHR ''[''" "\<not> is_space CHR '']''"
  "\<not> is_space CHR '':''" "\<not> is_space CHR '',''"
  by (simp_all add: is_space_def)

lemma int_string_hd:
  obtains c u where "int_string i = c # u" "digit c \<or> c = CHR ''-''"
proof -
  have *: "\<exists>c u. itoa n = c # u \<and> digit c" for n
    using itoa_digit [of n] itoa_nonempty [of n] by (cases "itoa n") auto
  show thesis
  proof (cases "i < 0")
    case True
    then show ?thesis using that by (simp add: int_string_def)
  next
    case False
    then show ?thesis using * [of "nat i"] that by (auto simp: int_string_def)
  qed
qed

lemma pvalue_literal:
  assumes "pliteral (c # u) = Some x" "\<not> is_space c" "c \<notin> {CHR 0x22, CHR ''{'', CHR ''[''}"
  shows "pvalue (Suc f) d (c # u) = Some x"
  using assms by (auto simp: expect_simps skip_ws_def)

lemma pvalue_int: "closes r \<Longrightarrow> pvalue (Suc f) d (int_string i @ r) = Some (VNum (int_string i), r)"
proof -
  assume r: "closes r"
  obtain c u where c: "int_string i = c # u" "digit c \<or> c = CHR ''-''" by (rule int_string_hd)
  then have "c \<notin> {CHR 0x22, CHR ''{'', CHR ''['', CHR ''n'', CHR ''t'', CHR ''f''} \<and> \<not> is_space c"
    by (auto simp: digit_def is_space_def)
  moreover have "pliteral (c # u @ r) = Some (VNum (int_string i), r)"
    using calculation pnumber_int_string [OF r, of i] c(1) by (auto simp: pliteral_def HasPrefix_def)
  ultimately show ?thesis using c(1) pvalue_literal [of c "u @ r"] by (simp del: pvalue.simps)
qed

lemma pelems_mono: "f \<le> f' \<Longrightarrow> pelems f d s = Some x \<Longrightarrow> pelems f' d s = Some x"
  by (induction f' rule: dec_induct) (use parse_step in blast)+

lemma pmembers_mono: "f \<le> f' \<Longrightarrow> pmembers f d s = Some x \<Longrightarrow> pmembers f' d s = Some x"
  by (induction f' rule: dec_induct) (use parse_step in blast)+

lemma join_Cons: "xs \<noteq> [] \<Longrightarrow> join sep (x # xs) = x @ sep @ join sep xs"
  by (cases xs) auto

lemma pelems_render:
  assumes "vs \<noteq> []" "\<And>v r. v \<in> set vs \<Longrightarrow> closes r \<Longrightarrow> \<exists>f. pvalue f d (render v @ r) = Some (val_of v, r)"
  shows "\<exists>f. pelems f d (join '','' (map render vs) @ '']'' @ r) = Some (map val_of vs, r)"
  using assms
proof (induction vs)
  case (Cons v vs)
  show ?case
  proof (cases "vs = []")
    case True
    obtain f where "pvalue f d (render v @ '']'' @ r) = Some (val_of v, '']'' @ r)"
      using Cons.prems(2) [of v "'']'' @ r"] by (auto simp: closes_def)
    then have "pelems (Suc f) d (join '','' (map render (v # vs)) @ '']'' @ r) = Some (map val_of (v # vs), r)"
      using True by (simp add: expect_simps is_space_simps del: pvalue.simps)
    then show ?thesis by blast
  next
    case False
    let ?t = "join '','' (map render vs) @ '']'' @ r"
    obtain f where f: "pvalue f d (render v @ '','' @ ?t) = Some (val_of v, '','' @ ?t)"
      using Cons.prems(2) [of v "'','' @ ?t"] by (auto simp: closes_def)
    obtain g where g: "pelems g d ?t = Some (map val_of vs, r)"
      using Cons.IH False Cons.prems(2) by auto
    have "pvalue (max f g) d (render v @ '','' @ ?t) = Some (val_of v, '','' @ ?t)" "pelems (max f g) d ?t = Some (map val_of vs, r)"
      using pvalue_mono [OF _ f, of "max f g"] pelems_mono [OF _ g, of "max f g"] by simp_all
    then have "pelems (Suc (max f g)) d (join '','' (map render (v # vs)) @ '']'' @ r) = Some (map val_of (v # vs), r)"
      using False by (simp add: join_Cons expect_simps is_space_simps del: pvalue.simps)
    then show ?thesis by blast
  qed
qed simp

abbreviation member_text :: "string \<times> json \<Rightarrow> string" where
  "member_text \<equiv> \<lambda>(k, v). quote k @ '':'' @ render v"

abbreviation member_val :: "string \<times> json \<Rightarrow> string \<times> jval" where
  "member_val \<equiv> \<lambda>(k, v). (valid_utf8 k, val_of v)"

lemma pmembers_render:
  assumes "ms \<noteq> []" "\<And>kv r. kv \<in> set ms \<Longrightarrow> closes r \<Longrightarrow> \<exists>f. pvalue f d (render (snd kv) @ r) = Some (val_of (snd kv), r)"
  shows "\<exists>f. pmembers f d (join '','' (map member_text ms) @ ''}'' @ r) = Some (map member_val ms, r)"
  using assms
proof (induction ms)
  case (Cons kv ms)
  obtain k v where kv: "kv = (k, v)" by (cases kv)
  show ?case
  proof (cases "ms = []")
    case True
    obtain f where "pvalue f d (render v @ ''}'' @ r) = Some (val_of v, ''}'' @ r)"
      using Cons.prems(2) [of kv "''}'' @ r"] kv by (auto simp: closes_def)
    then have "pmembers (Suc f) d (join '','' (map member_text (kv # ms)) @ ''}'' @ r) = Some (map member_val (kv # ms), r)"
      using True kv by (simp add: quote_def pstr_escape expect_simps is_space_simps del: pvalue.simps)
    then show ?thesis by blast
  next
    case False
    let ?t = "join '','' (map member_text ms) @ ''}'' @ r"
    obtain f where f: "pvalue f d (render v @ '','' @ ?t) = Some (val_of v, '','' @ ?t)"
      using Cons.prems(2) [of kv "'','' @ ?t"] kv by (auto simp: closes_def)
    obtain g where g: "pmembers g d ?t = Some (map member_val ms, r)"
      using Cons.IH False Cons.prems(2) by auto
    have "pvalue (max f g) d (render v @ '','' @ ?t) = Some (val_of v, '','' @ ?t)" "pmembers (max f g) d ?t = Some (map member_val ms, r)"
      using pvalue_mono [OF _ f, of "max f g"] pmembers_mono [OF _ g, of "max f g"] by simp_all
    then have "pmembers (Suc (max f g)) d (join '','' (map member_text (kv # ms)) @ ''}'' @ r) = Some (map member_val (kv # ms), r)"
      using False kv by (simp add: join_Cons quote_def pstr_escape expect_simps is_space_simps del: pvalue.simps)
    then show ?thesis by blast
  qed
qed simp

lemma join_hd: "xs \<noteq> [] \<Longrightarrow> hd xs \<noteq> [] \<Longrightarrow> \<exists>u. join sep xs = hd (hd xs) # u"
  by (cases xs; cases "tl xs"; cases "hd xs") auto

lemma render_hd: "\<exists>c u. render j = c # u \<and> \<not> is_space c \<and> c \<noteq> CHR '']''"
proof (cases j)
  case (JInt i)
  obtain c u where "int_string i = c # u" "digit c \<or> c = CHR ''-''" by (rule int_string_hd)
  then show ?thesis using JInt by (auto simp: digit_def is_space_def)
qed (auto simp: quote_def is_space_def)

lemma pvalue_render:
  "nested_within d j \<Longrightarrow> closes r \<Longrightarrow> \<exists>f. pvalue f d (render j @ r) = Some (val_of j, r)"
proof (induction j arbitrary: d r)
  case (JInt i)
  then show ?case using pvalue_int [of r 0 d i] by (auto simp del: pvalue.simps)
next
  case (JArr vs)
  show ?case
  proof (cases "vs = []")
    case True
    then have "pvalue (Suc 0) d (render (JArr vs) @ r) = Some (val_of (JArr vs), r)"
      using JArr.prems by (simp add: expect_simps is_space_simps)
    then show ?thesis by blast
  next
    case False
    obtain f where f: "pelems f (d - 1) (join '','' (map render vs) @ '']'' @ r) = Some (map val_of vs, r)"
      using pelems_render [OF False, of "d - 1" r] JArr.IH JArr.prems by auto
    obtain c u where "render (hd vs) = c # u" "\<not> is_space c" "c \<noteq> CHR '']''"
      using render_hd [of "hd vs"] by blast
    then have "expect CHR '']'' (join '','' (map render vs) @ '']'' @ r) = None"
      using join_hd [of "map render vs" "'',''"] False by (auto simp: hd_map expect_simps)
    then have "pvalue (Suc f) d (render (JArr vs) @ r) = Some (val_of (JArr vs), r)"
      using f JArr.prems by (simp add: expect_simps is_space_simps)
    then show ?thesis by blast
  qed
next
  case (JObj ms)
  show ?case
  proof (cases "ms = []")
    case True
    then have "pvalue (Suc 0) d (render (JObj ms) @ r) = Some (val_of (JObj ms), r)"
      using JObj.prems by (simp add: expect_simps is_space_simps)
    then show ?thesis by blast
  next
    case False
    have "\<exists>f. pvalue f (d - 1) (render (snd kv) @ r) = Some (val_of (snd kv), r)" if "kv \<in> set ms" "closes r" for kv r
      using JObj.IH [of kv "snd kv"] JObj.prems that by (cases kv) auto
    then obtain f where f: "pmembers f (d - 1) (join '','' (map member_text ms) @ ''}'' @ r) = Some (map member_val ms, r)"
      using pmembers_render [OF False, of "d - 1" r] by blast
    have "expect CHR ''}'' (join '','' (map member_text ms) @ ''}'' @ r) = None"
      using join_hd [of "map member_text ms" "'',''"] False
      by (cases "hd ms") (auto simp: hd_map quote_def expect_simps is_space_simps)
    then have "pvalue (Suc f) d (render (JObj ms) @ r) = Some (val_of (JObj ms), r)"
      using f JObj.prems by (simp add: expect_simps is_space_simps)
    then show ?thesis by blast
  qed
next
  case (JStr s)
  have "pvalue (Suc 0) d (render (JStr s) @ r) = Some (val_of (JStr s), r)"
    by (simp add: quote_def expect_simps is_space_simps pstr_escape)
  then show ?case by blast
next
  case (JBool b)
  have "pvalue (Suc 0) d (render (JBool b) @ r) = Some (val_of (JBool b), r)"
    by (auto intro!: pvalue_literal simp: pliteral_def HasPrefix_def is_space_def simp del: pvalue.simps)
  then show ?case by blast
next
  case JNull
  have "pvalue (Suc 0) d (render JNull @ r) = Some (val_of JNull, r)"
    by (auto intro!: pvalue_literal simp: pliteral_def HasPrefix_def is_space_def simp del: pvalue.simps)
  then show ?case by blast
qed

theorem decode_render: "nested_within maxNestingDepth j \<Longrightarrow> closes r \<Longrightarrow> decode_first (render j @ r) = Some (val_of j, r)"
  using pvalue_render [of maxNestingDepth j r] parse_fuel by blast

theorem parse_render: "nested_within maxNestingDepth j \<Longrightarrow> parse_json (render j) = Some (val_of j)"
  using decode_render [of j "[]"] by (simp add: parse_json_def closes_def skip_ws_def)

declare pvalue.simps [simp del] pelems.simps [simp del] pmembers.simps [simp del]

end
