(* ===== verification/Json_Decode.thy ===== *)
theory Json_Decode
  imports Json_Roundtrip
begin

text \<open>
  \<open>json.Unmarshal\<close> into Go values. Members of an object are stored in order, so that a later
  duplicate overrides or merges; \<open>null\<close> leaves a value that has no nil as it is; a member no field
  matches is skipped; any type mismatch makes the whole call fail (\<open>None\<close>), after which no
  source looks at the value. A slice is replaced as a whole.
\<close>

section \<open>Field names\<close>

text \<open>Field names are ASCII and match up to Unicode case folding: \<open>K\<close> and \<open>S\<close> have one more
  form each outside ASCII.\<close>

definition fold_byte :: "char \<Rightarrow> char" where
  "fold_byte c = (if in_range 97 122 c then char_of (byte c - 32) else c)"

definition kelvin_sign :: string where "kelvin_sign = map char_of [226 :: nat, 132, 170]"
definition long_s :: string where "long_s = map char_of [197 :: nat, 191]"

function fold_name :: "string \<Rightarrow> string" where
  "fold_name s =
     (case s of
        [] \<Rightarrow> []
      | c # r \<Rightarrow>
          if HasPrefix s kelvin_sign then CHR ''K'' # fold_name (drop 3 s)
          else if HasPrefix s long_s then CHR ''S'' # fold_name (drop 2 s)
          else fold_byte c # fold_name r)"
  by pat_completeness auto
termination
  by (relation "measure length") auto

declare fold_name.simps [simp del]

definition is_field :: "string \<Rightarrow> string \<Rightarrow> bool" where
  "is_field name k = (fold_name k = fold_name name)"

section \<open>Scalars\<close>

definition to_string :: "jval \<Rightarrow> string \<Rightarrow> string option" where
  "to_string v old = (case v of VNull \<Rightarrow> Some old | VStr s \<Rightarrow> Some s | _ \<Rightarrow> None)"

definition to_bool :: "jval \<Rightarrow> bool \<Rightarrow> bool option" where
  "to_bool v old = (case v of VNull \<Rightarrow> Some old | VBool b \<Rightarrow> Some b | _ \<Rightarrow> None)"

text \<open>\<open>strconv.ParseInt\<close> and \<open>ParseUint\<close> on a JSON number literal.\<close>

definition lit_int :: "string \<Rightarrow> int option" where
  "lit_int s =
     (let neg = (s \<noteq> [] \<and> hd s = CHR ''-''); ds = (if neg then tl s else s)
      in if ds = [] \<or> \<not> list_all digit ds then None
         else Some (if neg then - int (atoi 0 ds) else int (atoi 0 ds)))"

definition to_int :: "jval \<Rightarrow> int \<Rightarrow> int option" where
  "to_int v old =
     (case v of
        VNull \<Rightarrow> Some old
      | VNum l \<Rightarrow>
          (case lit_int l of
             None \<Rightarrow> None
           | Some i \<Rightarrow> if - (2 ^ 63) \<le> i \<and> i < 2 ^ 63 then Some i else None)
      | _ \<Rightarrow> None)"

definition to_uint64 :: "jval \<Rightarrow> 64 word \<Rightarrow> 64 word option" where
  "to_uint64 v old =
     (case v of
        VNull \<Rightarrow> Some old
      | VNum l \<Rightarrow>
          if l \<noteq> [] \<and> hd l = CHR ''-'' then None
          else (case lit_int l of
                  None \<Rightarrow> None
                | Some i \<Rightarrow> if i < 2 ^ 64 then Some (word_of_int i) else None)
      | _ \<Rightarrow> None)"

text \<open>A number stored as \<open>float64\<close> is an error when it rounds to an infinity.\<close>

definition lit_mantissa :: "string \<Rightarrow> string \<times> int" where
  "lit_mantissa s =
     (let body = takeWhile (\<lambda>c. c \<noteq> CHR ''e'' \<and> c \<noteq> CHR ''E'') (TrimPrefix s ''-'');
          (ip, fp, dot) = Cut body CHR ''.''
      in (ip @ fp, int (length fp)))"

definition lit_exponent :: "string \<Rightarrow> int" where
  "lit_exponent s =
     (let x = tl (dropWhile (\<lambda>c. c \<noteq> CHR ''e'' \<and> c \<noteq> CHR ''E'') s @ ''e'');
          ds = filter digit x
      in if x \<noteq> [] \<and> hd x = CHR ''-'' then - int (atoi 0 ds) else int (atoi 0 ds))"

definition float64_limit :: int where
  "float64_limit = 2 ^ 1024 - 2 ^ 970"

definition lit_finite :: "string \<Rightarrow> bool" where
  "lit_finite s =
     (let (ds, fl) = lit_mantissa s; m = int (atoi 0 ds); e = lit_exponent s - fl
      in m = 0 \<or> (if 0 \<le> e then m * 10 ^ nat e < float64_limit else m < float64_limit * 10 ^ nat (- e)))"

fun any_ok :: "jval \<Rightarrow> bool" where
  "any_ok (VNum l) = lit_finite l"
| "any_ok (VArr vs) = (\<forall>v \<in> set vs. any_ok v)"
| "any_ok (VObj kvs) = (\<forall>kv \<in> set kvs. any_ok (snd kv))"
| "any_ok _ = True"

section \<open>Objects, maps, slices\<close>

fun each_member :: "(string \<Rightarrow> jval \<Rightarrow> 'a \<Rightarrow> 'a option) \<Rightarrow> (string \<times> jval) list \<Rightarrow> 'a \<Rightarrow> 'a option" where
  "each_member f [] x = Some x"
| "each_member f ((k, v) # ms) x = (case f k v x of None \<Rightarrow> None | Some y \<Rightarrow> each_member f ms y)"

text \<open>A struct: \<open>null\<close> leaves it as it is.\<close>

definition to_struct :: "(string \<Rightarrow> jval \<Rightarrow> 'a \<Rightarrow> 'a option) \<Rightarrow> jval \<Rightarrow> 'a \<Rightarrow> 'a option" where
  "to_struct f v old = (case v of VNull \<Rightarrow> Some old | VObj ms \<Rightarrow> each_member f ms old | _ \<Rightarrow> None)"

definition to_pointer :: "(string \<Rightarrow> jval \<Rightarrow> 'a \<Rightarrow> 'a option) \<Rightarrow> 'a \<Rightarrow> jval \<Rightarrow> 'a option \<Rightarrow> 'a option option" where
  "to_pointer f zero v old =
     (case v of
        VNull \<Rightarrow> Some None
      | VObj ms \<Rightarrow> map_option Some (each_member f ms (case old of None \<Rightarrow> zero | Some x \<Rightarrow> x))
      | _ \<Rightarrow> None)"

text \<open>A map: elements decoded from their zero value, entered into the map there is.\<close>

definition to_map :: "(jval \<Rightarrow> 'v option) \<Rightarrow> jval \<Rightarrow> 'v gomap \<Rightarrow> 'v gomap option" where
  "to_map el v old =
     (case v of
        VNull \<Rightarrow> Some []
      | VObj ms \<Rightarrow> each_member (\<lambda>k x m. map_option (gupdate m k) (el x)) ms old
      | _ \<Rightarrow> None)"

fun all_some :: "'a option list \<Rightarrow> 'a list option" where
  "all_some [] = Some []"
| "all_some (x # xs) = (case x of None \<Rightarrow> None | Some y \<Rightarrow> map_option ((#) y) (all_some xs))"

definition to_slice :: "(jval \<Rightarrow> 'v option) \<Rightarrow> jval \<Rightarrow> 'v list option" where
  "to_slice el v = (case v of VNull \<Rightarrow> Some [] | VArr vs \<Rightarrow> all_some (map el vs) | _ \<Rightarrow> None)"

definition to_any :: "jval \<Rightarrow> jval option" where
  "to_any v = (if any_ok v then Some v else None)"

section \<open>Lemmas\<close>

lemma each_member_append:
  "each_member f (xs @ ys) x = (case each_member f xs x of None \<Rightarrow> None | Some y \<Rightarrow> each_member f ys y)"
  by (induction f xs x rule: each_member.induct) (simp_all split: option.split)

lemma int_string_digits:
  "0 \<le> i \<Longrightarrow> int_string i = itoa (nat i)" "i < 0 \<Longrightarrow> int_string i = CHR ''-'' # itoa (nat (- i))"
  by (simp_all add: int_string_def)

lemma itoa_no_sign: "hd (itoa n) \<noteq> CHR ''-''"
  using bspec [OF itoa_digit [of n], of "hd (itoa n)"] by (auto simp: digit_def)

lemma lit_int_int_string: "lit_int (int_string i) = Some i"
  using itoa_digit itoa_no_sign
  by (cases "0 \<le> i") (simp_all add: int_string_digits lit_int_def Let_def list_all_iff)

lemma to_int_int_string: "- (2 ^ 63) \<le> i \<Longrightarrow> i < 2 ^ 63 \<Longrightarrow> to_int (VNum (int_string i)) old = Some i"
  by (simp add: to_int_def lit_int_int_string)

lemma to_uint64_uint: "to_uint64 (VNum (int_string (uint w))) old = Some w"
proof -
  have "uint w < 2 ^ 64" using uint_bounded [of w] by simp
  moreover have "hd (int_string (uint w)) \<noteq> CHR ''-''" by (simp add: int_string_digits itoa_no_sign)
  ultimately show ?thesis unfolding to_uint64_def by (simp add: lit_int_int_string)
qed

lemma lit_finite_int_string: "\<bar>i\<bar> < 2 ^ 64 \<Longrightarrow> lit_finite (int_string i)"
proof -
  assume i: "\<bar>i\<bar> < 2 ^ 64"
  let ?ds = "itoa (nat \<bar>i\<bar>)"
  have d: "c \<noteq> CHR ''e''" "c \<noteq> CHR ''E''" "c \<noteq> CHR ''.''" "c \<noteq> CHR ''-''" if "c \<in> set ?ds" for c
    using bspec [OF itoa_digit that] by (auto simp: digit_def)
  have t: "TrimPrefix (int_string i) ''-'' = ?ds"
  proof (cases "0 \<le> i")
    case True
    obtain c u where "?ds = c # u" by (cases ?ds) auto
    then show ?thesis
      using True itoa_no_sign [of "nat \<bar>i\<bar>"] by (simp add: int_string_digits TrimPrefix_def HasPrefix_def)
  next
    case False
    then show ?thesis using TrimPrefix_append [of "''-''" ?ds] by (simp add: int_string_digits)
  qed
  have tw: "takeWhile (\<lambda>c. c \<noteq> CHR ''e'' \<and> c \<noteq> CHR ''E'') ?ds = ?ds"
    unfolding takeWhile_eq_all_conv using d(1,2) by blast
  have "CHR ''.'' \<notin> set ?ds" using d(3) by blast
  then have "Cut ?ds CHR ''.'' = (?ds, [], False)" by (rule Cut_not_found)
  then have m: "lit_mantissa (int_string i) = (?ds, 0)"
    unfolding lit_mantissa_def t Let_def tw by simp
  have "\<forall>c \<in> set (int_string i). c \<noteq> CHR ''e'' \<and> c \<noteq> CHR ''E''"
    using d by (cases "0 \<le> i") (auto simp: int_string_digits)
  then have dw: "dropWhile (\<lambda>c. c \<noteq> CHR ''e'' \<and> c \<noteq> CHR ''E'') (int_string i) = []" by simp
  have e: "lit_exponent (int_string i) = 0" unfolding lit_exponent_def dw by simp
  have "(2 :: int) ^ 64 \<le> float64_limit" by (simp add: float64_limit_def)
  then have "\<bar>i\<bar> < float64_limit" using i by (rule less_le_trans [rotated])
  then show ?thesis by (simp add: lit_finite_def m e)
qed

text \<open>Integers of at most 64 bits throughout.\<close>

fun small_ints :: "json \<Rightarrow> bool" where
  "small_ints (JInt i) = (\<bar>i\<bar> < 2 ^ 64)"
| "small_ints (JArr vs) = (\<forall>v \<in> set vs. small_ints v)"
| "small_ints (JObj kvs) = (\<forall>kv \<in> set kvs. small_ints (snd kv))"
| "small_ints _ = True"

lemma any_ok_val_of: "small_ints j \<Longrightarrow> any_ok (val_of j)"
  by (induction j) (auto simp: lit_finite_int_string)

text \<open>An ASCII text is valid UTF-8.\<close>

definition ascii :: "string \<Rightarrow> bool" where
  "ascii s = list_all (\<lambda>c. byte c < 128) s"

lemma valid_utf8_ascii: "ascii s \<Longrightarrow> valid_utf8 s = s"
proof (induction s)
  case (Cons c s)
  have "rune_size (c # s) = 1" using Cons.prems by (simp add: ascii_def rune_size_def)
  then show ?case using Cons by (subst valid_utf8.simps) (simp add: ascii_def)
qed (simp add: valid_utf8.simps)

lemma valid_utf8_ascii_Cons: "byte c < 128 \<Longrightarrow> valid_utf8 (c # s) = c # valid_utf8 s"
  by (subst valid_utf8.simps) (simp add: rune_size_def)

lemma fold_name_Nil [simp]: "fold_name [] = []"
  by (simp add: fold_name.simps)

lemma fold_name_ascii [simp]: "byte c < 128 \<Longrightarrow> fold_name (c # r) = fold_byte c # fold_name r"
  by (subst fold_name.simps) (auto simp: HasPrefix_def kelvin_sign_def long_s_def of_char_of)

definition fold_code :: "char \<Rightarrow> nat" where
  "fold_code c = (if 97 \<le> byte c \<and> byte c \<le> 122 then byte c - 32 else byte c)"

lemma fold_byte_code: "byte (fold_byte c) = fold_code c"
  using byte_less_256 [of c] by (auto simp: fold_byte_def fold_code_def in_range_def of_char_of)

lemma fold_name_code: "ascii s \<Longrightarrow> map byte (fold_name s) = map fold_code s"
  by (induction s) (auto simp: ascii_def fold_byte_code)

lemma is_field_code: "ascii a \<Longrightarrow> ascii b \<Longrightarrow> is_field a b \<longleftrightarrow> map fold_code a = map fold_code b"
proof -
  assume "ascii a" "ascii b"
  then have "map fold_code a = map fold_code b \<longleftrightarrow> map byte (fold_name a) = map byte (fold_name b)"
    by (simp add: fold_name_code)
  also have "\<dots> \<longleftrightarrow> fold_name a = fold_name b" by (rule inj_map_eq_map [OF inj_of_char])
  finally show ?thesis by (auto simp: is_field_def)
qed

lemma is_field_distinct:
  assumes "distinct (map (map fold_code) ns)" "list_all ascii ns" "a \<in> set ns" "b \<in> set ns"
  shows "is_field a b \<longleftrightarrow> a = b"
  using assms is_field_code by (auto simp: list_all_iff distinct_map dest: inj_onD)

end
