(* ===== verification/Authn.thy ===== *)
theory Authn
  imports Provider Audit_Log Json_Decode
begin

text \<open>
  Package \<open>internal/authn\<close>: the subject of a presented token, by the TokenReview API of the
  cluster. The API server answers through \<open>kube\<close>, the files through \<open>kube_files\<close>.
  \<open>Review_subject\<close> says exactly when a token is accepted, and as whom.
\<close>

section \<open>Configuration\<close>

definition saPrefix :: string where "saPrefix = ''system:serviceaccount:''"
definition podNameExtra :: string where "podNameExtra = ''authentication.kubernetes.io/pod-name''"
definition podUIDExtra :: string where "podUIDExtra = ''authentication.kubernetes.io/pod-uid''"

record AuthnConfig =
  ac_APIBase :: string
  ac_TokenFile :: string
  ac_CAFile :: string
  ac_Audience :: string

definition InClusterConfig :: "(string \<Rightarrow> string) \<Rightarrow> string \<Rightarrow> string + AuthnConfig" where
  "InClusterConfig getenv audience =
     (let host = getenv ''KUBERNETES_SERVICE_HOST''; port = getenv ''KUBERNETES_SERVICE_PORT''
      in if host = [] \<or> port = [] then Inl ''not running in-cluster: KUBERNETES_SERVICE_HOST/PORT unset''
         else Inr \<lparr>ac_APIBase = ''https://'' @ host @ '':'' @ port,
                   ac_TokenFile = ''/var/run/secrets/kubernetes.io/serviceaccount/token'',
                   ac_CAFile = ''/var/run/secrets/kubernetes.io/serviceaccount/ca.crt'',
                   ac_Audience = audience\<rparr>)"

record Reviewer =
  rv_apiBase :: string
  rv_audience :: string
  rv_tokenFile :: string
  rv_rootCAs :: "string option"

datatype authn_error =
    ReadCA string
  | NoCerts string
  | BadReviewURL
  | OwnToken string
  | ReviewRequest string
  | ReviewStatus int
  | DecodeReview
  | TokenRejected
  | AudienceMismatch
  | NotServiceAccount string

text \<open>\<open>certs\<close> tells whether a bundle holds a certificate.\<close>

definition New_Reviewer :: "(string \<Rightarrow> string + string) \<Rightarrow> (string \<Rightarrow> bool) \<Rightarrow> AuthnConfig \<Rightarrow> authn_error + Reviewer" where
  "New_Reviewer readFile certs cfg =
     (let rv = (\<lambda>pool. \<lparr>rv_apiBase = TrimRight (ac_APIBase cfg) CHR ''/'', rv_audience = ac_Audience cfg,
                          rv_tokenFile = ac_TokenFile cfg, rv_rootCAs = pool\<rparr>)
      in if ac_CAFile cfg \<noteq> [] then
           (case readFile (ac_CAFile cfg) of
              Inl e \<Rightarrow> Inl (ReadCA e)
            | Inr ca \<Rightarrow> if \<not> certs ca then Inl (NoCerts (ac_CAFile cfg)) else Inr (rv (Some ca)))
         else Inr (rv None))"

definition own_token :: "(string \<Rightarrow> string + string) \<Rightarrow> Reviewer \<Rightarrow> string + string" where
  "own_token readFile rv = (case readFile (rv_tokenFile rv) of Inl e \<Rightarrow> Inl e | Inr b \<Rightarrow> Inr (TrimSpace b))"

section \<open>TokenReview objects\<close>

record tokenReviewSpec =
  ts_Token :: string
  ts_Audiences :: "string list"

record tokenReviewUser =
  tu_Username :: string
  tu_Extra :: "string list gomap"

record tokenReviewStatus =
  tt_Authenticated :: bool
  tt_Audiences :: "string list"
  tt_Error :: string
  tt_User :: tokenReviewUser

record tokenReview =
  tr_APIVersion :: string
  tr_Kind :: string
  tr_Spec :: tokenReviewSpec
  tr_Status :: tokenReviewStatus

definition zero_status :: tokenReviewStatus where
  "zero_status = \<lparr>tt_Authenticated = False, tt_Audiences = [], tt_Error = [], tt_User = \<lparr>tu_Username = [], tu_Extra = []\<rparr>\<rparr>"

definition zero_review :: tokenReview where
  "zero_review = \<lparr>tr_APIVersion = [], tr_Kind = [], tr_Spec = \<lparr>ts_Token = [], ts_Audiences = []\<rparr>, tr_Status = zero_status\<rparr>"

text \<open>The object sent: its status is the zero value, whose slice and map are nil.\<close>

definition review_request_json :: "string \<Rightarrow> string \<Rightarrow> json" where
  "review_request_json presented audience =
     JObj [(''apiVersion'', JStr ''authentication.k8s.io/v1''), (''kind'', JStr ''TokenReview''),
       (''spec'', JObj [(''token'', JStr presented), (''audiences'', JArr [JStr audience])]),
       (''status'', JObj [(''authenticated'', JBool False), (''audiences'', JNull), (''error'', JStr []),
          (''user'', JObj [(''username'', JStr []), (''extra'', JNull)])])]"

definition strings :: "jval \<Rightarrow> string list option" where
  "strings v = to_slice (\<lambda>x. to_string x []) v"

definition spec_field :: "string \<Rightarrow> jval \<Rightarrow> tokenReviewSpec \<Rightarrow> tokenReviewSpec option" where
  "spec_field k v s =
     (if is_field ''token'' k then map_option (\<lambda>x. s\<lparr>ts_Token := x\<rparr>) (to_string v (ts_Token s))
      else if is_field ''audiences'' k then map_option (\<lambda>x. s\<lparr>ts_Audiences := x\<rparr>) (strings v)
      else Some s)"

definition user_field :: "string \<Rightarrow> jval \<Rightarrow> tokenReviewUser \<Rightarrow> tokenReviewUser option" where
  "user_field k v u =
     (if is_field ''username'' k then map_option (\<lambda>x. u\<lparr>tu_Username := x\<rparr>) (to_string v (tu_Username u))
      else if is_field ''extra'' k then map_option (\<lambda>x. u\<lparr>tu_Extra := x\<rparr>) (to_map strings v (tu_Extra u))
      else Some u)"

definition status_field :: "string \<Rightarrow> jval \<Rightarrow> tokenReviewStatus \<Rightarrow> tokenReviewStatus option" where
  "status_field k v s =
     (if is_field ''authenticated'' k then map_option (\<lambda>x. s\<lparr>tt_Authenticated := x\<rparr>) (to_bool v (tt_Authenticated s))
      else if is_field ''audiences'' k then map_option (\<lambda>x. s\<lparr>tt_Audiences := x\<rparr>) (strings v)
      else if is_field ''error'' k then map_option (\<lambda>x. s\<lparr>tt_Error := x\<rparr>) (to_string v (tt_Error s))
      else if is_field ''user'' k then map_option (\<lambda>x. s\<lparr>tt_User := x\<rparr>) (to_struct user_field v (tt_User s))
      else Some s)"

definition review_field :: "string \<Rightarrow> jval \<Rightarrow> tokenReview \<Rightarrow> tokenReview option" where
  "review_field k v t =
     (if is_field ''apiVersion'' k then map_option (\<lambda>x. t\<lparr>tr_APIVersion := x\<rparr>) (to_string v (tr_APIVersion t))
      else if is_field ''kind'' k then map_option (\<lambda>x. t\<lparr>tr_Kind := x\<rparr>) (to_string v (tr_Kind t))
      else if is_field ''spec'' k then map_option (\<lambda>x. t\<lparr>tr_Spec := x\<rparr>) (to_struct spec_field v (tr_Spec t))
      else if is_field ''status'' k then map_option (\<lambda>x. t\<lparr>tr_Status := x\<rparr>) (to_struct status_field v (tr_Status t))
      else Some t)"

definition decode_review :: "string \<Rightarrow> tokenReview option" where
  "decode_review body =
     (case decode_first body of None \<Rightarrow> None | Some (v, r) \<Rightarrow> to_struct review_field v zero_review)"

section \<open>Review\<close>

record kube =
  ku_validURL :: "string \<Rightarrow> bool"
  ku_readFile :: "string \<Rightarrow> string + string"
  ku_do :: "http_request \<Rightarrow> string + http_response"

definition review_request :: "Reviewer \<Rightarrow> string \<Rightarrow> string \<Rightarrow> http_request" where
  "review_request rv presented own =
     \<lparr>hq_method = ''POST'', hq_url = rv_apiBase rv @ ''/apis/authentication.k8s.io/v1/tokenreviews'',
      hq_header = [(''Authorization'', ''Bearer '' @ own), (''Content-Type'', ''application/json'')],
      hq_body = render (review_request_json presented (rv_audience rv))\<rparr>"

text \<open>The first value of an extra, or the empty string.\<close>

definition first_extra :: "string list gomap \<Rightarrow> string \<Rightarrow> string" where
  "first_extra m k = (case map_of m k of None \<Rightarrow> [] | Some l \<Rightarrow> (if length l > 0 then hd l else []))"

definition review_subject :: "Reviewer \<Rightarrow> tokenReview \<Rightarrow> authn_error + Subject" where
  "review_subject rv tr =
     (let st = tr_Status tr; name = tu_Username (tt_User st)
      in if \<not> tt_Authenticated st then Inl TokenRejected
         else if \<not> List.member (tt_Audiences st) (rv_audience rv) then Inl AudienceMismatch
         else case Cut (TrimPrefix name saPrefix) CHR '':'' of
           (ns, sa, ok) \<Rightarrow>
             if \<not> HasPrefix name saPrefix \<or> \<not> ok \<or> ns = [] \<or> sa = [] then Inl (NotServiceAccount name)
             else Inr \<lparr>sub_Namespace = ns, sub_ServiceAccount = sa,
                       sub_Pod = first_extra (tu_Extra (tt_User st)) podNameExtra,
                       sub_PodUID = first_extra (tu_Extra (tt_User st)) podUIDExtra\<rparr>)"

definition Review :: "kube \<Rightarrow> Reviewer \<Rightarrow> string \<Rightarrow> http_request list \<times> (authn_error + Subject)" where
  "Review ku rv presented =
     (if \<not> ku_validURL ku (rv_apiBase rv @ ''/apis/authentication.k8s.io/v1/tokenreviews'') then ([], Inl BadReviewURL)
      else case own_token (ku_readFile ku) rv of
        Inl e \<Rightarrow> ([], Inl (OwnToken e))
      | Inr own \<Rightarrow>
          let req = review_request rv presented own
          in ([req],
              case ku_do ku req of
                Inl e \<Rightarrow> Inl (ReviewRequest e)
              | Inr resp \<Rightarrow>
                  if hr_status resp \<noteq> 201 \<and> hr_status resp \<noteq> 200 then Inl (ReviewStatus (hr_status resp))
                  else case decode_review (hr_body resp) of
                    None \<Rightarrow> Inl DecodeReview
                  | Some tr \<Rightarrow> review_subject rv tr))"

section \<open>Who is accepted\<close>

text \<open>What the API server said about a token: accepted, for the broker's audience, under this user.\<close>

definition vouched :: "kube \<Rightarrow> Reviewer \<Rightarrow> string \<Rightarrow> tokenReview \<Rightarrow> bool" where
  "vouched ku rv presented tr \<longleftrightarrow>
     (\<exists>own resp. own_token (ku_readFile ku) rv = Inr own \<and> ku_do ku (review_request rv presented own) = Inr resp \<and>
        (hr_status resp = 200 \<or> hr_status resp = 201) \<and> decode_review (hr_body resp) = Some tr) \<and>
     tt_Authenticated (tr_Status tr) \<and> rv_audience rv \<in> set (tt_Audiences (tr_Status tr))"

lemma review_subject_Inr:
  "review_subject rv tr = Inr sub \<longleftrightarrow>
     tt_Authenticated (tr_Status tr) \<and> rv_audience rv \<in> set (tt_Audiences (tr_Status tr)) \<and>
     tu_Username (tt_User (tr_Status tr)) = saPrefix @ sub_Namespace sub @ '':'' @ sub_ServiceAccount sub \<and>
     CHR '':'' \<notin> set (sub_Namespace sub) \<and> sub_Namespace sub \<noteq> [] \<and> sub_ServiceAccount sub \<noteq> [] \<and>
     sub_Pod sub = first_extra (tu_Extra (tt_User (tr_Status tr))) podNameExtra \<and>
     sub_PodUID sub = first_extra (tu_Extra (tt_User (tr_Status tr))) podUIDExtra"
proof -
  obtain ns sa ok where c: "Cut (TrimPrefix (tu_Username (tt_User (tr_Status tr))) saPrefix) CHR '':'' = (ns, sa, ok)"
    by (cases "Cut (TrimPrefix (tu_Username (tt_User (tr_Status tr))) saPrefix) CHR '':''")
  show ?thesis
  proof
    assume "review_subject rv tr = Inr sub"
    then show "tt_Authenticated (tr_Status tr) \<and> rv_audience rv \<in> set (tt_Audiences (tr_Status tr)) \<and>
       tu_Username (tt_User (tr_Status tr)) = saPrefix @ sub_Namespace sub @ '':'' @ sub_ServiceAccount sub \<and>
       CHR '':'' \<notin> set (sub_Namespace sub) \<and> sub_Namespace sub \<noteq> [] \<and> sub_ServiceAccount sub \<noteq> [] \<and>
       sub_Pod sub = first_extra (tu_Extra (tt_User (tr_Status tr))) podNameExtra \<and>
       sub_PodUID sub = first_extra (tu_Extra (tt_User (tr_Status tr))) podUIDExtra"
      using c by (auto simp: review_subject_def Let_def List.member_iff HasPrefix_iff split: if_splits dest!: Cut_TrueD)
  qed (auto simp: review_subject_def Let_def List.member_iff Cut_found)
qed

text \<open>C8: who a token speaks for. Review accepts a presented token exactly when the API server
  answered the one request it was sent with 200 or 201 and a review that says authenticated, lists
  the broker's own audience, and names a user \<open>system:serviceaccount:<namespace>:<name>\<close> with both
  parts non-empty; and the subject is that service account. In every other case it gives an error.\<close>

theorem Review_subject:
  "snd (Review ku rv presented) = Inr sub \<longleftrightarrow>
     ku_validURL ku (rv_apiBase rv @ ''/apis/authentication.k8s.io/v1/tokenreviews'') \<and>
     (\<exists>tr. vouched ku rv presented tr \<and>
        tu_Username (tt_User (tr_Status tr)) = saPrefix @ sub_Namespace sub @ '':'' @ sub_ServiceAccount sub \<and>
        CHR '':'' \<notin> set (sub_Namespace sub) \<and> sub_Namespace sub \<noteq> [] \<and> sub_ServiceAccount sub \<noteq> [] \<and>
        sub_Pod sub = first_extra (tu_Extra (tt_User (tr_Status tr))) podNameExtra \<and>
        sub_PodUID sub = first_extra (tu_Extra (tt_User (tr_Status tr))) podUIDExtra)"
  by (auto simp: Review_def Let_def vouched_def review_subject_Inr split: sum.splits option.splits if_splits)

end
