(* ===== verification/Playground.thy ===== *)
theory Playground
  imports Authn
begin

text \<open>
  Command \<open>acb-playground\<close>: the stand-ins for the TokenReview API and for 1Password Connect that
  the quickstart runs the broker against. \<open>playground_vouches\<close> closes the loop with \<open>Review\<close>:
  a token \<open><namespace>/<serviceaccount>\<close> is accepted as that service account.
\<close>

section \<open>TokenReview\<close>

record playgroundSpec =
  pg_Token :: string
  pg_Audiences :: "string list option"

definition pg_spec_field :: "string \<Rightarrow> jval \<Rightarrow> playgroundSpec \<Rightarrow> playgroundSpec option" where
  "pg_spec_field k v s =
     (if is_field ''token'' k then map_option (\<lambda>x. s\<lparr>pg_Token := x\<rparr>) (to_string v (pg_Token s))
      else if is_field ''audiences'' k then
        (if v = VNull then Some (s\<lparr>pg_Audiences := None\<rparr>) else map_option (\<lambda>x. s\<lparr>pg_Audiences := Some x\<rparr>) (strings v))
      else Some s)"

definition pg_field :: "string \<Rightarrow> jval \<Rightarrow> playgroundSpec \<Rightarrow> playgroundSpec option" where
  "pg_field k v s = (if is_field ''spec'' k then to_struct pg_spec_field v s else Some s)"

definition decode_playground :: "string \<Rightarrow> playgroundSpec option" where
  "decode_playground body =
     (case decode_first body of
        None \<Rightarrow> None
      | Some (v, r) \<Rightarrow> to_struct pg_field v \<lparr>pg_Token = [], pg_Audiences = None\<rparr>)"

definition pg_rejected :: json where
  "pg_rejected = JMap [(''authenticated'', JBool False), (''error'', JStr ''playground tokens look like <namespace>/<serviceaccount>'')]"

definition pg_accepted :: "string list option \<Rightarrow> string \<Rightarrow> string \<Rightarrow> json" where
  "pg_accepted audiences ns sa =
     JMap [(''authenticated'', JBool True),
       (''audiences'', case audiences of None \<Rightarrow> JNull | Some l \<Rightarrow> JArr (map JStr l)),
       (''user'', JMap [(''username'', JStr (''system:serviceaccount:'' @ ns @ '':'' @ sa)),
          (''extra'', JMap [(podNameExtra, JArr [JStr (sa @ ''-playground-0'')]),
                            (podUIDExtra, JArr [JStr ''00000000-feed-face-0000-000000000000''])])])]"

definition pg_status :: "playgroundSpec \<Rightarrow> json" where
  "pg_status spec =
     (case Cut (TrimSpace (pg_Token spec)) CHR ''/'' of
        (ns, sa, ok) \<Rightarrow>
          if ok \<and> ns \<noteq> [] \<and> sa \<noteq> [] \<and> CHR ''/'' \<notin> set sa then pg_accepted (pg_Audiences spec) ns sa else pg_rejected)"

definition pg_review_json :: "playgroundSpec \<Rightarrow> json" where
  "pg_review_json spec =
     JMap [(''apiVersion'', JStr ''authentication.k8s.io/v1''), (''kind'', JStr ''TokenReview''), (''status'', pg_status spec)]"

definition playground_tokenReview :: "string \<Rightarrow> http_response" where
  "playground_tokenReview body =
     (case decode_playground body of
        None \<Rightarrow> \<lparr>hr_status = 400, hr_body = ''bad tokenreview body'' @ [CHR 0x0A]\<rparr>
      | Some spec \<Rightarrow> \<lparr>hr_status = 201, hr_body = render (pg_review_json spec) @ [CHR 0x0A]\<rparr>)"

section \<open>Connect\<close>

definition playground_listVaults :: http_response where
  "playground_listVaults = \<lparr>hr_status = 200, hr_body = ''[]''\<rparr>"

definition pg_item_field :: "string \<Rightarrow> string \<Rightarrow> string \<Rightarrow> json" where
  "pg_item_field i label v = JStrMap (Some [(''id'', i), (''label'', label), (''value'', v)])"

definition playground_getItem :: "string \<Rightarrow> http_response" where
  "playground_getItem item =
     (let suffix = (if length item > 6 then take 6 item else item)
      in \<lparr>hr_status = 200,
          hr_body = render (JMap [(''fields'', JArr
            [pg_item_field ''f1'' ''credential'' (''playground-secret-'' @ suffix),
             pg_item_field ''f2'' ''password'' (''playground-password-'' @ suffix)])]) @ [CHR 0x0A]\<rparr>)"

text \<open>The mux, after the paths are matched.\<close>

datatype playground_route = PostTokenReviews string | GetVaults | GetItem string string

fun playground_mux :: "playground_route \<Rightarrow> http_response" where
  "playground_mux (PostTokenReviews body) = playground_tokenReview body"
| "playground_mux GetVaults = playground_listVaults"
| "playground_mux (GetItem vault item) = playground_getItem item"

section \<open>Reviewing against the playground\<close>

definition playground_kube :: "string \<Rightarrow> string \<Rightarrow> kube" where
  "playground_kube base own =
     \<lparr>ku_validURL = (\<lambda>u. True), ku_readFile = (\<lambda>f. Inr own),
      ku_do = (\<lambda>req. if hq_method req = ''POST'' \<and> hq_url req = base @ ''/apis/authentication.k8s.io/v1/tokenreviews''
                     then Inr (playground_mux (PostTokenReviews (hq_body req)))
                     else Inr \<lparr>hr_status = 404, hr_body = []\<rparr>)\<rparr>"

definition review_fields :: "string list" where
  "review_fields = [''apiVersion'', ''kind'', ''spec'', ''status'', ''token'', ''audiences'', ''authenticated'', ''error'', ''user'', ''username'', ''extra'']"

lemma review_fields_ok: "distinct (map (map fold_code) review_fields)" "list_all ascii review_fields"
  by (simp_all add: review_fields_def fold_code_def ascii_def)

lemmas is_review_field = is_field_distinct [OF review_fields_ok, unfolded review_fields_def]

lemma valid_review_field: "k \<in> set review_fields \<Longrightarrow> valid_utf8 k = k"
  using review_fields_ok(2) by (auto simp: list_all_iff valid_utf8_ascii)

lemmas valid_review_fields = valid_review_field [unfolded review_fields_def]

lemma decode_playground_request:
  assumes "ascii presented" "ascii audience"
  shows "decode_playground (render (review_request_json presented audience)) =
    Some \<lparr>pg_Token = presented, pg_Audiences = Some [audience]\<rparr>"
proof -
  have "nested_within maxNestingDepth (review_request_json presented audience)"
    by (simp add: review_request_json_def maxNestingDepth_def)
  then have "decode_first (render (review_request_json presented audience)) = Some (val_of (review_request_json presented audience), [])"
    using decode_render [of "review_request_json presented audience" "[]"] by (simp add: closes_def)
  then show ?thesis
    using assms
    by (simp add: decode_playground_def review_request_json_def to_struct_def pg_field_def pg_spec_field_def
        valid_review_fields is_review_field to_string_def strings_def to_slice_def valid_utf8_ascii)
qed

definition pg_user :: "string \<Rightarrow> string \<Rightarrow> tokenReviewUser" where
  "pg_user ns sa = \<lparr>tu_Username = ''system:serviceaccount:'' @ ns @ '':'' @ sa,
     tu_Extra = [(podNameExtra, [sa @ ''-playground-0'']), (podUIDExtra, [''00000000-feed-face-0000-000000000000''])]\<rparr>"

lemma ascii_append [simp]: "ascii (a @ b) \<longleftrightarrow> ascii a \<and> ascii b" "ascii (c # b) \<longleftrightarrow> byte c < 128 \<and> ascii b" "ascii []"
  by (auto simp: ascii_def)

lemma decode_pg_user:
  assumes "ascii ns" "ascii sa"
  shows "to_struct user_field (val_of (JMap [(''username'', JStr (''system:serviceaccount:'' @ ns @ '':'' @ sa)),
      (''extra'', JMap [(podNameExtra, JArr [JStr (sa @ ''-playground-0'')]),
         (podUIDExtra, JArr [JStr ''00000000-feed-face-0000-000000000000''])])])) \<lparr>tu_Username = [], tu_Extra = []\<rparr> = Some (pg_user ns sa)"
  using assms
  by (simp add: JMap_def to_struct_def user_field_def valid_review_fields is_review_field to_string_def to_map_def strings_def
      to_slice_def valid_utf8_ascii podNameExtra_def podUIDExtra_def pg_user_def)

lemma decode_pg_status:
  assumes "ascii ns" "ascii sa" "ascii audience"
  shows "to_struct status_field (val_of (pg_accepted (Some [audience]) ns sa)) zero_status =
    Some (zero_status\<lparr>tt_Authenticated := True, tt_Audiences := [audience], tt_User := pg_user ns sa\<rparr>)"
proof -
  note user = decode_pg_user [OF assms(1,2)]
  let ?u = "JMap [(''username'', JStr (''system:serviceaccount:'' @ ns @ '':'' @ sa)),
      (''extra'', JMap [(podNameExtra, JArr [JStr (sa @ ''-playground-0'')]),
         (podUIDExtra, JArr [JStr ''00000000-feed-face-0000-000000000000''])])]"
  have "val_of (pg_accepted (Some [audience]) ns sa) =
      VObj [(''audiences'', VArr [VStr audience]), (''authenticated'', VBool True), (''user'', val_of ?u)]"
    using assms(3) by (simp add: pg_accepted_def JMap_def [of "[(''authenticated'', _), _, _]"] valid_review_fields valid_utf8_ascii)
  then show ?thesis
    using user
    by (simp add: to_struct_def [of status_field] status_field_def is_review_field to_bool_def strings_def to_slice_def to_string_def
        zero_status_def)
qed

definition playground_reviewer :: "string \<Rightarrow> string \<Rightarrow> Reviewer" where
  "playground_reviewer base audience = \<lparr>rv_apiBase = base, rv_audience = audience, rv_tokenFile = ''token'', rv_rootCAs = None\<rparr>"

lemma nested_JMap: "d \<noteq> 0 \<Longrightarrow> nested_within d (JMap m) \<longleftrightarrow> (\<forall>kv \<in> set m. nested_within (d - 1) (snd kv))"
  by (cases d) (simp_all add: JMap_def)

lemma nested_JArr: "d \<noteq> 0 \<Longrightarrow> nested_within d (JArr l) \<longleftrightarrow> (\<forall>x \<in> set l. nested_within (d - 1) x)"
  by (cases d) simp_all

lemma pg_review_decoded:
  assumes "ascii ns" "ascii sa" "ascii audience" "pg_status spec = pg_accepted (Some [audience]) ns sa"
  shows "decode_review (render (pg_review_json spec) @ [CHR 0x0A]) =
    Some \<lparr>tr_APIVersion = ''authentication.k8s.io/v1'', tr_Kind = ''TokenReview'', tr_Spec = \<lparr>ts_Token = [], ts_Audiences = []\<rparr>,
      tr_Status = zero_status\<lparr>tt_Authenticated := True, tt_Audiences := [audience], tt_User := pg_user ns sa\<rparr>\<rparr>"
proof -
  have "nested_within maxNestingDepth (pg_review_json spec)"
    unfolding pg_review_json_def assms(4) pg_accepted_def maxNestingDepth_def by (simp add: nested_JMap nested_JArr)
  then have "decode_first (render (pg_review_json spec) @ [CHR 0x0A]) = Some (val_of (pg_review_json spec), [CHR 0x0A])"
    by (rule decode_render) (simp add: closes_def)
  moreover have "val_of (pg_review_json spec) = VObj [(''apiVersion'', VStr ''authentication.k8s.io/v1''), (''kind'', VStr ''TokenReview''),
      (''status'', val_of (pg_accepted (Some [audience]) ns sa))]"
    unfolding pg_review_json_def assms(4) by (simp add: JMap_def valid_review_fields) (simp add: valid_utf8_ascii)
  ultimately show ?thesis
    using decode_pg_status [OF assms(1-3)]
    by (simp add: decode_review_def to_struct_def [of review_field] review_field_def is_review_field to_string_def zero_review_def)
qed

text \<open>A token \<open><namespace>/<serviceaccount>\<close> of plain characters is reviewed as that account.\<close>

lemma playground_vouches:
  assumes "ascii ns" "ascii sa" "ascii audience" "TrimSpace (ns @ CHR ''/'' # sa) = ns @ CHR ''/'' # sa"
    "ns \<noteq> []" "sa \<noteq> []" "CHR ''/'' \<notin> set ns" "CHR ''/'' \<notin> set sa" "CHR '':'' \<notin> set ns"
  shows "snd (Review (playground_kube base own) (playground_reviewer base audience) (ns @ CHR ''/'' # sa)) =
    Inr \<lparr>sub_Namespace = ns, sub_ServiceAccount = sa, sub_Pod = sa @ ''-playground-0'',
         sub_PodUID = ''00000000-feed-face-0000-000000000000''\<rparr>"
proof -
  have spec: "decode_playground (render (review_request_json (ns @ CHR ''/'' # sa) audience)) =
      Some \<lparr>pg_Token = ns @ CHR ''/'' # sa, pg_Audiences = Some [audience]\<rparr>"
    using assms by (intro decode_playground_request) simp_all
  have status: "pg_status \<lparr>pg_Token = ns @ CHR ''/'' # sa, pg_Audiences = Some [audience]\<rparr> = pg_accepted (Some [audience]) ns sa"
    using assms by (simp add: pg_status_def Cut_found)
  have cut: "Cut (TrimPrefix (''system:serviceaccount:'' @ ns @ '':'' @ sa) saPrefix) CHR '':'' = (ns, sa, True)"
    using assms(9) Cut_found TrimPrefix_append [of saPrefix] by (simp add: saPrefix_def)
  have pre: "HasPrefix (''system:serviceaccount:'' @ ns @ '':'' @ sa) saPrefix"
    using HasPrefix_append [of saPrefix] by (simp add: saPrefix_def)
  show ?thesis
    using cut pre assms(5,6) pg_review_decoded [OF assms(1-3) status]
    by (simp add: Review_def Let_def playground_kube_def playground_reviewer_def own_token_def review_request_def
        playground_tokenReview_def spec review_subject_def pg_user_def zero_status_def first_extra_def List.member_iff
        podNameExtra_def podUIDExtra_def)
qed

text \<open>A reviewer, its playground, and a token, for the statements about \<open>Review\<close>.\<close>

lemma playground_sample:
  "snd (Review (playground_kube ''http://pg'' ''t'') (playground_reviewer ''http://pg'' ''acb'') ''ns/sa'') =
    Inr \<lparr>sub_Namespace = ''ns'', sub_ServiceAccount = ''sa'', sub_Pod = ''sa-playground-0'',
         sub_PodUID = ''00000000-feed-face-0000-000000000000''\<rparr>"
  using playground_vouches [of "''ns''" "''sa''" "''acb''" "''http://pg''" "''t''"] TrimSpace_visible [of "''ns/sa''"]
  by (simp add: visible_def)

end
