(* ===== verification/Identity.thy ===== *)
theory Identity
  imports Lifecycle Playground
begin

text \<open>
  The broker with its authenticator: \<open>server.New\<close> is given the \<open>Review\<close> method of the reviewer, so
  what the middleware takes for a subject is what the API server vouched for. The theorem follows
  a secret back to the service account that may have it.
\<close>

text \<open>The error of \<open>Review\<close> is never looked at: every failure gives the same response.\<close>

definition authn_of :: "(nat \<Rightarrow> kube) \<Rightarrow> Reviewer \<Rightarrow> nat \<Rightarrow> string \<Rightarrow> string + Subject" where
  "authn_of ku rv k token =
     (case snd (Review (ku k) rv token) of Inl e \<Rightarrow> Inl ''unauthenticated'' | Inr sub \<Rightarrow> Inr sub)"

lemma authn_of_Inr: "authn_of ku rv k token = Inr sub \<longleftrightarrow> snd (Review (ku k) rv token) = Inr sub"
  by (simp add: authn_of_def split: sum.split)

lemma review_Inr:
  assumes "snd (Review ku rv presented) = Inr sub"
  shows "\<exists>tr. vouched ku rv presented tr \<and>
    tu_Username (tt_User (tr_Status tr)) = saPrefix @ sub_Namespace sub @ '':'' @ sub_ServiceAccount sub"
  using assms
  by (auto simp: Review_def Let_def vouched_def review_subject_Inr split: sum.splits option.splits if_splits)

text \<open>A key that holds a grant has one slash, so it names one service account.\<close>

lemma granted_key:
  assumes "policy_ok p" "GrantOf p (Key sub) sc = Some g"
  shows "CHR ''/'' \<notin> set (sub_Namespace sub) \<and> CHR ''/'' \<notin> set (sub_ServiceAccount sub)"
proof -
  have "Key sub \<in> lang subjectKeyPattern"
    using assms(2) unfolding GrantOf_iff [OF assms(1)] using assms(1) by (auto simp: policy_ok_def)
  then obtain ns sa where k: "Key sub = ns @ CHR ''/'' # sa" "CHR ''/'' \<notin> set ns" "CHR ''/'' \<notin> set sa"
    using subjectKey_lang by blast
  then have "sub_Namespace sub @ CHR ''/'' # sub_ServiceAccount sub = ns @ CHR ''/'' # sa" by (simp add: Key_def)
  moreover have "count_list (ns @ CHR ''/'' # sa) (CHR ''/'') = 1" using k(2,3) by (simp add: count_list_0_iff)
  ultimately have "count_list (sub_Namespace sub @ CHR ''/'' # sub_ServiceAccount sub) (CHR ''/'') = 1" by simp
  then show ?thesis by (simp add: count_list_0_iff)
qed

text \<open>What a response with secret material means when the authenticator is the reviewer's: the request
  carried a bearer token, the API server vouched for it at that request, and the policy in force
  grants the scope asked for to the account it named.\<close>

lemma Handler_secret_granted:
  assumes "en_authn e = authn_of ku rv" "policy_ok (Current (sv_policies s))" "\<not> no_secret (fst (Handler e r rt s))"
  shows "\<exists>token tr ns sa req g. hi_Authorization r = ''Bearer '' @ token \<and>
    vouched (ku (Suc (sv_tick s))) rv token tr \<and>
    tu_Username (tt_User (tr_Status tr)) = saPrefix @ ns @ '':'' @ sa \<and>
    rt = PostLeases (Decoded req) \<and> GrantOf (Current (sv_policies s)) (ns @ ''/'' @ sa) (lq_Scope req) = Some g \<and>
    CHR ''/'' \<notin> set ns \<and> CHR ''/'' \<notin> set sa"
proof -
  obtain token sub body rc where h: "hi_Authorization r = ''Bearer '' @ token"
      "en_authn e (Suc (sv_tick s)) token = Inr sub" "rt = PostLeases body" "rc_Subject rc = sub"
      "\<not> no_secret (fst (handleLeaseCreate e rc body (tick (tick s))))"
    using Handler_secret [OF assms(3)] by blast
  obtain tr where tr: "vouched (ku (Suc (sv_tick s))) rv token tr"
      "tu_Username (tt_User (tr_Status tr)) = saPrefix @ sub_Namespace sub @ '':'' @ sub_ServiceAccount sub"
    using h(2) review_Inr unfolding assms(1) authn_of_Inr by blast
  have ok: "policy_ok (Current (sv_policies (tick (tick s))))" using assms(2) by simp
  then show ?thesis
  proof (cases rule: handleLeaseCreate_cases [of "tick (tick s)" body rc e])
    case (issued req g sc l secret ev)
    then have "GrantOf (Current (sv_policies s)) (Key sub) (lq_Scope req) = Some g" using h(4) by simp
    moreover from granted_key [OF assms(2) this]
    have "CHR ''/'' \<notin> set (sub_Namespace sub)" "CHR ''/'' \<notin> set (sub_ServiceAccount sub)" by simp_all
    ultimately show ?thesis
      using h(1,3) tr issued(1) unfolding Key_def by blast
  next
    case refused
    then show ?thesis using h(5) by blast
  qed
qed

text \<open>The handlers do not look at the authenticator.\<close>

lemma now_of_authn: "now_of (e\<lparr>en_authn := a\<rparr>) s = now_of e s"
  by (simp add: now_of_def)

lemma metric_authn: "metric_inc (e\<lparr>en_authn := a\<rparr>) = metric_inc e" "metric_add (e\<lparr>en_authn := a\<rparr>) = metric_add e"
  by (simp_all add: fun_eq_iff metric_inc_def split_beta Let_def metric_add_def)

lemma emit_authn: "emit (e\<lparr>en_authn := a\<rparr>) = emit e"
  by (simp add: fun_eq_iff emit_def split_beta Let_def now_of_authn metric_authn)

lemma allow_authn: "allow_lease (e\<lparr>en_authn := a\<rparr>) = allow_lease e" "allow_rlAudit (e\<lparr>en_authn := a\<rparr>) = allow_rlAudit e"
  by (simp_all add: fun_eq_iff allow_lease_def split_beta Let_def allow_rlAudit_def now_of_authn)

lemmas env_authn = now_of_authn metric_authn emit_authn allow_authn

lemma handleLeaseCreate_authn: "handleLeaseCreate (e\<lparr>en_authn := a\<rparr>) rc body s = handleLeaseCreate e rc body s"
proof -
  have rl: "rateLimited (e\<lparr>en_authn := a\<rparr>) = rateLimited e" by (simp add: fun_eq_iff rateLimited_def split_beta Let_def env_authn)
  have deny: "deny (e\<lparr>en_authn := a\<rparr>) = deny e" by (simp add: fun_eq_iff deny_def split_beta Let_def env_authn)
  have closed: "auditFailClosed (e\<lparr>en_authn := a\<rparr>) = auditFailClosed e" by (simp add: fun_eq_iff auditFailClosed_def split_beta Let_def env_authn)
  have recorded: "issue_record (e\<lparr>en_authn := a\<rparr>) = issue_record e" by (simp add: fun_eq_iff issue_record_def split_beta Let_def env_authn closed cong: option.case_cong)
  have issue: "create_issue (e\<lparr>en_authn := a\<rparr>) = create_issue e" by (simp add: fun_eq_iff create_issue_def split_beta Let_def env_authn recorded cong: option.case_cong sum.case_cong)
  have fetch: "create_fetch (e\<lparr>en_authn := a\<rparr>) = create_fetch e"
    by (simp add: fun_eq_iff create_fetch_def split_beta Let_def env_authn issue deny cong: option.case_cong sum.case_cong)
  show ?thesis unfolding handleLeaseCreate_def env_authn rl deny fetch ..
qed

definition identified_env :: env where
  "identified_env = (sample_env Written)\<lparr>en_authn :=
     authn_of (\<lambda>k. playground_kube ''http://pg'' ''t'') (playground_reviewer ''http://pg'' ''acb'')\<rparr>"

definition identified_http :: http_in where
  "identified_http = \<lparr>hi_RemoteAddr = ''10.0.0.1:5000'', hi_UserAgent = ''agent'', hi_Authorization = ''Bearer ns/sa''\<rparr>"

lemma identified_secret:
  assumes "like_sample (tick (tick s))"
  shows "\<not> no_secret (fst (Handler identified_env identified_http (PostLeases (Decoded sample_lease_req)) s))"
proof -
  let ?sub = "\<lparr>sub_Namespace = ''ns'', sub_ServiceAccount = ''sa'', sub_Pod = ''sa-playground-0'',
    sub_PodUID = ''00000000-feed-face-0000-000000000000''\<rparr>"
  have "hi_Authorization identified_http = ''Bearer '' @ ''ns/sa''"
    "en_authn identified_env (Suc (sv_tick s)) ''ns/sa'' = Inr ?sub"
    using playground_sample by (simp_all add: identified_http_def identified_env_def authn_of_Inr)
  then obtain rc where "rc_Subject rc = ?sub"
      "rp_body (fst (Handler identified_env identified_http (PostLeases (Decoded sample_lease_req)) s)) =
       rp_body (fst (handleLeaseCreate identified_env rc (Decoded sample_lease_req) (tick (tick s))))"
    using Handler_accepted [of identified_http "''ns/sa''" identified_env s ?sub
        "PostLeases (Decoded sample_lease_req)"] by auto
  then show ?thesis
    using sample_create_secret [OF assms, of rc]
    by (simp add: no_secret_def Key_def identified_env_def handleLeaseCreate_authn)
qed

end
