(* ===== verification/Tlsx.thy ===== *)
theory Tlsx
  imports Go_Time
begin

text \<open>
  Package \<open>internal/tlsx\<close>: the certificate that TLS handshakes are served with. \<open>os.Stat\<close> and
  \<open>tls.LoadX509KeyPair\<close> answer through a \<open>disk\<close>, one per handshake; the two answers need not be
  of one moment, so a rotation between them is covered. A keypair is the value of type \<open>'c\<close>.
\<close>

record 'c disk =
  dk_stat :: "string \<Rightarrow> string + time"
  dk_load :: "string \<Rightarrow> string \<Rightarrow> string + 'c"

record 'c Reloader_state =
  tl_CertFile :: string
  tl_KeyFile :: string
  tl_cert :: "'c option"
  tl_mod :: time

definition new_reloader :: "string \<Rightarrow> string \<Rightarrow> 'c Reloader_state" where
  "new_reloader certFile keyFile = \<lparr>tl_CertFile = certFile, tl_KeyFile = keyFile, tl_cert = None, tl_mod = zero_time\<rparr>"

definition GetCertificate :: "'c disk \<Rightarrow> 'c Reloader_state \<Rightarrow> (string + 'c) \<times> 'c Reloader_state" where
  "GetCertificate d r =
     (case dk_stat d (tl_CertFile r) of
        Inl err \<Rightarrow> (case tl_cert r of Some c \<Rightarrow> (Inr c, r) | None \<Rightarrow> (Inl err, r))
      | Inr modTime \<Rightarrow>
          (case tl_cert r of
             Some c \<Rightarrow>
               if \<not> After modTime (tl_mod r) then (Inr c, r)
               else (case dk_load d (tl_CertFile r) (tl_KeyFile r) of
                       Inl err \<Rightarrow> (Inr c, r)
                     | Inr pair \<Rightarrow> (Inr pair, r\<lparr>tl_cert := Some pair, tl_mod := modTime\<rparr>))
           | None \<Rightarrow>
               (case dk_load d (tl_CertFile r) (tl_KeyFile r) of
                  Inl err \<Rightarrow> (Inl err, r)
                | Inr pair \<Rightarrow> (Inr pair, r\<lparr>tl_cert := Some pair, tl_mod := modTime\<rparr>))))"

text \<open>\<open>Config\<close>: the error of the eager load, or the reloader the returned configuration serves from.\<close>

definition Reloader_Config :: "'c disk \<Rightarrow> 'c Reloader_state \<Rightarrow> string + 'c Reloader_state" where
  "Reloader_Config d r = (case GetCertificate d r of (Inl err, r1) \<Rightarrow> Inl err | (Inr c, r1) \<Rightarrow> Inr r1)"

text \<open>A sequence of handshakes.\<close>

fun serve :: "'c disk list \<Rightarrow> 'c Reloader_state \<Rightarrow> (string + 'c) list \<times> 'c Reloader_state" where
  "serve [] r = ([], r)"
| "serve (d # ds) r = (let (c, r1) = GetCertificate d r; (cs, r2) = serve ds r1 in (c # cs, r2))"

section \<open>The cell\<close>

definition pair_offered :: "'c disk \<Rightarrow> 'c Reloader_state \<Rightarrow> 'c option" where
  "pair_offered d r =
     (case dk_stat d (tl_CertFile r) of
        Inl e \<Rightarrow> None
      | Inr m \<Rightarrow> if tl_cert r \<noteq> None \<and> m \<le> tl_mod r then None
                 else (case dk_load d (tl_CertFile r) (tl_KeyFile r) of Inl e \<Rightarrow> None | Inr pair \<Rightarrow> Some pair))"

lemma GetCertificate_offered:
  "pair_offered d r = Some pair \<Longrightarrow> \<exists>m. dk_stat d (tl_CertFile r) = Inr m \<and>
     GetCertificate d r = (Inr pair, r\<lparr>tl_cert := Some pair, tl_mod := m\<rparr>)"
  by (auto simp: pair_offered_def GetCertificate_def After_def split: sum.splits if_splits option.splits)

lemma GetCertificate_kept:
  "pair_offered d r = None \<Longrightarrow> snd (GetCertificate d r) = r"
  "pair_offered d r = None \<Longrightarrow> tl_cert r = Some c \<Longrightarrow> fst (GetCertificate d r) = Inr c"
  by (auto simp: pair_offered_def GetCertificate_def After_def split: sum.splits if_splits option.splits)

interpretation certs: last_good_cell "\<lambda>d r. snd (GetCertificate d r)" tl_cert "\<lambda>d r. map_option Some (pair_offered d r)"
proof (standard, goal_cases)
  case (1 d r v)
  then show ?case using GetCertificate_offered by fastforce
next
  case (2 d r)
  then show ?case by (simp add: GetCertificate_kept)
qed

lemma GetCertificate_files [simp]:
  "tl_CertFile (snd (GetCertificate d r)) = tl_CertFile r" "tl_KeyFile (snd (GetCertificate d r)) = tl_KeyFile r"
  by (simp_all add: GetCertificate_def split: sum.split option.split)

lemma pair_offered_load: "pair_offered d r = Some pair \<Longrightarrow> dk_load d (tl_CertFile r) (tl_KeyFile r) = Inr pair"
  by (auto simp: pair_offered_def split: sum.splits if_splits)

lemma serve_Cons: "serve (d # ds) r = (fst (GetCertificate d r) # fst (serve ds (snd (GetCertificate d r))), snd (serve ds (snd (GetCertificate d r))))"
  by (simp add: split_beta Let_def)

lemma serve_append: "fst (serve (ds @ es) r) = fst (serve ds r) @ fst (serve es (snd (serve ds r)))"
  by (induction ds arbitrary: r) (simp_all add: serve_Cons del: serve.simps(2))

lemma serve_length [simp]: "length (fst (serve ds r)) = length ds"
  by (induction ds arbitrary: r) (simp_all add: serve_Cons del: serve.simps(2))

text \<open>With a certificate in the cell, a handshake is served with that one or with one it loads.\<close>

lemma GetCertificate_cases [consumes 1]:
  assumes "tl_cert r = Some c"
  obtains (kept) "GetCertificate d r = (Inr c, r)" "pair_offered d r = None"
  | (fresh) pair m where "GetCertificate d r = (Inr pair, r\<lparr>tl_cert := Some pair, tl_mod := m\<rparr>)" "pair_offered d r = Some pair"
      "dk_load d (tl_CertFile r) (tl_KeyFile r) = Inr pair" "dk_stat d (tl_CertFile r) = Inr m" "tl_mod r < m"
proof (cases "pair_offered d r")
  case None
  then show ?thesis using kept GetCertificate_kept [OF None] assms by (metis prod.collapse)
next
  case (Some pair)
  obtain m where m: "dk_stat d (tl_CertFile r) = Inr m" "GetCertificate d r = (Inr pair, r\<lparr>tl_cert := Some pair, tl_mod := m\<rparr>)"
    using GetCertificate_offered [OF Some] by blast
  have "tl_mod r < m" using Some m(1) assms by (auto simp: pair_offered_def not_le split: if_splits)
  with m show ?thesis using fresh pair_offered_load [OF Some] Some by blast
qed

lemma serve_loaded:
  assumes "tl_cert r = Some c" "\<exists>d \<in> D. dk_load d (tl_CertFile r) (tl_KeyFile r) = Inr c" "set ds \<subseteq> D"
  shows "\<forall>res \<in> set (fst (serve ds r)). \<exists>pair. res = Inr pair \<and> (\<exists>d \<in> D. dk_load d (tl_CertFile r) (tl_KeyFile r) = Inr pair)"
  using assms
proof (induction ds arbitrary: r c)
  case (Cons d ds)
  show ?case
    using Cons.prems(1)
  proof (cases rule: GetCertificate_cases [of r c d])
    case kept
    then show ?thesis using Cons by (simp add: serve_Cons del: serve.simps(2))
  next
    case (fresh pair m)
    have "d \<in> D" using Cons.prems(3) by simp
    then show ?thesis
      using fresh(1,3) Cons.prems(3) Cons.IH [of "snd (GetCertificate d r)" pair] by (auto simp: serve_Cons simp del: serve.simps(2))
  qed
qed simp

lemma serve_before:
  assumes "tl_cert r = Some c" "tl_mod r < m" "\<forall>d \<in> set ds. \<forall>m'. dk_stat d (tl_CertFile r) = Inr m' \<longrightarrow> m' < m"
  shows "tl_cert (snd (serve ds r)) \<noteq> None \<and> tl_mod (snd (serve ds r)) < m \<and>
    tl_CertFile (snd (serve ds r)) = tl_CertFile r \<and> tl_KeyFile (snd (serve ds r)) = tl_KeyFile r"
  using assms
proof (induction ds arbitrary: r c)
  case (Cons d ds)
  show ?case
    using Cons.prems(1)
  proof (cases rule: GetCertificate_cases [of r c d])
    case kept
    then show ?thesis using Cons by (simp add: serve_Cons del: serve.simps(2))
  next
    case (fresh pair m1)
    then show ?thesis using Cons.prems(3) Cons.IH [of "snd (GetCertificate d r)" pair]
      by (auto simp: serve_Cons simp del: serve.simps(2))
  qed
qed simp

lemma serve_after:
  assumes "tl_cert r = Some c" "tl_mod r < m \<or> tl_mod r = m \<and> c = new"
    and "\<forall>d \<in> set ds. dk_stat d (tl_CertFile r) = Inr m \<and> dk_load d (tl_CertFile r) (tl_KeyFile r) = Inr new"
  shows "fst (serve ds r) = replicate (length ds) (Inr new)"
  using assms
proof (induction ds arbitrary: r c)
  case (Cons d ds)
  show ?case
    using Cons.prems(1)
  proof (cases rule: GetCertificate_cases [of r c d])
    case kept
    then have "c = new" using Cons.prems by (auto simp: pair_offered_def split: if_splits)
    then show ?thesis using kept Cons by (simp add: serve_Cons del: serve.simps(2))
  next
    case (fresh pair m1)
    then show ?thesis using Cons.prems(3) Cons.IH [of "snd (GetCertificate d r)" new]
      by (simp add: serve_Cons del: serve.simps(2))
  qed
qed simp

section \<open>Properties\<close>

lemma Config_loaded:
  assumes "Reloader_Config d0 (new_reloader certFile keyFile) = Inr r"
  obtains c m where "r = \<lparr>tl_CertFile = certFile, tl_KeyFile = keyFile, tl_cert = Some c, tl_mod = m\<rparr>"
    "dk_load d0 certFile keyFile = Inr c" "dk_stat d0 certFile = Inr m"
  using assms by (auto simp: Reloader_Config_def GetCertificate_def new_reloader_def split: sum.splits prod.splits)

text \<open>C36: TLS is never dropped. Once \<open>Config\<close> has loaded a keypair, every later handshake is served a
  keypair, whatever happens to the files, and only one that loaded from the two configured files
  at start-up or at a handshake.\<close>

theorem reloader_never_drops:
  assumes "Reloader_Config d0 (new_reloader certFile keyFile) = Inr r"
  shows "length (fst (serve ds r)) = length ds \<and>
    (\<forall>res \<in> set (fst (serve ds r)). \<exists>pair. res = Inr pair \<and> (\<exists>d \<in> set (d0 # ds). dk_load d certFile keyFile = Inr pair))"
proof -
  obtain c m where r: "r = \<lparr>tl_CertFile = certFile, tl_KeyFile = keyFile, tl_cert = Some c, tl_mod = m\<rparr>" "dk_load d0 certFile keyFile = Inr c"
    using Config_loaded [OF assms] by blast
  then show ?thesis using serve_loaded [of r c "set (d0 # ds)" ds] by auto
qed

text \<open>C37: a rotation is served. While the certificate file shows modification times before \<open>m\<close>, failed
  reads and unloadable keypairs included, nothing is lost: as soon as it shows \<open>m\<close> and the new
  keypair loads, the first handshake and all that follow are served with the new one.\<close>

theorem reloader_rotation_served:
  assumes "Reloader_Config d0 (new_reloader certFile keyFile) = Inr r"
    and "\<forall>d \<in> set (d0 # before). \<forall>m'. dk_stat d certFile = Inr m' \<longrightarrow> m' < m"
    and "\<forall>d \<in> set after. dk_stat d certFile = Inr m \<and> dk_load d certFile keyFile = Inr new"
  shows "drop (length before) (fst (serve (before @ after) r)) = replicate (length after) (Inr new)"
proof -
  obtain c m0 where r: "r = \<lparr>tl_CertFile = certFile, tl_KeyFile = keyFile, tl_cert = Some c, tl_mod = m0\<rparr>" "dk_stat d0 certFile = Inr m0"
    using Config_loaded [OF assms(1)] by blast
  let ?r = "snd (serve before r)"
  have "m0 < m" using assms(2) r(2) by simp
  then have b: "tl_cert ?r \<noteq> None" "tl_mod ?r < m" "tl_CertFile ?r = certFile" "tl_KeyFile ?r = keyFile"
    using serve_before [of r c m before] assms(2) r(1) by simp_all
  then obtain c1 where "tl_cert ?r = Some c1" by auto
  then have "fst (serve after ?r) = replicate (length after) (Inr new)"
    using serve_after [of ?r c1 m new after] b assms(3) by simp
  then show ?thesis by (simp add: serve_append)
qed

definition sample_disk :: "time \<Rightarrow> string \<Rightarrow> string disk" where
  "sample_disk m pair = \<lparr>dk_stat = (\<lambda>f. Inr m), dk_load = (\<lambda>c k. Inr pair)\<rparr>"

definition broken_disk :: "string disk" where
  "broken_disk = \<lparr>dk_stat = (\<lambda>f. Inr 5), dk_load = (\<lambda>c k. Inl ''mismatch'')\<rparr>"

lemma sample_config:
  "Reloader_Config (sample_disk 3 ''old'') (new_reloader ''c'' ''k'') =
     Inr \<lparr>tl_CertFile = ''c'', tl_KeyFile = ''k'', tl_cert = Some ''old'', tl_mod = 3\<rparr>"
  by (simp add: Reloader_Config_def GetCertificate_def new_reloader_def sample_disk_def)

theorem reloader_never_drops_witness:
  "set (fst (serve [broken_disk, sample_disk 6 ''new'']
     \<lparr>tl_CertFile = ''c'', tl_KeyFile = ''k'', tl_cert = Some ''old'', tl_mod = 3\<rparr>)) \<subseteq> {Inr ''old'', Inr ''new''}"
  using reloader_never_drops [OF sample_config, of "[broken_disk, sample_disk 6 ''new'']"]
  by (auto simp: broken_disk_def sample_disk_def)

theorem reloader_rotation_served_witness:
  "drop 1 (fst (serve [broken_disk, sample_disk 6 ''new'', sample_disk 6 ''new'']
     \<lparr>tl_CertFile = ''c'', tl_KeyFile = ''k'', tl_cert = Some ''old'', tl_mod = 3\<rparr>)) = [Inr ''new'', Inr ''new'']"
  using reloader_rotation_served [OF sample_config, of "[broken_disk]" 6 "[sample_disk 6 ''new'', sample_disk 6 ''new'']" "''new''"]
  by (simp add: broken_disk_def sample_disk_def numeral_2_eq_2)

end
