(* ===== verification/Go_Base64.thy ===== *)
theory Go_Base64
  imports Go_Encoding
begin

text \<open>
  \<open>base64.Encoding.DecodeString\<close> for the two encodings the sources use: line breaks are skipped,
  the standard encoding wants its padding, the raw one has none. Trailing bits are not checked,
  as the encodings are not strict. Decoding undoes encoding.
\<close>

definition b64_value :: "string \<Rightarrow> char \<Rightarrow> nat option" where
  "b64_value extra c =
     (if in_range 65 90 c then Some (byte c - 65)
      else if in_range 97 122 c then Some (byte c - 71)
      else if in_range 48 57 c then Some (byte c + 4)
      else if c = extra ! 0 then Some 62
      else if c = extra ! 1 then Some 63
      else None)"

definition skip_breaks :: "string \<Rightarrow> string" where
  "skip_breaks s = filter (\<lambda>c. c \<noteq> CHR 0x0A \<and> c \<noteq> CHR 0x0D) s"

definition quad1 :: "nat \<Rightarrow> nat \<Rightarrow> char" where "quad1 w x = char_of (w * 4 + x div 16)"
definition quad2 :: "nat \<Rightarrow> nat \<Rightarrow> char" where "quad2 x y = char_of (x mod 16 * 16 + y div 4)"
definition quad3 :: "nat \<Rightarrow> nat \<Rightarrow> char" where "quad3 y z = char_of (y mod 4 * 64 + z)"

text \<open>The last one or two bytes, from two or three digits.\<close>

definition b64_one :: "string \<Rightarrow> char \<Rightarrow> char \<Rightarrow> string option" where
  "b64_one ex a b =
     (case (b64_value ex a, b64_value ex b) of (Some w, Some x) \<Rightarrow> Some [quad1 w x] | _ \<Rightarrow> None)"

definition b64_two :: "string \<Rightarrow> char \<Rightarrow> char \<Rightarrow> char \<Rightarrow> string option" where
  "b64_two ex a b c =
     (case (b64_value ex a, b64_value ex b, b64_value ex c) of
        (Some w, Some x, Some y) \<Rightarrow> Some [quad1 w x, quad2 x y]
      | _ \<Rightarrow> None)"

definition b64_three :: "string \<Rightarrow> char \<Rightarrow> char \<Rightarrow> char \<Rightarrow> char \<Rightarrow> string option" where
  "b64_three ex a b c d =
     (case (b64_value ex a, b64_value ex b, b64_value ex c, b64_value ex d) of
        (Some w, Some x, Some y, Some z) \<Rightarrow> Some [quad1 w x, quad2 x y, quad3 y z]
      | _ \<Rightarrow> None)"

fun b64_padded :: "string \<Rightarrow> string \<Rightarrow> string option" where
  "b64_padded ex [] = Some []"
| "b64_padded ex (a # b # c # d # r) =
     (if c = CHR ''='' then (if d = CHR ''='' \<and> r = [] then b64_one ex a b else None)
      else if d = CHR ''='' then (if r = [] then b64_two ex a b c else None)
      else case b64_three ex a b c d of
        None \<Rightarrow> None
      | Some u \<Rightarrow> map_option ((@) u) (b64_padded ex r))"
| "b64_padded ex _ = None"

fun b64_unpadded :: "string \<Rightarrow> string \<Rightarrow> string option" where
  "b64_unpadded ex [] = Some []"
| "b64_unpadded ex [a] = None"
| "b64_unpadded ex [a, b] = b64_one ex a b"
| "b64_unpadded ex [a, b, c] = b64_two ex a b c"
| "b64_unpadded ex (a # b # c # d # r) =
     (case b64_three ex a b c d of
        None \<Rightarrow> None
      | Some u \<Rightarrow> map_option ((@) u) (b64_unpadded ex r))"

definition b64_std_decode :: "string \<Rightarrow> string option" where
  "b64_std_decode s = b64_padded ''+/'' (skip_breaks s)"

definition b64_rawurl_decode :: "string \<Rightarrow> string option" where
  "b64_rawurl_decode s = b64_unpadded ''-_'' (skip_breaks s)"

section \<open>Decoding undoes encoding\<close>

definition alphabet_ok :: "string \<Rightarrow> bool" where
  "alphabet_ok ex \<longleftrightarrow> ex = ''+/'' \<or> ex = ''-_''"

lemma b64_alphabet_code: "byte (b64_alphabet ex n) =
    (if n < 26 then 65 + n else if n < 52 then 71 + n else if n < 62 then n - 4 else byte (ex ! (n - 62)))"
  by (simp add: b64_alphabet_def of_char_of)

lemma b64_value_alphabet: "alphabet_ok ex \<Longrightarrow> n < 64 \<Longrightarrow> b64_value ex (b64_alphabet ex n) = Some n"
proof -
  assume ex: "alphabet_ok ex" and n: "n < 64"
  consider "n < 62" | "n = 62" | "n = 63" using n by linarith
  then show ?thesis
  proof cases
    case 1
    then show ?thesis by (auto simp: b64_value_def in_range_def b64_alphabet_code)
  qed (use ex in \<open>auto simp: alphabet_ok_def b64_value_def in_range_def b64_alphabet_def\<close>)
qed

lemma b64_alphabet_plain:
  "alphabet_ok ex \<Longrightarrow> n < 64 \<Longrightarrow> b64_alphabet ex n \<notin> {CHR ''='', CHR 0x0A, CHR 0x0D}"
  using b64_value_alphabet [of ex n] by (auto simp: b64_value_def in_range_def alphabet_ok_def)

lemma byte_bound: "byte c < 256"
  using nat_of_char_less_256 [of c] by simp

lemma byte_div: "byte c div 4 < 64" "byte c div 16 < 16" "byte c div 64 < 4"
  using byte_bound [of c] by (auto intro!: less_mult_imp_div_less)

lemma quads:
  "quad1 (byte a div 4) (byte a mod 4 * 16) = a" "quad1 (byte a div 4) (byte a mod 4 * 16 + byte b div 16) = a"
  "quad2 (byte a mod 4 * 16 + byte b div 16) (byte b mod 16 * 4) = b"
  "quad2 (byte a mod 4 * 16 + byte b div 16) (byte b mod 16 * 4 + byte c div 64) = b"
  "quad3 (byte b mod 16 * 4 + byte c div 64) (byte c mod 64) = c"
proof -
  have d: "byte b div 16 < 16" "byte c div 64 < 4" "byte a mod 4 < 4" "byte b mod 16 < 16" "byte c mod 64 < 64"
    using byte_div by simp_all
  have e: "(byte a mod 4 * 16 + byte b div 16) div 16 = byte a mod 4" "(byte a mod 4 * 16 + byte b div 16) mod 16 = byte b div 16"
    "(byte b mod 16 * 4 + byte c div 64) div 4 = byte b mod 16" "(byte b mod 16 * 4 + byte c div 64) mod 4 = byte c div 64"
    using d by simp_all
  show "quad1 (byte a div 4) (byte a mod 4 * 16) = a" "quad1 (byte a div 4) (byte a mod 4 * 16 + byte b div 16) = a"
    "quad2 (byte a mod 4 * 16 + byte b div 16) (byte b mod 16 * 4) = b"
    "quad2 (byte a mod 4 * 16 + byte b div 16) (byte b mod 16 * 4 + byte c div 64) = b"
    "quad3 (byte b mod 16 * 4 + byte c div 64) (byte c mod 64) = c"
    unfolding quad1_def quad2_def quad3_def e by simp_all
qed

lemma digit_bounds:
  "byte a div 4 < 64" "byte a mod 4 * 16 < 64" "byte a mod 4 * 16 + byte b div 16 < 64"
  "byte b mod 16 * 4 < 64" "byte b mod 16 * 4 + byte c div 64 < 64" "byte c mod 64 < 64"
proof -
  have "byte a div 4 < 64" "byte b div 16 < 16" "byte c div 64 < 4"
    using byte_div by simp_all
  moreover have "byte a mod 4 \<le> 3" "byte b mod 16 \<le> 15" by simp_all
  ultimately show "byte a div 4 < 64" "byte a mod 4 * 16 < 64" "byte a mod 4 * 16 + byte b div 16 < 64"
    "byte b mod 16 * 4 < 64" "byte b mod 16 * 4 + byte c div 64 < 64" "byte c mod 64 < 64" by linarith+
qed

lemmas b64_facts = b64_value_alphabet digit_bounds quads b64_one_def b64_two_def b64_three_def

lemma b64_groups_padded: "alphabet_ok ex \<Longrightarrow> b64_padded ex (b64_groups (b64_alphabet ex) ''='' s) = Some s"
proof (induction "b64_alphabet ex" "''=''" s rule: b64_groups.induct)
  case (3 a b)
  then show ?case using b64_alphabet_plain [OF 3 digit_bounds(4) [of b]] by (simp add: b64_facts)
next
  case (4 a b c s)
  then show ?case
    using b64_alphabet_plain [OF 4(2) digit_bounds(5) [of b c]] b64_alphabet_plain [OF 4(2) digit_bounds(6) [of c]]
    by (simp add: b64_facts)
qed (simp_all add: b64_facts)

lemma b64_groups_unpadded: "alphabet_ok ex \<Longrightarrow> b64_unpadded ex (b64_groups (b64_alphabet ex) [] s) = Some s"
  by (induction "b64_alphabet ex" "[] :: string" s rule: b64_groups.induct) (simp_all add: b64_facts)

lemma b64_groups_breaks:
  "alphabet_ok ex \<Longrightarrow> skip_breaks pad = pad \<Longrightarrow> skip_breaks (b64_groups (b64_alphabet ex) pad s) = b64_groups (b64_alphabet ex) pad s"
proof (induction "b64_alphabet ex" pad s rule: b64_groups.induct)
  case (4 pad a b c s)
  then show ?case
    using b64_alphabet_plain [OF 4(2)] digit_bounds
    by (simp add: skip_breaks_def)
qed (use b64_alphabet_plain digit_bounds in \<open>simp_all add: skip_breaks_def\<close>)

lemma b64_std_roundtrip: "b64_std_decode (b64_std s) = Some s"
  using b64_groups_padded [of "''+/''" s] b64_groups_breaks [of "''+/''" "''=''" s]
  by (simp add: b64_std_decode_def b64_std_def alphabet_ok_def skip_breaks_def)

lemma b64_rawurl_roundtrip: "b64_rawurl_decode (b64_rawurl s) = Some s"
  using b64_groups_unpadded [of "''-_''" s] b64_groups_breaks [of "''-_''" "[]" s]
  by (simp add: b64_rawurl_decode_def b64_rawurl_def alphabet_ok_def skip_breaks_def)

end
