(* ===== verification/Broker_Main.thy ===== *)
theory Broker_Main
  imports Identity Tlsx Go_Base64
begin

text \<open>
  Command \<open>broker\<close>: how \<open>run\<close> puts the broker together. The machine it starts on is a \<open>host\<close>: the
  environment variables, the files, the host name, the key parsers and the TLS files. The
  goroutines it starts are steps of their own: a policy tick with its callbacks, a sweep, an update
  of the token gauge. Listening and shutting down is left to the HTTP server.
\<close>

section \<open>The host\<close>

record host =
  ho_getenv :: "string \<Rightarrow> string"
  ho_readFile :: "string \<Rightarrow> string + string"
  ho_isNotExist :: "string \<Rightarrow> bool"
  ho_hostname :: "string + string"
  ho_genKey :: "string + string"
  ho_pem :: "string \<Rightarrow> string option"
  ho_pkcs8 :: "string \<Rightarrow> pkcs8"
  ho_rsa1 :: "string \<Rightarrow> string option"
  ho_rsa8 :: "string \<Rightarrow> rsa_pkcs8"
  ho_certs :: "string \<Rightarrow> bool"
  ho_loader :: loader
  ho_errText :: "policy_error \<Rightarrow> string"
  ho_tls :: "string disk"

definition getenv_or :: "host \<Rightarrow> string \<Rightarrow> string \<Rightarrow> string" where
  "getenv_or ho key fallback = (let v = ho_getenv ho key in if v \<noteq> [] then v else fallback)"

datatype start_error =
    SigningKeyUnreadable string
  | KeyGeneration string
  | SigningKeyInvalid signer_error
  | PolicyFatal policy_error
  | ConnectURLRequired
  | NotInCluster string
  | ReviewerFailed authn_error
  | TLSKeypair string
  | TLSRequired

definition loadSigner :: "host \<Rightarrow> crypto \<Rightarrow> string \<Rightarrow> bool \<Rightarrow> start_error + Signer" where
  "loadSigner ho cr path devInsecure =
     (case ho_readFile ho path of
        Inl err \<Rightarrow>
          if devInsecure \<and> ho_isNotExist ho err then
            (case ho_genKey ho of Inl genErr \<Rightarrow> Inl (KeyGeneration genErr) | Inr priv \<Rightarrow> Inr (NewSigner cr priv))
          else Inl (SigningKeyUnreadable err)
      | Inr raw \<Rightarrow>
          (case ParseSignerPEM cr (ho_pem ho) (ho_pkcs8 ho) raw of
             Inl e \<Rightarrow> Inl (SigningKeyInvalid e)
           | Inr signer \<Rightarrow> Inr signer))"

definition instance_name :: "host \<Rightarrow> string" where
  "instance_name ho = (case ho_hostname ho of Inl e \<Rightarrow> ''unknown-instance'' | Inr h \<Rightarrow> if h = [] then ''unknown-instance'' else h)"

definition devInsecure :: "host \<Rightarrow> bool" where
  "devInsecure ho = (ho_getenv ho ''ACB_DEV_INSECURE'' = ''1'')"

section \<open>Policy reloads\<close>

definition diffSorted :: "string list \<Rightarrow> string list \<Rightarrow> string list \<times> string list" where
  "diffSorted old next =
     (fold (\<lambda>v added. if \<not> List.member old v then added @ [v] else added) next [],
      fold (\<lambda>v removed. if \<not> List.member next v then removed @ [v] else removed) old [])"

text \<open>A \<open>[]string\<close>; one that was never appended to is nil.\<close>

definition strings_json :: "string list \<Rightarrow> json" where
  "strings_json l = (if l = [] then JNull else JArr (map JStr l))"

fun reload_audit :: "(policy_error \<Rightarrow> string) \<Rightarrow> reload_event \<Rightarrow> Event" where
  "reload_audit errText (OnReload old next) =
     (let (subAdded, subRemoved) = diffSorted (SubjectKeys old) (SubjectKeys next);
          (scAdded, scRemoved) = diffSorted (ScopeNames old) (ScopeNames next)
      in base_event ''policy.reloaded'' [] None None
           [(''old_policy_hash'', JStr (p_Hash old)), (''new_policy_hash'', JStr (p_Hash next)),
            (''subjects_added'', strings_json subAdded), (''subjects_removed'', strings_json subRemoved),
            (''scopes_added'', strings_json scAdded), (''scopes_removed'', strings_json scRemoved)] [])"
| "reload_audit errText (OnError old err) =
     base_event ''policy.reload_failed'' [] None None
       [(''retained_policy_hash'', JStr (p_Hash old)), (''error'', JStr (errText err))] []"

text \<open>One tick of \<open>policies.Watch\<close>, with the callbacks set.\<close>

definition policy_tick :: "host \<Rightarrow> env \<Rightarrow> (string \<Rightarrow> string + string) \<Rightarrow> server \<Rightarrow> server" where
  "policy_tick ho e readFile s =
     (let (evs, st) = reloadIfChanged (ho_loader ho) readFile (sv_policies s)
      in fold (\<lambda>ev s. snd (emit e (reload_audit (ho_errText ho) ev) s)) evs (s\<lparr>sv_policies := st\<rparr>))"

section \<open>Providers and the reviewer\<close>

definition readConnectTok :: "host \<Rightarrow> (string \<Rightarrow> string + string) \<Rightarrow> string + string" where
  "readConnectTok ho readFile =
     (case readFile (getenv_or ho ''ACB_CONNECT_TOKEN_FILE'' ''/etc/agent-cred-broker/connect/token'') of
        Inl e \<Rightarrow> Inl e
      | Inr b \<Rightarrow> Inr (TrimSpace b))"

text \<open>A configured App whose key cannot be read or parsed leaves the provider unregistered.\<close>

definition github_app :: "host \<Rightarrow> provider gomap" where
  "github_app ho =
     (let appID = ho_getenv ho ''ACB_GITHUB_APP_ID''
      in if appID = [] then []
         else case ho_readFile ho (getenv_or ho ''ACB_GITHUB_APP_KEY_FILE'' ''/etc/agent-cred-broker/github/app-key.pem'') of
           Inl e \<Rightarrow> []
         | Inr keyPEM \<Rightarrow>
             (case ParseKey (ho_pem ho) (ho_rsa1 ho) (ho_rsa8 ho) keyPEM of
                Inl e \<Rightarrow> []
              | Inr ghKey \<Rightarrow> [(''github-app'', PGitHubApp (NewGitHubApp (ho_getenv ho ''ACB_GITHUB_API_URL'') appID ghKey))]))"

definition broker_providers :: "host \<Rightarrow> string \<Rightarrow> provider gomap" where
  "broker_providers ho connectURL = (''onepassword-connect'', POnePassword (NewOnePassword connectURL)) # github_app ho"

definition reviewer_config :: "host \<Rightarrow> string + AuthnConfig" where
  "reviewer_config ho =
     (let audience = getenv_or ho ''ACB_AUDIENCE'' ''agent-cred-broker''; kubeAPI = ho_getenv ho ''ACB_KUBE_API''
      in if kubeAPI \<noteq> [] then
           Inr \<lparr>ac_APIBase = kubeAPI,
                ac_TokenFile = getenv_or ho ''ACB_KUBE_TOKEN_FILE'' ''/var/run/secrets/kubernetes.io/serviceaccount/token'',
                ac_CAFile = ho_getenv ho ''ACB_KUBE_CA_FILE'', ac_Audience = audience\<rparr>
         else InClusterConfig (ho_getenv ho) audience)"

section \<open>The Connect token's expiry\<close>

datatype expiry_error = NotJWT | PayloadEncoding | ClaimsInvalid | NoExp

definition exp_field :: "string \<Rightarrow> jval \<Rightarrow> int \<Rightarrow> int option" where
  "exp_field k v i = (if is_field ''exp'' k then to_int v i else Some i)"

definition connectTokenExpiry :: "string \<Rightarrow> expiry_error + int" where
  "connectTokenExpiry tok =
     (let parts = Split tok CHR ''.''
      in if length parts \<noteq> 3 then Inl NotJWT
         else case b64_rawurl_decode (parts ! 1) of
           None \<Rightarrow> Inl PayloadEncoding
         | Some payload \<Rightarrow>
             (case parse_json payload of
                None \<Rightarrow> Inl ClaimsInvalid
              | Some v \<Rightarrow>
                  (case to_struct exp_field v 0 of
                     None \<Rightarrow> Inl ClaimsInvalid
                   | Some x \<Rightarrow> if x = 0 then Inl NoExp else Inr x)))"

definition update_expiry :: "host \<Rightarrow> env \<Rightarrow> (string \<Rightarrow> string + string) \<Rightarrow> server \<Rightarrow> server" where
  "update_expiry ho e readFile s =
     (case readConnectTok ho readFile of
        Inl err \<Rightarrow> s
      | Inr tok \<Rightarrow>
          (case connectTokenExpiry tok of
             Inl err \<Rightarrow> s
           | Inr x \<Rightarrow> s\<lparr>sv_metrics := Set_gauge (en_isPrint e) ''acb_connect_token_expiry_timestamp_seconds'' [] (float_of_int x) (sv_metrics s)\<rparr>))"

section \<open>Readiness\<close>

text \<open>\<open>ready\<close> asks the providers in the order of the map; only 1Password has a health check.\<close>

fun providers_ready :: "upstream \<Rightarrow> time \<Rightarrow> time \<Rightarrow> provider gomap \<Rightarrow> bool \<times> provider gomap" where
  "providers_ready up now1 now2 [] = (True, [])"
| "providers_ready up now1 now2 ((n, PGitHubApp g) # ps) =
     (let (ok, ps1) = providers_ready up now1 now2 ps in (ok, (n, PGitHubApp g) # ps1))"
| "providers_ready up now1 now2 ((n, POnePassword o1) # ps) =
     (let (reqs, err, o2) = Healthy up now1 now2 o1
      in if err \<noteq> None then (False, (n, POnePassword o2) # ps)
         else let (ok, ps1) = providers_ready up now1 now2 ps in (ok, (n, POnePassword o2) # ps1))"

definition broker_ready :: "upstream \<Rightarrow> time \<Rightarrow> time \<Rightarrow> server \<Rightarrow> bool \<times> server" where
  "broker_ready up now1 now2 s =
     (let (ok, ps) = providers_ready up now1 now2 (sv_providers s) in (ok, s\<lparr>sv_providers := ps\<rparr>))"

section \<open>Starting\<close>

datatype listener = ListenTLS "string Reloader_state" | ListenPlain

record broker =
  bk_server :: server
  bk_reviewer :: Reviewer
  bk_listener :: listener

definition started_event :: "server \<Rightarrow> Event" where
  "started_event s = base_event ''broker.started'' [] None None
     [(''policy_hash'', JStr (p_Hash (Current (sv_policies s)))), (''kid'', JStr (sg_kid (sv_signer s))),
      (''public_key'', JStr (PublicBase64 (sv_signer s)))] []"

definition zero_config :: Config where
  "zero_config = \<lparr>cf_LeaseRatePerMinute = 0, cf_LeaseBurst = 0, cf_ClaimRatePerMinute = 0, cf_ClaimBurst = 0,
     cf_MaxBodyBytes = 0, cf_MaxContextBytes = 0, cf_MaxClaimBytes = 0, cf_MaxClaimsPerReq = 0\<rparr>"

text \<open>Everything up to the start event.\<close>

definition broker_setup :: "host \<Rightarrow> env \<Rightarrow> start_error + server \<times> Reviewer" where
  "broker_setup ho e =
     (case loadSigner ho (en_crypto e) (getenv_or ho ''ACB_SIGNING_KEY_FILE'' ''/etc/agent-cred-broker/keys/signing.pem'') (devInsecure ho) of
        Inl err \<Rightarrow> Inl err
      | Inr signer \<Rightarrow>
          let emitter = NewEmitter signer (instance_name ho)
          in case NewPolicyStore (ho_loader ho) (ho_readFile ho)
                    (getenv_or ho ''ACB_POLICY_FILE'' ''/etc/agent-cred-broker/policy.yaml'') (10 * Second) of
               Inl err \<Rightarrow> Inl (PolicyFatal err)
             | Inr policies \<Rightarrow>
                 let connectURL = ho_getenv ho ''ACB_CONNECT_URL''
                 in if connectURL = [] then Inl ConnectURLRequired
                    else case reviewer_config ho of
                      Inl err \<Rightarrow> Inl (NotInCluster err)
                    | Inr cfg \<Rightarrow>
                        (case New_Reviewer (ho_readFile ho) (ho_certs ho) cfg of
                           Inl err \<Rightarrow> Inl (ReviewerFailed err)
                         | Inr reviewer \<Rightarrow>
                             Inr (New_Server zero_config policies (broker_providers ho connectURL) NewStore
                                    (SetCounter emitter) signer NewMetrics, reviewer)))"

definition choose_listener :: "host \<Rightarrow> start_error + listener" where
  "choose_listener ho =
     (let tlsCert = ho_getenv ho ''ACB_TLS_CERT_FILE''; tlsKey = ho_getenv ho ''ACB_TLS_KEY_FILE''
      in if tlsCert \<noteq> [] \<and> tlsKey \<noteq> [] then
           (case Reloader_Config (ho_tls ho) (new_reloader tlsCert tlsKey) of
              Inl err \<Rightarrow> Inl (TLSKeypair err)
            | Inr r \<Rightarrow> Inr (ListenTLS r))
         else if devInsecure ho then Inr ListenPlain
         else Inl TLSRequired)"

text \<open>\<open>run\<close> up to the point where it serves: what it has written to the audit stream, and the error or
  the broker.\<close>

definition broker_run :: "host \<Rightarrow> env \<Rightarrow> string \<times> (start_error + broker)" where
  "broker_run ho e =
     (case broker_setup ho e of
        Inl err \<Rightarrow> ([], Inl err)
      | Inr (s0, reviewer) \<Rightarrow>
          let s = snd (emit e (started_event s0) s0)
          in (em_out (sv_emitter s),
              case choose_listener ho of
                Inl err \<Rightarrow> Inl err
              | Inr l \<Rightarrow> Inr \<lparr>bk_server = s, bk_reviewer = reviewer, bk_listener = l\<rparr>))"

end
