(* ===== verification/Audit_Verify.thy ===== *)
theory Audit_Verify
  imports Audit_Log Json_Decode Go_Base64 "HOL-Library.Multiset"
begin

text \<open>
  \<open>audit.Verify\<close>: an event line is decoded, its signature taken out, and the rest, members
  sorted and their texts compacted, canonicalized and checked. \<open>verify_emitted\<close> is the round trip:
  what \<open>Emit\<close> writes verifies under the signer's key and reads back as the event. It rests on
  two documented properties of the parameters: an Ed25519 signature verifies under its key, and
  canonicalization (RFC 8785) does not depend on the order of the members.
\<close>

section \<open>Decoding an event\<close>

text \<open>An event as \<open>Unmarshal\<close> stores it: the attested values keep their JSON form.\<close>

record vevent =
  ve_V :: int
  ve_Kind :: string
  ve_Type :: string
  ve_TS :: string
  ve_RequestID :: string
  ve_Broker :: BrokerInfo
  ve_Subject :: "Subject option"
  ve_Source :: "Source option"
  ve_Attested :: "jval gomap"
  ve_Asserted :: "string gomap"
  ve_Sig :: string

definition zero_vevent :: vevent where
  "zero_vevent = \<lparr>ve_V = 0, ve_Kind = [], ve_Type = [], ve_TS = [], ve_RequestID = [],
     ve_Broker = \<lparr>bi_Instance = [], bi_KID = [], bi_Seq = 0\<rparr>, ve_Subject = None, ve_Source = None,
     ve_Attested = [], ve_Asserted = [], ve_Sig = []\<rparr>"

definition broker_field :: "string \<Rightarrow> jval \<Rightarrow> BrokerInfo \<Rightarrow> BrokerInfo option" where
  "broker_field k v b =
     (if is_field ''instance'' k then map_option (\<lambda>x. b\<lparr>bi_Instance := x\<rparr>) (to_string v (bi_Instance b))
      else if is_field ''kid'' k then map_option (\<lambda>x. b\<lparr>bi_KID := x\<rparr>) (to_string v (bi_KID b))
      else if is_field ''seq'' k then map_option (\<lambda>x. b\<lparr>bi_Seq := x\<rparr>) (to_uint64 v (bi_Seq b))
      else Some b)"

definition subject_field :: "string \<Rightarrow> jval \<Rightarrow> Subject \<Rightarrow> Subject option" where
  "subject_field k v s =
     (if is_field ''namespace'' k then map_option (\<lambda>x. s\<lparr>sub_Namespace := x\<rparr>) (to_string v (sub_Namespace s))
      else if is_field ''serviceaccount'' k then map_option (\<lambda>x. s\<lparr>sub_ServiceAccount := x\<rparr>) (to_string v (sub_ServiceAccount s))
      else if is_field ''pod'' k then map_option (\<lambda>x. s\<lparr>sub_Pod := x\<rparr>) (to_string v (sub_Pod s))
      else if is_field ''pod_uid'' k then map_option (\<lambda>x. s\<lparr>sub_PodUID := x\<rparr>) (to_string v (sub_PodUID s))
      else Some s)"

definition source_field :: "string \<Rightarrow> jval \<Rightarrow> Source \<Rightarrow> Source option" where
  "source_field k v s =
     (if is_field ''ip'' k then map_option (\<lambda>x. s\<lparr>src_IP := x\<rparr>) (to_string v (src_IP s))
      else if is_field ''user_agent'' k then map_option (\<lambda>x. s\<lparr>src_UserAgent := x\<rparr>) (to_string v (src_UserAgent s))
      else Some s)"

definition zero_subject :: Subject where
  "zero_subject = \<lparr>sub_Namespace = [], sub_ServiceAccount = [], sub_Pod = [], sub_PodUID = []\<rparr>"

definition zero_source :: Source where
  "zero_source = \<lparr>src_IP = [], src_UserAgent = []\<rparr>"

definition event_field :: "string \<Rightarrow> jval \<Rightarrow> vevent \<Rightarrow> vevent option" where
  "event_field k v e =
     (if is_field ''v'' k then map_option (\<lambda>x. e\<lparr>ve_V := x\<rparr>) (to_int v (ve_V e))
      else if is_field ''kind'' k then map_option (\<lambda>x. e\<lparr>ve_Kind := x\<rparr>) (to_string v (ve_Kind e))
      else if is_field ''type'' k then map_option (\<lambda>x. e\<lparr>ve_Type := x\<rparr>) (to_string v (ve_Type e))
      else if is_field ''ts'' k then map_option (\<lambda>x. e\<lparr>ve_TS := x\<rparr>) (to_string v (ve_TS e))
      else if is_field ''request_id'' k then map_option (\<lambda>x. e\<lparr>ve_RequestID := x\<rparr>) (to_string v (ve_RequestID e))
      else if is_field ''broker'' k then map_option (\<lambda>x. e\<lparr>ve_Broker := x\<rparr>) (to_struct broker_field v (ve_Broker e))
      else if is_field ''subject'' k then map_option (\<lambda>x. e\<lparr>ve_Subject := x\<rparr>) (to_pointer subject_field zero_subject v (ve_Subject e))
      else if is_field ''source'' k then map_option (\<lambda>x. e\<lparr>ve_Source := x\<rparr>) (to_pointer source_field zero_source v (ve_Source e))
      else if is_field ''attested'' k then map_option (\<lambda>x. e\<lparr>ve_Attested := x\<rparr>) (to_map to_any v (ve_Attested e))
      else if is_field ''asserted'' k then map_option (\<lambda>x. e\<lparr>ve_Asserted := x\<rparr>) (to_map (\<lambda>j. to_string j []) v (ve_Asserted e))
      else if is_field ''sig'' k then map_option (\<lambda>x. e\<lparr>ve_Sig := x\<rparr>) (to_string v (ve_Sig e))
      else Some e)"

definition decode_event :: "string \<Rightarrow> vevent option" where
  "decode_event line =
     (case parse_json line of None \<Rightarrow> None | Some v \<Rightarrow> to_struct event_field v zero_vevent)"

section \<open>The signed form\<close>

text \<open>The members of an object with the texts of their values.\<close>

fun raw_members :: "nat \<Rightarrow> string \<Rightarrow> ((string \<times> string) list \<times> string) option" where
  "raw_members 0 s = None"
| "raw_members (Suc f) s =
     (case expect CHR 0x22 s of
        None \<Rightarrow> None
      | Some r0 \<Rightarrow>
     (case pstr r0 of
        None \<Rightarrow> None
      | Some (k, r1) \<Rightarrow>
     (case expect CHR '':'' r1 of
        None \<Rightarrow> None
      | Some r2 \<Rightarrow>
          let t = skip_ws r2
          in case pvalue (2 * length t + 2) (maxNestingDepth - 1) t of
               None \<Rightarrow> None
             | Some (v, r) \<Rightarrow>
                 let raw = take (length t - length r) t
                 in case expect CHR '','' r of
                      Some r' \<Rightarrow> map_option (apfst ((#) (k, raw))) (raw_members f r')
                    | None \<Rightarrow> (case expect CHR ''}'' r of Some r' \<Rightarrow> Some ([(k, raw)], r') | None \<Rightarrow> None))))"

text \<open>\<open>Unmarshal\<close> into \<open>map[string]json.RawMessage\<close>; the inner \<open>None\<close> is the nil map.\<close>

definition unmarshal_raw :: "string \<Rightarrow> string gomap option option" where
  "unmarshal_raw line =
     (case parse_json line of
        Some VNull \<Rightarrow> Some None
      | Some (VObj []) \<Rightarrow> Some (Some [])
      | Some (VObj ms) \<Rightarrow>
          (case expect CHR ''{'' line of
             None \<Rightarrow> None
           | Some r \<Rightarrow>
               (case raw_members (length r) r of
                  None \<Rightarrow> None
                | Some (kvs, r') \<Rightarrow> Some (Some (fold (\<lambda>(k, v) m. gupdate m k v) kvs []))))
      | _ \<Rightarrow> None)"

text \<open>\<open>json.Compact\<close> with HTML escaping, as \<open>Marshal\<close> applies it to a raw message. The flag tells
  whether the position is inside a string.\<close>

fun json_compact :: "bool \<Rightarrow> string \<Rightarrow> string" where
  "json_compact q [] = []"
| "json_compact q (c # r) =
     (if \<not> q then (if is_space c then json_compact False r else c # json_compact (c = CHR 0x22) r)
      else if c = CHR 0x5C then (case r of [] \<Rightarrow> [c] | d # r' \<Rightarrow> c # d # json_compact True r')
      else if c = CHR 0x22 then c # json_compact False r
      else if c = CHR ''<'' \<or> c = CHR ''>'' \<or> c = CHR ''&'' then escape_byte c @ json_compact True r
      else if List.member line_separators (c # take 2 r)
        then [CHR 0x5C] @ ''u202'' @ [hex_digit (byte (r ! 1) mod 16)] @ json_compact True (drop 2 r)
      else c # json_compact True r)"

definition marshal_raw :: "string gomap option \<Rightarrow> string" where
  "marshal_raw m =
     (case m of
        None \<Rightarrow> ''null''
      | Some kvs \<Rightarrow> ''{'' @ join '','' (map (\<lambda>(k, raw). quote k @ '':'' @ json_compact False raw) (sort_key fst kvs)) @ ''}'')"

definition delete_key :: "string \<Rightarrow> string gomap option \<Rightarrow> string gomap option" where
  "delete_key k m = map_option (filter (\<lambda>kv. fst kv \<noteq> k)) m"

section \<open>Verify\<close>

datatype verify_error =
    ParseEvent
  | NoSig
  | DecodeSig
  | ParseObject
  | CanonicalizeEvent string
  | BadSignature

definition Verify :: "(string \<Rightarrow> string \<Rightarrow> string \<Rightarrow> bool) \<Rightarrow> (string \<Rightarrow> string + string) \<Rightarrow> string \<Rightarrow> string \<Rightarrow>
    verify_error + vevent" where
  "Verify ed25519_verify jcs line pub =
     (case decode_event line of
        None \<Rightarrow> Inl ParseEvent
      | Some ev \<Rightarrow>
          if ve_Sig ev = [] then Inl NoSig
          else case b64_std_decode (ve_Sig ev) of
            None \<Rightarrow> Inl DecodeSig
          | Some sig \<Rightarrow>
              (case unmarshal_raw line of
                 None \<Rightarrow> Inl ParseObject
               | Some raw \<Rightarrow>
                   (case jcs (marshal_raw (delete_key ''sig'' raw)) of
                      Inl e \<Rightarrow> Inl (CanonicalizeEvent e)
                    | Inr canonical \<Rightarrow>
                        if \<not> ed25519_verify pub canonical sig then Inl BadSignature else Inr ev)))"

section \<open>Compacting a rendered text\<close>

lemma not_separator: "byte c \<noteq> 226 \<Longrightarrow> c # r \<notin> set line_separators"
  by (auto simp: line_separators_def of_char_of)

lemma compact_step:
  "c \<notin> {CHR 0x5C, CHR 0x22, CHR ''<'', CHR ''>'', CHR ''&''} \<Longrightarrow> c # take 2 r \<notin> set line_separators \<Longrightarrow>
   json_compact True (c # r) = c # json_compact True r"
  by simp

lemma compact_plain:
  assumes "list_all (\<lambda>c. c \<notin> {CHR 0x5C, CHR 0x22, CHR ''<'', CHR ''>'', CHR ''&''} \<and> byte c \<noteq> 226) u"
  shows "json_compact True (u @ t) = u @ json_compact True t"
  using assms by (induction u) (auto simp: not_separator)

lemma compact_outside:
  assumes "list_all (\<lambda>c. \<not> is_space c \<and> c \<noteq> CHR 0x22) u"
  shows "json_compact False (u @ t) = u @ json_compact False t"
  using assms by (induction u) auto

lemma hex_digit_plain:
  "n < 16 \<Longrightarrow> hex_digit n \<notin> {CHR 0x5C, CHR 0x22, CHR ''<'', CHR ''>'', CHR ''&''} \<and> byte (hex_digit n) \<noteq> 226"
  by (auto simp: hex_digit_def of_char_of dest!: arg_cong [where f = "of_char :: char \<Rightarrow> nat"])

lemma compact_u: "length h = 4 \<Longrightarrow> list_all (\<lambda>c. c \<notin> {CHR 0x5C, CHR 0x22, CHR ''<'', CHR ''>'', CHR ''&''} \<and> byte c \<noteq> 226) h \<Longrightarrow>
    json_compact True (CHR 0x5C # CHR ''u'' # h @ t) = CHR 0x5C # CHR ''u'' # h @ json_compact True t"
  using compact_plain [of h t] by simp

lemma compact_escape_byte: "json_compact True (escape_byte c @ t) = escape_byte c @ json_compact True t"
proof -
  have "byte c div 16 < 16" "byte c mod 16 < 16" using byte_div by simp_all
  then have "json_compact True (CHR 0x5C # CHR ''u'' # (''00'' @ [hex_digit (byte c div 16), hex_digit (byte c mod 16)]) @ t) =
      CHR 0x5C # CHR ''u'' # (''00'' @ [hex_digit (byte c div 16), hex_digit (byte c mod 16)]) @ json_compact True t"
    using hex_digit_plain by (intro compact_u) (auto simp: list_all_iff)
  then show ?thesis by (auto simp: escape_byte_def)
qed

lemma compact_rune:
  assumes "s \<noteq> []" "rune_size s \<noteq> 0" "128 \<le> byte (hd s)" "\<not> List.member line_separators (take (rune_size s) s)"
  shows "json_compact True (take (rune_size s) s @ t) = take (rune_size s) s @ json_compact True t"
proof -
  obtain c r where s: "s = c # r" using assms(1) by (cases s) auto
  define n where "n = rune_size s"
  have c: "\<not> byte c < 128" using assms(3) s by simp
  obtain lo hi where m: "utf8_first c = Some (n, lo, hi)" "n - 1 \<le> length r" "in_range lo hi (r ! 0)"
      "list_all (in_range 128 191) (drop 1 (take (n - 1) r))"
    by (rule rune_size_multi [OF _ _ c, of r n]) (use assms(2) s n_def in auto)
  have n: "2 \<le> n" "128 \<le> lo" "hi \<le> 191" "byte c = 226 \<Longrightarrow> n = 3"
    using m(1) by (auto simp: utf8_first_def in_range_def split: if_splits)
  then obtain k where k: "n = Suc (Suc k)" by (cases n; cases "n - 1") auto
  then obtain b q where r: "r = b # q" using m(2) by (cases r) auto
  have cont: "list_all (\<lambda>c. c \<notin> {CHR 0x5C, CHR 0x22, CHR ''<'', CHR ''>'', CHR ''&''} \<and> byte c \<noteq> 226) (b # take k q)"
    using m(3,4) n(2,3) k r by (fastforce simp: in_range_def list_all_iff)
  have t: "take n s = c # b # take k q" using s r k by simp
  have sep: "c # take 2 (b # take k q @ t) \<notin> set line_separators"
  proof (cases "byte c = 226")
    case True
    then have "take 2 (b # take k q @ t) = b # take k q" using n(4) m(2) k r by simp
    then show ?thesis using assms(4) t n_def by (simp add: List.member_iff)
  qed (rule not_separator)
  have "c \<notin> {CHR 0x5C, CHR 0x22, CHR ''<'', CHR ''>'', CHR ''&''}" using c by auto
  then have "json_compact True (c # b # take k q @ t) = c # json_compact True ((b # take k q) @ t)"
    using compact_step [OF _ sep] by (simp del: json_compact.simps)
  also have "\<dots> = c # (b # take k q) @ json_compact True t" using compact_plain [OF cont] by (simp del: json_compact.simps)
  finally show ?thesis using t n_def by simp
qed

lemma compact_escape_rune:
  assumes "s \<noteq> []"
  shows "json_compact True (escape_rune s @ t) = escape_rune s @ json_compact True t"
proof -
  have h: "byte (s ! 2) mod 16 < 16" by simp
  have u: "json_compact True (CHR 0x5C # CHR ''u'' # (''202'' @ [hex_digit (byte (s ! 2) mod 16)]) @ t) =
      CHR 0x5C # CHR ''u'' # (''202'' @ [hex_digit (byte (s ! 2) mod 16)]) @ json_compact True t"
    using hex_digit_plain [OF h] by (intro compact_u) (auto simp: list_all_iff)
  have f: "json_compact True (CHR 0x5C # CHR ''u'' # ''fffd'' @ t) = CHR 0x5C # CHR ''u'' # ''fffd'' @ json_compact True t"
    by (intro compact_u) simp_all
  have p: "json_compact True (hd s # t) = hd s # json_compact True t" if "htmlSafe (hd s)"
    using that compact_plain [of "[hd s]" t] by (simp add: htmlSafe_def)
  show ?thesis
    using assms u f p compact_rune [OF assms, of t] compact_escape_byte [of "hd s" t]
    by (auto simp: escape_rune_def Let_def simp del: json_compact.simps)
qed

lemma compact_escape: "json_compact True (escape s @ t) = escape s @ json_compact True t"
proof (induction s rule: escape.induct)
  case (1 s)
  then show ?case
    by (cases "s = []") (simp add: escape.simps, subst (1 2) escape.simps, simp add: compact_escape_rune)
qed

lemma compact_quote: "json_compact False (quote s @ t) = quote s @ json_compact False t"
  by (simp add: quote_def is_space_simps compact_escape)

lemma compact_int: "json_compact False (int_string i @ t) = int_string i @ json_compact False t"
proof (rule compact_outside)
  have "\<not> is_space c \<and> c \<noteq> CHR 0x22" if "digit c \<or> c = CHR ''-''" for c
    using that by (auto simp: digit_def is_space_def)
  then show "list_all (\<lambda>c. \<not> is_space c \<and> c \<noteq> CHR 0x22) (int_string i)"
    using itoa_digit by (auto simp: int_string_def list_all_iff)
qed

lemma compact_sep: "\<not> is_space c \<Longrightarrow> c \<noteq> CHR 0x22 \<Longrightarrow> json_compact False (c # t) = c # json_compact False t"
  by simp

lemma compact_join:
  assumes "\<And>x t. x \<in> set xs \<Longrightarrow> json_compact False (x @ t) = x @ json_compact False t"
  shows "json_compact False (join '','' xs @ t) = join '','' xs @ json_compact False t"
  using assms by (induction "'',''" xs rule: join.induct) (simp_all add: is_space_simps)

lemma compact_render: "json_compact False (render j @ t) = render j @ json_compact False t"
proof (induction j arbitrary: t)
  case (JArr vs)
  then have "json_compact False (join '','' (map render vs) @ u) = join '','' (map render vs) @ json_compact False u" for u
    by (intro compact_join) auto
  then show ?case by (simp add: is_space_simps)
next
  case (JObj ms)
  have "json_compact False (x @ u) = x @ json_compact False u" if x: "x \<in> set (map member_text ms)" for x u
  proof -
    obtain p where p: "p \<in> set ms" "x = member_text p" using x by auto
    obtain k v where "p = (k, v)" by (cases p)
    with p have kv: "(k, v) \<in> set ms" "x = quote k @ '':'' @ render v" by simp_all
    then have "json_compact False (render v @ u) = render v @ json_compact False u" using JObj by fastforce
    then show ?thesis using kv(2) by (simp add: compact_quote compact_sep is_space_simps del: json_compact.simps)
  qed
  then have "json_compact False (join '','' (map member_text ms) @ u) = join '','' (map member_text ms) @ json_compact False u" for u
    by (rule compact_join)
  then show ?case by (simp add: is_space_simps)
qed (simp_all add: compact_int compact_quote compact_outside is_space_def del: json_compact.simps,
     simp_all add: is_space_def)

lemma compact_rendered: "json_compact False (render j) = render j"
  using compact_render [of j "[]"] by simp

section \<open>The members of a rendered object\<close>

lemma skip_ws_render: "skip_ws (render j @ t) = render j @ t"
  using render_hd [of j] by (auto simp: skip_ws_def)

lemma raw_members_render:
  assumes "ms \<noteq> []" "\<forall>kv \<in> set ms. nested_within (maxNestingDepth - 1) (snd kv)" "length ms \<le> f"
  shows "raw_members f (join '','' (map member_text ms) @ ''}'' @ r) = Some (map (\<lambda>(k, v). (valid_utf8 k, render v)) ms, r)"
  using assms
proof (induction ms arbitrary: f)
  case (Cons kv ms)
  obtain k v where kv: "kv = (k, v)" by (cases kv)
  obtain g where f: "f = Suc g" using Cons.prems(3) by (cases f) auto
  have v: "pvalue (2 * length (render v @ t) + 2) (maxNestingDepth - 1) (render v @ t) = Some (val_of v, t)" if "closes t" for t
    using pvalue_render [OF _ that, of "maxNestingDepth - 1" v] Cons.prems(2) kv pvalue_enough by fastforce
  show ?case
  proof (cases "ms = []")
    case True
    then show ?thesis
      using v [of "''}'' @ r"] kv f
      by (simp add: closes_def quote_def pstr_escape expect_simps is_space_simps skip_ws_render Let_def del: pvalue.simps)
  next
    case False
    let ?t = "join '','' (map member_text ms) @ ''}'' @ r"
    have "raw_members g ?t = Some (map (\<lambda>(k, v). (valid_utf8 k, render v)) ms, r)"
      using Cons.IH [OF False, of g] Cons.prems(2,3) f by simp
    then show ?thesis
      using v [of "'','' @ ?t"] kv f False
      by (simp add: join_Cons closes_def quote_def pstr_escape expect_simps is_space_simps skip_ws_render Let_def del: pvalue.simps)
  qed
qed simp

lemma join_length: "(\<forall>x \<in> set xs. x \<noteq> []) \<Longrightarrow> length xs \<le> length (join sep xs)"
proof (induction sep xs rule: join.induct)
  case (3 sep x y ys)
  then have "length (y # ys) \<le> length (join sep (y # ys))" "0 < length x" by auto
  then show ?case by (simp only: join.simps length_append list.size)
qed (auto simp: Suc_le_eq)

lemma fold_gupdate_distinct:
  "distinct (map fst m @ map fst kvs) \<Longrightarrow> fold (\<lambda>(k, v) m. gupdate m k v) kvs m = m @ kvs"
proof (induction kvs arbitrary: m)
  case (Cons kv kvs)
  have "gupdate m k v = m @ [(k, v)]" if "k \<notin> fst ` set m" for k v and m :: "'a gomap"
    using that by (induction m k v rule: gupdate.induct) auto
  then have "gupdate m (fst kv) (snd kv) = m @ [kv]" using Cons.prems by auto
  then show ?case using Cons.IH [of "m @ [kv]"] Cons.prems by (simp add: split_beta)
qed simp

lemma unmarshal_raw_render:
  assumes "nested_within maxNestingDepth (JObj ms)" "ms \<noteq> []" "distinct (map fst ms)" "\<forall>k \<in> fst ` set ms. ascii k"
  shows "unmarshal_raw (render (JObj ms)) = Some (Some (map (\<lambda>(k, v). (k, render v)) ms))"
proof -
  let ?t = "join '','' (map member_text ms) @ ''}''"
  have "length (map member_text ms) \<le> length (join '','' (map member_text ms))"
    by (rule join_length) (auto simp: quote_def)
  then have "raw_members (length ?t) ?t = Some (map (\<lambda>(k, v). (valid_utf8 k, render v)) ms, [])"
    using raw_members_render [OF assms(2), of "length ?t" "[]"] assms(1) by simp
  moreover have "map (\<lambda>(k, v). (valid_utf8 k, render v)) ms = map (\<lambda>(k, v). (k, render v)) ms"
    using assms(4) by (auto simp: valid_utf8_ascii)
  moreover have "expect CHR ''{'' (render (JObj ms)) = Some ?t" by (simp add: expect_simps is_space_simps)
  moreover have "map fst (map (\<lambda>(k, v). (k, render v)) ms) = map fst ms" by (simp add: split_beta comp_def)
  moreover have "parse_json (render (JObj ms)) = Some (VObj (map member_val ms))"
    using parse_render [OF assms(1)] by simp
  moreover obtain m ms' where "map member_val ms = m # ms'" using assms(2) by (cases ms) auto
  ultimately show ?thesis
    using fold_gupdate_distinct [of "[]" "map (\<lambda>(k, v). (k, render v)) ms"] assms(3)
    by (simp add: unmarshal_raw_def del: render.simps map_map)
qed

section \<open>Reading an event back\<close>

definition fix_subject :: "Subject \<Rightarrow> Subject" where
  "fix_subject s = \<lparr>sub_Namespace = valid_utf8 (sub_Namespace s), sub_ServiceAccount = valid_utf8 (sub_ServiceAccount s),
     sub_Pod = valid_utf8 (sub_Pod s), sub_PodUID = valid_utf8 (sub_PodUID s)\<rparr>"

definition fix_source :: "Source \<Rightarrow> Source" where
  "fix_source s = \<lparr>src_IP = valid_utf8 (src_IP s), src_UserAgent = valid_utf8 (src_UserAgent s)\<rparr>"

definition enter_all :: "'v gomap \<Rightarrow> 'v gomap" where
  "enter_all kvs = fold (\<lambda>(k, v) m. gupdate m k v) kvs []"

text \<open>An event with the invalid bytes of its texts replaced.\<close>

definition read_back :: "Event \<Rightarrow> vevent" where
  "read_back ev = \<lparr>ve_V = ev_V ev, ve_Kind = valid_utf8 (ev_Kind ev), ve_Type = valid_utf8 (ev_Type ev),
     ve_TS = valid_utf8 (ev_TS ev), ve_RequestID = valid_utf8 (ev_RequestID ev),
     ve_Broker = \<lparr>bi_Instance = valid_utf8 (bi_Instance (ev_Broker ev)), bi_KID = valid_utf8 (bi_KID (ev_Broker ev)),
       bi_Seq = bi_Seq (ev_Broker ev)\<rparr>,
     ve_Subject = map_option fix_subject (ev_Subject ev), ve_Source = map_option fix_source (ev_Source ev),
     ve_Attested = enter_all (map member_val (sort_key fst (ev_Attested ev))),
     ve_Asserted = enter_all (map (\<lambda>(k, v). (valid_utf8 k, valid_utf8 v)) (sort_key fst (ev_Asserted ev))),
     ve_Sig = valid_utf8 (ev_Sig ev)\<rparr>"

definition event_fields :: "string list" where
  "event_fields = [''v'', ''kind'', ''type'', ''ts'', ''request_id'', ''broker'', ''subject'', ''source'', ''attested'', ''asserted'', ''sig'']"

definition inner_fields :: "string list" where
  "inner_fields = [''instance'', ''kid'', ''seq'', ''namespace'', ''serviceaccount'', ''pod'', ''pod_uid'', ''ip'', ''user_agent'']"

lemma fields_distinct: "distinct (map (map fold_code) event_fields)" "distinct (map (map fold_code) inner_fields)"
  by (simp_all add: event_fields_def inner_fields_def fold_code_def)

lemma fields_ascii: "list_all ascii event_fields" "list_all ascii inner_fields"
  by (simp_all add: event_fields_def inner_fields_def ascii_def)

lemmas is_event_field = is_field_distinct [OF fields_distinct(1) fields_ascii(1), unfolded event_fields_def]
lemmas is_inner_field = is_field_distinct [OF fields_distinct(2) fields_ascii(2), unfolded inner_fields_def]

lemma valid_event_field: "k \<in> set event_fields \<Longrightarrow> valid_utf8 k = k" "k \<in> set inner_fields \<Longrightarrow> valid_utf8 k = k"
  using fields_ascii by (auto simp: valid_utf8_ascii list_all_iff)

lemmas valid_event_fields = valid_event_field [unfolded event_fields_def inner_fields_def]

lemma valid_utf8_Nil [simp]: "valid_utf8 [] = []"
  by (simp add: valid_utf8.simps)

lemma each_member_omitempty:
  "each_member f (map member_val (omitempty_str k s)) x =
     (if s = [] then Some x else f (valid_utf8 k) (VStr (valid_utf8 s)) x)"
  by (auto simp: omitempty_str_def split: option.split)

lemma to_string_VStr [simp]: "to_string (VStr s) old = Some s"
  by (simp add: to_string_def)

lemma decode_broker:
  "to_struct broker_field (val_of (broker_json b)) \<lparr>bi_Instance = [], bi_KID = [], bi_Seq = 0\<rparr> =
     Some \<lparr>bi_Instance = valid_utf8 (bi_Instance b), bi_KID = valid_utf8 (bi_KID b), bi_Seq = bi_Seq b\<rparr>"
  by (simp add: broker_json_def to_struct_def broker_field_def valid_event_fields is_inner_field to_uint64_uint)

lemma decode_subject:
  "to_pointer subject_field zero_subject (val_of (subject_json s)) None = Some (Some (fix_subject s))"
  by (simp add: subject_json_def to_pointer_def each_member_append each_member_omitempty subject_field_def
      valid_event_fields is_inner_field fix_subject_def zero_subject_def)

lemma decode_source:
  "to_pointer source_field zero_source (val_of (source_json s)) None = Some (Some (fix_source s))"
  by (simp add: source_json_def to_pointer_def each_member_append each_member_omitempty source_field_def
      valid_event_fields is_inner_field fix_source_def zero_source_def)

lemma each_member_map:
  assumes "\<forall>kv \<in> set kvs. el (snd kv) = Some (g (snd kv))"
  shows "each_member (\<lambda>k x m. map_option (gupdate m k) (el x)) kvs m0 =
    Some (fold (\<lambda>(k, v) m. gupdate m k v) (map (\<lambda>(k, v). (k, g v)) kvs) m0)"
  using assms by (induction kvs arbitrary: m0) auto

lemma decode_attested:
  assumes "\<forall>kv \<in> set m. small_ints (snd kv)"
  shows "to_map to_any (val_of (JMap m)) [] = Some (enter_all (map member_val (sort_key fst m)))"
proof -
  have "\<forall>kv \<in> set (map member_val (sort_key fst m)). to_any (snd kv) = Some (id (snd kv))"
    using assms any_ok_val_of by (auto simp: to_any_def)
  from each_member_map [OF this, of "[]"] show ?thesis
    by (simp add: JMap_def to_map_def enter_all_def)
qed

lemma sort_key_map: "sort_key fst (map (\<lambda>(k, v). (k, g v)) kvs) = map (\<lambda>(k, v). (k, g v)) (sort_key fst kvs)"
proof -
  have "insort_key fst (k, g v) (map (\<lambda>(k, v). (k, g v)) xs) = map (\<lambda>(k, v). (k, g v)) (insort_key fst (k, v) xs)" for k v xs
    by (induction xs) auto
  note * = this
  show ?thesis by (induction kvs) (auto simp: *)
qed

lemma decode_asserted:
  "to_map (\<lambda>j. to_string j []) (val_of (JStrMap (Some m))) [] =
     Some (enter_all (map (\<lambda>(k, v). (valid_utf8 k, valid_utf8 v)) (sort_key fst m)))"
proof -
  let ?ms = "map (\<lambda>(k, v). (valid_utf8 k, VStr (valid_utf8 v))) (sort_key fst m)"
  have v: "val_of (JStrMap (Some m)) = VObj ?ms"
    by (simp add: JStrMap_def JMap_def sort_key_map split_beta comp_def)
  have "\<forall>kv \<in> set ?ms. to_string (snd kv) [] = Some ((\<lambda>x. case x of VStr s \<Rightarrow> s | _ \<Rightarrow> []) (snd kv))"
    by auto
  from each_member_map [OF this, of "[]"] show ?thesis
    by (simp add: v to_map_def enter_all_def comp_def case_prod_unfold)
qed

section \<open>The round trip\<close>

definition event_members :: "Event \<Rightarrow> (string \<times> json) list" where
  "event_members ev =
     [(''v'', JInt (ev_V ev)), (''kind'', JStr (ev_Kind ev)), (''type'', JStr (ev_Type ev)), (''ts'', JStr (ev_TS ev))] @
     omitempty_str ''request_id'' (ev_RequestID ev) @
     [(''broker'', broker_json (ev_Broker ev))] @
     (case ev_Subject ev of None \<Rightarrow> [] | Some s \<Rightarrow> [(''subject'', subject_json s)]) @
     (case ev_Source ev of None \<Rightarrow> [] | Some s \<Rightarrow> [(''source'', source_json s)]) @
     (if ev_Attested ev = [] then [] else [(''attested'', JMap (ev_Attested ev))]) @
     (if ev_Asserted ev = [] then [] else [(''asserted'', JStrMap (Some (ev_Asserted ev)))]) @
     omitempty_str ''sig'' (ev_Sig ev)"

lemma event_json_members: "event_json ev = JObj (event_members ev)"
  by (simp add: event_json_def event_members_def)

text \<open>What the broker attests: integers of 64 bits, and no deep nesting.\<close>

definition event_small :: "Event \<Rightarrow> bool" where
  "event_small ev \<longleftrightarrow> (\<forall>kv \<in> set (ev_Attested ev). small_ints (snd kv) \<and> nested_within (maxNestingDepth - 2) (snd kv))"

lemma JMap_nested: "\<forall>kv \<in> set m. nested_within (d - 1) (snd kv) \<Longrightarrow> d \<noteq> 0 \<Longrightarrow> nested_within d (JMap m)"
  by (simp add: JMap_def)

lemma event_nested:
  assumes "event_small ev"
  shows "nested_within maxNestingDepth (JObj (event_members ev))"
proof -
  have "nested_within (maxNestingDepth - 1) (JMap (ev_Attested ev))"
    using assms by (intro JMap_nested) (auto simp: event_small_def maxNestingDepth_def)
  moreover have "nested_within (maxNestingDepth - 1) (JStrMap (Some (ev_Asserted ev)))"
    by (auto simp: JStrMap_def intro!: JMap_nested simp: maxNestingDepth_def)
  ultimately show ?thesis
    by (auto simp: event_members_def omitempty_str_def broker_json_def subject_json_def source_json_def maxNestingDepth_def
        split: option.splits if_splits)
qed

lemma event_members_keys:
  "event_members ev \<noteq> []" "distinct (map fst (event_members ev))" "fst ` set (event_members ev) \<subseteq> set event_fields"
  by (auto simp: event_members_def omitempty_str_def event_fields_def split: option.split)

lemma event_members_sig:
  "filter (\<lambda>kv. fst kv \<noteq> ''sig'') (event_members ev) = event_members (ev\<lparr>ev_Sig := []\<rparr>)"
  by (simp add: event_members_def omitempty_str_def split: option.split)

lemma enter_all_Nil [simp]: "enter_all [] = []"
  by (simp add: enter_all_def)

lemma event_field_simps:
  "event_field ''v'' v e = map_option (\<lambda>x. e\<lparr>ve_V := x\<rparr>) (to_int v (ve_V e))"
  "event_field ''kind'' v e = map_option (\<lambda>x. e\<lparr>ve_Kind := x\<rparr>) (to_string v (ve_Kind e))"
  "event_field ''type'' v e = map_option (\<lambda>x. e\<lparr>ve_Type := x\<rparr>) (to_string v (ve_Type e))"
  "event_field ''ts'' v e = map_option (\<lambda>x. e\<lparr>ve_TS := x\<rparr>) (to_string v (ve_TS e))"
  "event_field ''request_id'' v e = map_option (\<lambda>x. e\<lparr>ve_RequestID := x\<rparr>) (to_string v (ve_RequestID e))"
  "event_field ''broker'' v e = map_option (\<lambda>x. e\<lparr>ve_Broker := x\<rparr>) (to_struct broker_field v (ve_Broker e))"
  "event_field ''subject'' v e = map_option (\<lambda>x. e\<lparr>ve_Subject := x\<rparr>) (to_pointer subject_field zero_subject v (ve_Subject e))"
  "event_field ''source'' v e = map_option (\<lambda>x. e\<lparr>ve_Source := x\<rparr>) (to_pointer source_field zero_source v (ve_Source e))"
  "event_field ''attested'' v e = map_option (\<lambda>x. e\<lparr>ve_Attested := x\<rparr>) (to_map to_any v (ve_Attested e))"
  "event_field ''asserted'' v e = map_option (\<lambda>x. e\<lparr>ve_Asserted := x\<rparr>) (to_map (\<lambda>j. to_string j []) v (ve_Asserted e))"
  "event_field ''sig'' v e = map_option (\<lambda>x. e\<lparr>ve_Sig := x\<rparr>) (to_string v (ve_Sig e))"
  by (simp_all add: event_field_def is_event_field)

lemma member_val_ascii: "k \<in> set event_fields \<Longrightarrow> member_val (k, v) = (k, val_of v)"
  by (simp add: valid_event_field)

lemma decode_omitempty:
  "k \<in> set event_fields \<Longrightarrow> each_member f (map member_val (omitempty_str k s)) x = (if s = [] then Some x else f k (VStr (valid_utf8 s)) x)"
  by (simp add: each_member_omitempty valid_event_field)

definition decode_head :: "Event \<Rightarrow> vevent" where
  "decode_head ev = zero_vevent\<lparr>ve_V := ev_V ev, ve_Kind := valid_utf8 (ev_Kind ev), ve_Type := valid_utf8 (ev_Type ev),
     ve_TS := valid_utf8 (ev_TS ev), ve_RequestID := valid_utf8 (ev_RequestID ev),
     ve_Broker := \<lparr>bi_Instance = valid_utf8 (bi_Instance (ev_Broker ev)), bi_KID = valid_utf8 (bi_KID (ev_Broker ev)),
       bi_Seq = bi_Seq (ev_Broker ev)\<rparr>\<rparr>"

definition event_head :: "Event \<Rightarrow> (string \<times> json) list" where
  "event_head ev =
     [(''v'', JInt (ev_V ev)), (''kind'', JStr (ev_Kind ev)), (''type'', JStr (ev_Type ev)), (''ts'', JStr (ev_TS ev))] @
     omitempty_str ''request_id'' (ev_RequestID ev) @ [(''broker'', broker_json (ev_Broker ev))]"

lemma decode_members_head:
  assumes "ev_V ev = 1"
  shows "each_member event_field (map member_val (event_head ev)) zero_vevent = Some (decode_head ev)"
proof -
  have k: "''v'' \<in> set event_fields" "''kind'' \<in> set event_fields" "''type'' \<in> set event_fields" "''ts'' \<in> set event_fields"
    "''request_id'' \<in> set event_fields" "''broker'' \<in> set event_fields" by (simp_all add: event_fields_def)
  show ?thesis
    using assms decode_broker [of "ev_Broker ev"]
    by (simp add: event_head_def each_member_append decode_omitempty [OF k(5)] valid_event_field(1) [OF k(1)] valid_event_field(1) [OF k(2)]
        valid_event_field(1) [OF k(3)] valid_event_field(1) [OF k(4)] valid_event_field(1) [OF k(6)]
        event_field_simps to_int_int_string decode_head_def zero_vevent_def)
qed

lemma decode_members:
  assumes "event_small ev" "ev_V ev = 1"
  shows "each_member event_field (map member_val (event_members ev)) zero_vevent = Some (read_back ev)"
proof -
  have k: "''subject'' \<in> set event_fields" "''source'' \<in> set event_fields" "''attested'' \<in> set event_fields"
    "''asserted'' \<in> set event_fields" "''sig'' \<in> set event_fields" by (simp_all add: event_fields_def)
  have att: "to_map to_any (val_of (JMap (ev_Attested ev))) [] = Some (enter_all (map member_val (sort_key fst (ev_Attested ev))))"
    using assms(1) by (intro decode_attested) (simp add: event_small_def)
  have m: "event_members ev = event_head ev @
     (case ev_Subject ev of None \<Rightarrow> [] | Some s \<Rightarrow> [(''subject'', subject_json s)]) @
     (case ev_Source ev of None \<Rightarrow> [] | Some s \<Rightarrow> [(''source'', source_json s)]) @
     (if ev_Attested ev = [] then [] else [(''attested'', JMap (ev_Attested ev))]) @
     (if ev_Asserted ev = [] then [] else [(''asserted'', JStrMap (Some (ev_Asserted ev)))]) @
     omitempty_str ''sig'' (ev_Sig ev)"
    by (simp add: event_members_def event_head_def)
  note valid = valid_event_field(1) [OF k(1)] valid_event_field(1) [OF k(2)] valid_event_field(1) [OF k(3)]
    valid_event_field(1) [OF k(4)]
  show ?thesis
    unfolding m map_append each_member_append decode_omitempty [OF k(5)]
    unfolding decode_members_head [OF assms(2)] option.case
    by (cases "ev_Subject ev"; cases "ev_Source ev")
      (simp_all add: each_member_append valid event_field_simps decode_subject decode_source decode_asserted att
        decode_head_def zero_vevent_def read_back_def)
qed

lemma decode_event_marshal:
  "event_small ev \<Longrightarrow> ev_V ev = 1 \<Longrightarrow> decode_event (marshal ev) = Some (read_back ev)"
  using parse_render [OF event_nested] decode_members [of ev]
  by (simp add: decode_event_def marshal_def event_json_members to_struct_def del: render.simps)

lemma marshal_raw_render:
  "marshal_raw (Some (map (\<lambda>(k, v). (k, render v)) ms)) = render (JObj (sort_key fst ms))"
proof -
  have m: "map (\<lambda>(k, raw). quote k @ '':'' @ json_compact False raw) (map (\<lambda>(k, v). (k, render v)) xs) = map member_text xs" for xs
    by (simp add: compact_rendered split_beta)
  show ?thesis unfolding marshal_raw_def option.case sort_key_map m render.simps by simp
qed

lemma signed_form:
  assumes "event_small ev"
  shows "\<exists>raw. unmarshal_raw (marshal ev) = Some raw \<and>
    marshal_raw (delete_key ''sig'' raw) = render (JObj (sort_key fst (event_members (ev\<lparr>ev_Sig := []\<rparr>))))"
proof -
  have "\<forall>k \<in> fst ` set (event_members ev). ascii k"
    using event_members_keys(3) fields_ascii(1) by (auto simp: list_all_iff)
  then have "unmarshal_raw (marshal ev) = Some (Some (map (\<lambda>(k, v). (k, render v)) (event_members ev)))"
    using unmarshal_raw_render [OF event_nested [OF assms]] event_members_keys
    by (simp add: marshal_def event_json_members del: render.simps)
  moreover have "filter (\<lambda>kv. fst kv \<noteq> ''sig'') (map (\<lambda>(k, v). (k, render v)) (event_members ev)) =
      map (\<lambda>(k, v). (k, render v)) (event_members (ev\<lparr>ev_Sig := []\<rparr>))"
    unfolding event_members_sig [symmetric] by (simp add: filter_map comp_def split_beta)
  ultimately show ?thesis using marshal_raw_render by (simp add: delete_key_def del: render.simps)
qed

lemma b64_alphabet_ascii:
  assumes "alphabet_ok ex" "n < 64"
  shows "byte (b64_alphabet ex n) < 128"
proof -
  consider "n < 62" | "n = 62" | "n = 63" using assms(2) by linarith
  then show ?thesis using assms(1) by cases (auto simp: b64_alphabet_code alphabet_ok_def)
qed

lemma b64_groups_ascii: "alphabet_ok ex \<Longrightarrow> ascii pad \<Longrightarrow> ascii (b64_groups (b64_alphabet ex) pad s)"
  by (induction "b64_alphabet ex" pad s rule: b64_groups.induct)
    (use b64_alphabet_ascii digit_bounds in \<open>simp_all add: ascii_def\<close>)

lemma b64_std_ascii: "ascii (b64_std s)"
  using b64_groups_ascii [of "''+/''" "''=''" s] by (simp add: b64_std_def alphabet_ok_def) (simp add: ascii_def)

text \<open>What the cryptography and the canonicalizer promise.\<close>

definition crypto_laws :: "crypto \<Rightarrow> (string \<Rightarrow> string \<Rightarrow> string \<Rightarrow> bool) \<Rightarrow> bool" where
  "crypto_laws cr ed25519_verify \<longleftrightarrow>
     (\<forall>priv m. cr_sign cr priv m \<noteq> [] \<and> ed25519_verify (cr_public cr priv) m (cr_sign cr priv m)) \<and>
     (\<forall>ms. distinct (map fst ms) \<longrightarrow> cr_jcs cr (render (JObj (sort_key fst ms))) = cr_jcs cr (render (JObj ms)))"

lemma Verify_signed:
  assumes laws: "crypto_laws cr edv" and signed: "signed_by cr sg ev" and pub: "sg_pub sg = cr_public cr (sg_priv sg)"
    and small: "event_small ev" "ev_V ev = 1"
  shows "Verify edv (cr_jcs cr) (marshal ev) (sg_pub sg) = Inr (read_back ev)"
proof -
  obtain canonical where c: "cr_jcs cr (marshal (ev\<lparr>ev_Sig := []\<rparr>)) = Inr canonical"
      "ev_Sig ev = b64_std (cr_sign cr (sg_priv sg) canonical)"
    using signed by (auto simp: signed_by_def)
  have sig: "ve_Sig (read_back ev) = ev_Sig ev"
    using b64_std_ascii c(2) by (simp add: read_back_def valid_utf8_ascii)
  have "ev_Sig ev \<noteq> []" using laws b64_std_nonempty c(2) by (simp add: crypto_laws_def)
  moreover obtain raw where raw: "unmarshal_raw (marshal ev) = Some raw"
      "marshal_raw (delete_key ''sig'' raw) = render (JObj (sort_key fst (event_members (ev\<lparr>ev_Sig := []\<rparr>))))"
    using signed_form [OF small(1)] by blast
  moreover have "cr_jcs cr (marshal_raw (delete_key ''sig'' raw)) = Inr canonical"
    using laws c(1) event_members_keys(2)
    unfolding raw(2) marshal_def event_json_members crypto_laws_def by (simp del: render.simps)
  moreover have "edv (sg_pub sg) canonical (cr_sign cr (sg_priv sg) canonical)"
    using laws pub by (simp add: crypto_laws_def)
  ultimately show ?thesis
    using decode_event_marshal [OF small] sig c(2) b64_std_roundtrip by (simp add: Verify_def)
qed

section \<open>Properties\<close>

lemma signed_event_V [simp]: "ev_V (signed_event cr now ev em) = 1"
  by (simp add: signed_event_def fill_envelope_def Let_def)

lemma signed_event_envelope:
  "ev_Kind (signed_event cr now ev em) = ''act-claim''" "ev_TS (signed_event cr now ev em) = format_rfc3339 now"
  "ev_Broker (signed_event cr now ev em) = \<lparr>bi_Instance = em_instance em, bi_KID = sg_kid (em_signer em), bi_Seq = em_seq em + 1\<rparr>"
  by (simp_all add: signed_event_def fill_envelope_def Let_def)

text \<open>C15: what the emitter writes, the verifier accepts. When an event is written, the line appended
  to the stream verifies under the public key of the emitter's signer, and reads back as the signed
  event: the envelope of version 1 with the kind, the time of the emission, the emitter's instance,
  the key identifier of its signer and the next sequence number, and the type, request, subject,
  source, attested and asserted content it was given, with the bytes that are no UTF-8 replaced.
  The laws of the cryptography are those documented for Ed25519 and RFC 8785.\<close>

theorem verify_emitted:
  assumes "crypto_laws cr edv" and "fst (Emit cr now oc ev em) = None"
    and "sg_pub (em_signer em) = cr_public cr (sg_priv (em_signer em))" and "event_small ev"
  shows "\<exists>signed. em_out (snd (snd (Emit cr now oc ev em))) = em_out em @ marshal signed @ [CHR 0x0A] \<and>
     Verify edv (cr_jcs cr) (marshal signed) (sg_pub (em_signer em)) = Inr (read_back signed) \<and>
     ev_Type signed = ev_Type ev \<and> ev_RequestID signed = ev_RequestID ev \<and> ev_Subject signed = ev_Subject ev \<and>
     ev_Source signed = ev_Source ev \<and> ev_Attested signed = ev_Attested ev \<and> ev_Asserted signed = ev_Asserted ev \<and>
     ev_V signed = 1 \<and> ev_Kind signed = ''act-claim'' \<and> ev_TS signed = format_rfc3339 now \<and>
     ev_Broker signed = \<lparr>bi_Instance = em_instance em, bi_KID = sg_kid (em_signer em), bi_Seq = em_seq em + 1\<rparr>"
proof (cases rule: Emit_cases [where cr = cr and now = now and oc = oc and ev = ev and em = em and m = 0])
  case ok
  then have "signed_by cr (em_signer em) (signed_event cr now ev em)" by (intro signed_event_signed)
  moreover have "event_small (signed_event cr now ev em)" using assms(4) by (simp add: event_small_def)
  ultimately have "Verify edv (cr_jcs cr) (marshal (signed_event cr now ev em)) (sg_pub (em_signer em)) =
      Inr (read_back (signed_event cr now ev em))"
    using Verify_signed [OF assms(1) _ assms(3)] by simp
  then show ?thesis
    using ok(4) by (intro exI [of _ "signed_event cr now ev em"]) (simp add: event_line_def signed_event_envelope)
qed (use assms(2) in simp)

text \<open>A canonicalizer that forgets the order of all bytes, and a signature that holds its key.\<close>

definition sorting_crypto :: crypto where
  "sorting_crypto = sample_crypto\<lparr>cr_jcs := (\<lambda>t. Inr (sort t)), cr_sign := (\<lambda>k m. CHR ''s'' # k)\<rparr>"

definition prefix_verify :: "string \<Rightarrow> string \<Rightarrow> string \<Rightarrow> bool" where
  "prefix_verify pub m sig = (sig = CHR ''s'' # pub)"

lemma mset_join: "mset (join sep xs) = mset (concat xs) + repeat_mset (length xs - 1) (mset sep)"
  by (induction sep xs rule: join.induct) auto

lemma sorting_crypto_laws: "crypto_laws sorting_crypto prefix_verify"
proof -
  have "mset (render (JObj (sort_key fst ms))) = mset (render (JObj ms))" for ms
  proof -
    have "mset (concat (map f (sort_key fst ms))) = mset (concat (map f ms))" for f :: "_ \<Rightarrow> string"
      by (simp add: mset_concat flip: sum_mset_sum_list)
    then show ?thesis by (simp add: mset_join)
  qed
  then show ?thesis
    by (simp add: crypto_laws_def sorting_crypto_def prefix_verify_def sample_crypto_def del: render.simps)
      (auto intro: properties_for_sort simp del: render.simps)
qed

definition sorting_emitter :: Emitter where
  "sorting_emitter = NewEmitter (NewSigner sorting_crypto ''key'') ''broker-0''"

theorem verify_emitted_witness:
  "\<exists>signed. em_out (snd (snd (Emit sorting_crypto 0 Written (zero_event\<lparr>ev_Type := ''broker.started''\<rparr>) sorting_emitter))) =
       marshal signed @ [CHR 0x0A] \<and>
     Verify prefix_verify (cr_jcs sorting_crypto) (marshal signed) ''key'' = Inr (read_back signed) \<and>
     ev_Type signed = ''broker.started'' \<and> bi_Instance (ev_Broker signed) = ''broker-0'' \<and> bi_Seq (ev_Broker signed) = 1"
proof -
  have "fst (Emit sorting_crypto 0 Written (zero_event\<lparr>ev_Type := ''broker.started''\<rparr>) sorting_emitter) = None"
    by (simp add: Emit_def Let_def sorting_crypto_def)
  moreover have "sg_pub (em_signer sorting_emitter) = cr_public sorting_crypto (sg_priv (em_signer sorting_emitter))"
      "sg_pub (em_signer sorting_emitter) = ''key''" "em_out sorting_emitter = []" "em_instance sorting_emitter = ''broker-0''" "em_seq sorting_emitter = 0"
    by (simp_all add: sorting_emitter_def NewEmitter_def NewSigner_def sorting_crypto_def sample_crypto_def Let_def)
  moreover have "event_small (zero_event\<lparr>ev_Type := ''broker.started''\<rparr>)" by (simp add: event_small_def zero_event_def)
  ultimately show ?thesis
    using verify_emitted [OF sorting_crypto_laws, of 0 Written "zero_event\<lparr>ev_Type := ''broker.started''\<rparr>" sorting_emitter]
    by auto
qed

end
