(* ===== verification/Stream_Verify.thy ===== *)
theory Stream_Verify
  imports Audit_Verify
begin

text \<open>
  Command \<open>acb-verify\<close>: offline checking of event streams. Input is the flag, the number of file
  arguments being immaterial, and the readers in their order, each with its bytes and whether
  reading ends in an error; output is the report lines, the summary and the exit code.
  \<open>emitted_stream_verifies\<close> composes it with the emitter: the stream of a run passes.
  The gap analysis is pinned to the neighbours it must report.
\<close>

section \<open>Reading lines\<close>

text \<open>\<open>bufio.Scanner\<close> with \<open>ScanLines\<close> and a buffer of at most 1 MiB: the tokens, and whether it
  stopped at a line that does not fit.\<close>

definition maxTokenSize :: nat where
  "maxTokenSize = 1048576"

definition dropCR :: "string \<Rightarrow> string" where
  "dropCR l = (if l \<noteq> [] \<and> last l = CHR 0x0D then butlast l else l)"

definition raw_lines :: "string \<Rightarrow> string list" where
  "raw_lines s = (let ps = Split s CHR 0x0A in if last ps = [] then butlast ps else ps)"

definition scan_lines :: "string \<Rightarrow> string list \<times> bool" where
  "scan_lines s =
     (let fits = takeWhile (\<lambda>l. length l < maxTokenSize) (raw_lines s)
      in (map dropCR fits, length fits < length (raw_lines s)))"

record reader =
  rd_bytes :: string
  rd_error :: bool

section \<open>The loop over the lines\<close>

datatype finding =
    InvalidLine nat verify_error
  | DuplicateSeq string "64 word"
  | SeqGap string "64 word" "64 word" "64 word"

record tally =
  ta_total :: nat
  ta_valid :: nat
  ta_invalid :: nat
  ta_seqs :: "64 word list gomap"
  ta_out :: "finding list"

definition zero_tally :: tally where
  "zero_tally = \<lparr>ta_total = 0, ta_valid = 0, ta_invalid = 0, ta_seqs = [], ta_out = []\<rparr>"

definition seqs_of :: "64 word list gomap \<Rightarrow> string \<Rightarrow> 64 word list" where
  "seqs_of m k = (case map_of m k of None \<Rightarrow> [] | Some l \<Rightarrow> l)"

definition verify_line :: "(string \<Rightarrow> string \<Rightarrow> string \<Rightarrow> bool) \<Rightarrow> (string \<Rightarrow> string + string) \<Rightarrow> string \<Rightarrow> string \<Rightarrow>
    tally \<Rightarrow> tally" where
  "verify_line edv jcs pub line t =
     (if line = [] then t
      else let t1 = t\<lparr>ta_total := ta_total t + 1\<rparr>
           in case Verify edv jcs line pub of
                Inl err \<Rightarrow> t1\<lparr>ta_invalid := ta_invalid t1 + 1, ta_out := ta_out t1 @ [InvalidLine (ta_total t1) err]\<rparr>
              | Inr ev \<Rightarrow>
                  let inst = bi_Instance (ve_Broker ev)
                  in t1\<lparr>ta_valid := ta_valid t1 + 1,
                        ta_seqs := gupdate (ta_seqs t1) inst (seqs_of (ta_seqs t1) inst @ [bi_Seq (ve_Broker ev)])\<rparr>)"

text \<open>The readers in order; \<open>True\<close> when one of them ends in an error, at which the command exits.\<close>

fun verify_readers :: "(string \<Rightarrow> string \<Rightarrow> string \<Rightarrow> bool) \<Rightarrow> (string \<Rightarrow> string + string) \<Rightarrow> string \<Rightarrow> reader list \<Rightarrow>
    tally \<Rightarrow> tally \<times> bool" where
  "verify_readers edv jcs pub [] t = (t, False)"
| "verify_readers edv jcs pub (r # rs) t =
     (let (lines, tooLong) = scan_lines (rd_bytes r);
          t1 = fold (verify_line edv jcs pub) lines t
      in if tooLong \<or> rd_error r then (t1, True) else verify_readers edv jcs pub rs t1)"

section \<open>Gap analysis\<close>

fun adjacent :: "string \<Rightarrow> 64 word list \<Rightarrow> finding list" where
  "adjacent inst (a # b # xs) =
     (let d = b - a
      in (if d = 0 then [DuplicateSeq inst b] else if d > 1 then [SeqGap inst a b (d - 1)] else [])) @
     adjacent inst (b # xs)"
| "adjacent inst _ = []"

definition analyse :: "64 word list gomap \<Rightarrow> finding list" where
  "analyse seqs = concat (map (\<lambda>(inst, l). adjacent inst (sort l)) seqs)"

fun is_gap :: "finding \<Rightarrow> bool" where
  "is_gap (SeqGap inst a b n) = True" | "is_gap _ = False"

fun is_dup :: "finding \<Rightarrow> bool" where
  "is_dup (DuplicateSeq inst s) = True" | "is_dup _ = False"

section \<open>The command\<close>

record summary =
  su_events :: nat
  su_valid :: nat
  su_invalid :: nat
  su_gaps :: nat
  su_dups :: nat
  su_instances :: nat

datatype usage_error = MissingPubkey | InvalidPubkey | OpenError string | ReadError

record verdict =
  vd_out :: "finding list"
  vd_summary :: "summary option"
  vd_usage :: "usage_error option"
  vd_exit :: int

definition usage :: "usage_error \<Rightarrow> finding list \<Rightarrow> verdict" where
  "usage u out = \<lparr>vd_out = out, vd_summary = None, vd_usage = Some u, vd_exit = 2\<rparr>"

definition finish :: "tally \<Rightarrow> verdict" where
  "finish t =
     (let fs = analyse (ta_seqs t)
      in \<lparr>vd_out = ta_out t @ fs,
          vd_summary = Some \<lparr>su_events = ta_total t, su_valid = ta_valid t, su_invalid = ta_invalid t,
            su_gaps = length (filter is_gap fs), su_dups = length (filter is_dup fs), su_instances = length (ta_seqs t)\<rparr>,
          vd_usage = None, vd_exit = (if ta_invalid t > 0 then 1 else 0)\<rparr>)"

text \<open>\<open>inputs\<close>: the files opened in order, an error for one that cannot be, or standard input alone.\<close>

definition acb_verify :: "(string \<Rightarrow> string \<Rightarrow> string \<Rightarrow> bool) \<Rightarrow> (string \<Rightarrow> string + string) \<Rightarrow> string \<Rightarrow>
    (string + reader) list \<Rightarrow> verdict" where
  "acb_verify edv jcs pubB64 inputs =
     (if pubB64 = [] then usage MissingPubkey []
      else case b64_std_decode pubB64 of
        None \<Rightarrow> usage InvalidPubkey []
      | Some pub \<Rightarrow>
          if length pub \<noteq> 32 then usage InvalidPubkey []
          else case find isl inputs of
            Some (Inl e) \<Rightarrow> usage (OpenError e) []
          | _ \<Rightarrow>
              (case verify_readers edv jcs pub (map projr inputs) zero_tally of
                 (t, True) \<Rightarrow> usage ReadError (ta_out t)
               | (t, False) \<Rightarrow> finish t))"

section \<open>What the analysis reports\<close>

fun missing_of :: "finding \<Rightarrow> nat" where
  "missing_of (SeqGap inst a b n) = unat n" | "missing_of _ = 0"

text \<open>The numbers between two bounds that a stream does not show.\<close>

definition unseen :: "64 word list \<Rightarrow> nat set" where
  "unseen l = {n. Min (unat ` set l) \<le> n \<and> n \<le> Max (unat ` set l) \<and> n \<notin> unat ` set l}"

lemma adjacent_Cons:
  assumes "a \<le> b"
  shows "length (filter is_dup (adjacent inst (a # b # xs))) = (if a = b then 1 else 0) + length (filter is_dup (adjacent inst (b # xs)))"
    "sum_list (map missing_of (adjacent inst (a # b # xs))) = (unat b - unat a - 1) + sum_list (map missing_of (adjacent inst (b # xs)))"
    "filter is_gap (adjacent inst (a # b # xs)) = [] \<longleftrightarrow> unat b - unat a \<le> 1 \<and> filter is_gap (adjacent inst (b # xs)) = []"
proof -
  have d: "unat (b - a) = unat b - unat a" using assms by (rule unat_sub)
  have z: "b - a = 0 \<longleftrightarrow> a = b" by auto
  have g: "b - a > 1 \<longleftrightarrow> unat b - unat a > 1" using d by (simp add: word_less_nat_alt)
  have m: "unat (b - a - 1) = unat b - unat a - 1" if "b - a > 1"
    using that d unat_sub [of 1 "b - a"] by (simp add: less_imp_le)
  show "length (filter is_dup (adjacent inst (a # b # xs))) = (if a = b then 1 else 0) + length (filter is_dup (adjacent inst (b # xs)))"
    by (simp add: Let_def)
  show "sum_list (map missing_of (adjacent inst (a # b # xs))) = (unat b - unat a - 1) + sum_list (map missing_of (adjacent inst (b # xs)))"
    using m g z by (auto simp: Let_def)
  show "filter is_gap (adjacent inst (a # b # xs)) = [] \<longleftrightarrow> unat b - unat a \<le> 1 \<and> filter is_gap (adjacent inst (b # xs)) = []"
    using g z by (auto simp: Let_def not_less)
qed

lemma adjacent_sorted:
  assumes "sorted (a # l)"
  shows "card (unat ` set (a # l)) + length (filter is_dup (adjacent inst (a # l))) = length (a # l) \<and>
    sum_list (map missing_of (adjacent inst (a # l))) + card (unat ` set (a # l)) = unat (last (a # l)) - unat a + 1 \<and>
    (filter is_gap (adjacent inst (a # l)) = [] \<longleftrightarrow> sum_list (map missing_of (adjacent inst (a # l))) = 0)"
  using assms
proof (induction l arbitrary: a)
  case (Cons b l)
  have ab: "a \<le> b" "sorted (b # l)" using Cons.prems by auto
  have bl: "unat b \<le> unat (last (b # l))"
    using ab(2) by (cases l) (auto simp: word_le_nat_alt [symmetric])
  have card: "card (unat ` set (a # b # l)) = (if a = b then 0 else 1) + card (unat ` set (b # l))"
  proof (cases "a = b")
    case False
    then have "a < b" using ab(1) by simp
    then have "a \<notin> set (b # l)" using ab(2) by auto
    then have "unat a \<notin> unat ` set (b # l)" by (auto dest: unsigned_word_eqI)
    then show ?thesis using False by (simp del: set_simps add: set_simps(2) [of a])
  qed (simp add: insert_absorb)
  have "unat a < unat b" if "a \<noteq> b" using that ab(1) by (simp add: word_less_nat_alt [symmetric])
  then show ?case
    using Cons.IH [OF ab(2)] adjacent_Cons [OF ab(1), of inst l] card bl ab(1)
    by (auto simp del: adjacent.simps set_simps simp: word_le_nat_alt)
qed simp

lemma Min_Max_sorted:
  assumes "sorted (a # l)"
  shows "Min (unat ` set (a # l)) = unat a" "Max (unat ` set (a # l)) = unat (last (a # l))"
proof -
  have le: "a \<le> x \<and> x \<le> last (a # l)" if "x \<in> set (a # l)" for x
  proof -
    obtain i where i: "i < length (a # l)" "x = (a # l) ! i" using \<open>x \<in> set (a # l)\<close> by (metis in_set_conv_nth)
    have "(a # l) ! 0 \<le> (a # l) ! i" "(a # l) ! i \<le> (a # l) ! (length (a # l) - 1)"
      using sorted_nth_mono [OF assms, of 0 i] sorted_nth_mono [OF assms, of i "length (a # l) - 1"] i(1) by auto
    moreover have "last (a # l) = (a # l) ! (length (a # l) - 1)" by (rule last_conv_nth) simp
    ultimately show ?thesis using i(2) by simp
  qed
  show "Min (unat ` set (a # l)) = unat a"
    using le by (intro Min_eqI) (auto simp: word_le_nat_alt)
  show "Max (unat ` set (a # l)) = unat (last (a # l))"
    using le by (intro Max_eqI) (auto simp: word_le_nat_alt)
qed

lemma card_unseen:
  assumes "sorted (a # l)"
  shows "card (unseen (a # l)) + card (unat ` set (a # l)) = unat (last (a # l)) - unat a + 1"
proof -
  let ?S = "unat ` set (a # l)" and ?I = "{unat a..unat (last (a # l))}"
  have sub: "?S \<subseteq> ?I"
    using Min_Max_sorted [OF assms] by (metis List.finite_set Max_ge Min_le atLeastAtMost_iff finite_imageI subsetI)
  have "unseen (a # l) = ?I - ?S" unfolding unseen_def Min_Max_sorted [OF assms] by auto
  then have "card (unseen (a # l)) = card ?I - card ?S" using sub by (simp add: card_Diff_subset)
  moreover have "card ?S \<le> card ?I" using sub by (intro card_mono) auto
  moreover have "unat a \<le> unat (last (a # l))"
    using sub by auto
  ultimately show ?thesis by simp
qed

lemma unseen_sort: "unseen (sort l) = unseen l"
  by (simp add: unseen_def)

text \<open>The gap reports a set of numbers calls for: one per pair of neighbours that are more than one
  apart, with the two neighbours and the number of those between.\<close>

definition gap_reports :: "string \<Rightarrow> 64 word set \<Rightarrow> finding set" where
  "gap_reports inst S = {SeqGap inst a b (b - a - 1) |a b. a \<in> S \<and> b \<in> S \<and> unat a + 1 < unat b \<and> (\<forall>x \<in> S. \<not> (a < x \<and> x < b))}"

text \<open>The numbers strictly between the bounds of a gap report.\<close>

fun gap_numbers :: "finding \<Rightarrow> nat set" where
  "gap_numbers (SeqGap inst a b n) = {unat a<..<unat b}" | "gap_numbers _ = {}"

lemma gap_numbers_other: "\<not> is_gap f \<Longrightarrow> gap_numbers f = {}"
  by (cases f) auto

lemma gap_reports_insert:
  assumes "a < b" "b \<in> S" "\<forall>x \<in> S. b \<le> x"
  shows "gap_reports inst (insert a S) = (if unat a + 1 < unat b then {SeqGap inst a b (b - a - 1)} else {}) \<union> gap_reports inst S"
proof (intro set_eqI)
  fix f
  have least: "a < x \<and> b \<le> x" if "x \<in> S" for x using that assms by force
  have pairs: "(p \<in> insert a S \<and> q \<in> insert a S \<and> unat p + 1 < unat q \<and> (\<forall>x \<in> insert a S. \<not> (p < x \<and> x < q))) \<longleftrightarrow>
      (p = a \<and> q = b \<and> unat a + 1 < unat b) \<or> (p \<in> S \<and> q \<in> S \<and> unat p + 1 < unat q \<and> (\<forall>x \<in> S. \<not> (p < x \<and> x < q)))"
    (is "?l \<longleftrightarrow> ?r") for p q
  proof
    assume l: ?l
    then have "p < q" by (simp add: word_less_nat_alt)
    then have q: "q \<in> S" using l least by (metis insertE order_less_asym order_less_irrefl)
    show ?r
    proof (cases "p \<in> S")
      case False
      then have p: "p = a" using l by blast
      then have "\<not> b < q" using l assms(1,2) by blast
      then have "q = b" using least [OF q] by simp
      then show ?thesis using p l by blast
    qed (use l q in blast)
  next
    assume r: ?r
    then show ?l
    proof (elim disjE)
      assume "p = a \<and> q = b \<and> unat a + 1 < unat b"
      then show ?l using assms(2) least by (metis insert_iff leD order_less_irrefl)
    next
      assume "p \<in> S \<and> q \<in> S \<and> unat p + 1 < unat q \<and> (\<forall>x \<in> S. \<not> (p < x \<and> x < q))"
      then show ?l using least by (metis insert_iff order_less_asym)
    qed
  qed
  show "f \<in> gap_reports inst (insert a S) \<longleftrightarrow>
      f \<in> (if unat a + 1 < unat b then {SeqGap inst a b (b - a - 1)} else {}) \<union> gap_reports inst S"
    unfolding gap_reports_def mem_Collect_eq pairs Un_iff by auto
qed

lemma adjacent_reports:
  assumes "sorted (a # l)"
  shows "set (filter is_gap (adjacent inst (a # l))) = gap_reports inst (set (a # l)) \<and>
    distinct (filter is_gap (adjacent inst (a # l))) \<and>
    count_list (adjacent inst (a # l)) (DuplicateSeq inst s) = count_list (a # l) s - 1 \<and>
    (\<forall>f \<in> set (adjacent inst (a # l)). is_gap f \<or> (\<exists>s \<in> set (a # l). f = DuplicateSeq inst s))"
  using assms
proof (induction l arbitrary: a)
  case (Cons b l)
  have ab: "a \<le> b" "sorted (b # l)" using Cons.prems by auto
  note IH = Cons.IH [OF ab(2)]
  show ?case
  proof (cases "a = b")
    case True
    then have adj: "adjacent inst (a # b # l) = DuplicateSeq inst b # adjacent inst (b # l)" by simp
    show ?thesis
      unfolding adj using IH True by (auto simp del: adjacent.simps)
  next
    case False
    then have lt: "a < b" using ab(1) by simp
    have d: "unat (b - a) = unat b - unat a" using ab(1) by (rule unat_sub)
    have g: "b - a > 1 \<longleftrightarrow> unat a + 1 < unat b" using d by (simp add: word_less_nat_alt) arith
    have adj: "adjacent inst (a # b # l) = (if unat a + 1 < unat b then [SeqGap inst a b (b - a - 1)] else []) @ adjacent inst (b # l)"
      using False g by simp
    have least: "\<forall>x \<in> set (b # l). b \<le> x" using ab(2) by auto
    have "set (filter is_gap (adjacent inst (a # b # l))) = gap_reports inst (set (a # b # l))"
      using IH gap_reports_insert [OF lt _ least, of inst] unfolding adj by (simp del: adjacent.simps)
    moreover have "a \<notin> set (b # l)" using least lt by auto
    then have "SeqGap inst a b n \<notin> gap_reports inst (set (b # l))" "count_list (b # l) a = 0" for n
      by (auto simp: gap_reports_def count_list_0_iff)
    then have "SeqGap inst a b n \<notin> set (filter is_gap (adjacent inst (b # l)))" for n using IH by metis
    then have "distinct (filter is_gap (adjacent inst (a # b # l)))"
      using IH unfolding adj filter_append distinct_append by (auto simp del: adjacent.simps)
    moreover have "count_list (adjacent inst (a # b # l)) (DuplicateSeq inst s) = count_list (a # b # l) s - 1"
      using IH \<open>count_list (b # l) a = 0\<close> unfolding adj by (auto simp del: adjacent.simps)
    moreover have "\<forall>f \<in> set (adjacent inst (a # b # l)). is_gap f \<or> (\<exists>s \<in> set (a # b # l). f = DuplicateSeq inst s)"
      using IH unfolding adj by (auto simp del: adjacent.simps)
    ultimately show ?thesis by blast
  qed
qed (simp add: gap_reports_def)

lemma reports_cover:
  assumes "finite S" "S \<noteq> {}"
  shows "(\<Union>f \<in> gap_reports inst S. gap_numbers f) = {n. Min (unat ` S) \<le> n \<and> n \<le> Max (unat ` S) \<and> n \<notin> unat ` S}"
proof (intro set_eqI iffI)
  fix n assume "n \<in> (\<Union>f \<in> gap_reports inst S. gap_numbers f)"
  then obtain a b where ab: "a \<in> S" "b \<in> S" "unat a < n" "n < unat b" "\<forall>x \<in> S. \<not> (a < x \<and> x < b)"
    by (auto simp: gap_reports_def)
  have "Min (unat ` S) \<le> unat a" "unat b \<le> Max (unat ` S)" using assms(1) ab(1,2) by auto
  moreover have "n \<notin> unat ` S" using ab(3-5) by (auto simp: word_less_nat_alt)
  ultimately show "n \<in> {n. Min (unat ` S) \<le> n \<and> n \<le> Max (unat ` S) \<and> n \<notin> unat ` S}" using ab(3,4) by simp
next
  fix n assume n: "n \<in> {n. Min (unat ` S) \<le> n \<and> n \<le> Max (unat ` S) \<and> n \<notin> unat ` S}"
  let ?lo = "{x \<in> S. unat x < n}" and ?hi = "{x \<in> S. n < unat x}"
  have bounds: "Min (unat ` S) \<in> unat ` S" "Max (unat ` S) \<in> unat ` S" using assms by simp_all
  have lo: "finite ?lo" "?lo \<noteq> {}" and hi: "finite ?hi" "?hi \<noteq> {}"
    using assms(1) n bounds by (auto simp: order_le_less)
  let ?a = "Max ?lo" and ?b = "Min ?hi"
  have a: "?a \<in> S" "unat ?a < n" and b: "?b \<in> S" "n < unat ?b" using Max_in [OF lo] Min_in [OF hi] by auto
  have "\<not> (?a < x \<and> x < ?b)" if x: "x \<in> S" for x
  proof -
    have "unat x \<noteq> n" using n x by auto
    then have "x \<in> ?lo \<or> x \<in> ?hi" using x by auto
    then consider "x \<in> ?lo" | "x \<in> ?hi" by blast
    then show ?thesis using Max_ge [OF lo(1)] Min_le [OF hi(1)] by cases (auto simp: not_less)
  qed
  then have "SeqGap inst ?a ?b (?b - ?a - 1) \<in> gap_reports inst S" using a b unfolding gap_reports_def by fastforce
  then show "n \<in> (\<Union>f \<in> gap_reports inst S. gap_numbers f)" using a b by force
qed

section \<open>The stream of an emitter\<close>

lemma emit_run_records:
  assumes "\<forall>(now, oc, ev) \<in> set is. event_small ev" "ev \<in> set (fst (emit_run cr is em))"
  shows "signed_by cr (em_signer em) ev \<and> event_small ev \<and> ev_V ev = 1 \<and> bi_Instance (ev_Broker ev) = em_instance em"
  using assms
proof (induction "is" arbitrary: em)
  case (Cons i "is")
  obtain now oc e where i: "i = (now, oc, e)" by (cases i)
  let ?em = "snd (emit_commit cr i em)"
  have keep: "em_signer ?em = em_signer em \<and> em_instance ?em = em_instance em"
    using i by (cases rule: emit_commit_cases [of cr now oc e em]) auto
  show ?case
  proof (cases "ev \<in> set (fst (emit_run cr is ?em))")
    case True
    then show ?thesis using Cons.IH [of ?em] Cons.prems(1) keep by auto
  next
    case False
    then have c: "fst (emit_commit cr i em)" "ev = signed_event cr now e em"
      using Cons.prems(2) i by (auto simp: split_beta Let_def emit_record_def [of cr "(now, oc, e)" em] split: if_splits)
    then have "\<not> isl (cr_jcs cr (marshal (fill_envelope now e em)))"
      using i by (cases rule: Emit_cases [where cr = cr and now = now and oc = oc and ev = e and em = em and m = 0])
        (auto simp: emit_commit_eq)
    then show ?thesis
      using c(2) signed_event_signed [of cr now e em] Cons.prems(1) i
      by (auto simp: event_small_def signed_event_def fill_envelope_def Let_def)
  qed
qed simp

lemma marshal_nonempty: "marshal ev \<noteq> []"
  by (simp add: marshal_def event_json_members)

lemma verify_line_signed:
  assumes "Verify edv jcs (marshal ev) pub = Inr (read_back ev)" "valid_utf8 (bi_Instance (ev_Broker ev)) = inst"
    "ta_seqs t = (if l = [] then [] else [(inst, l)])"
  shows "verify_line edv jcs pub (marshal ev) t =
    t\<lparr>ta_total := ta_total t + 1, ta_valid := ta_valid t + 1, ta_seqs := [(inst, l @ [bi_Seq (ev_Broker ev)])]\<rparr>"
  using assms marshal_nonempty [of ev] by (simp add: verify_line_def Let_def read_back_def seqs_of_def)

lemma verify_lines_signed:
  assumes "\<forall>ev \<in> set evs. Verify edv jcs (marshal ev) pub = Inr (read_back ev) \<and> valid_utf8 (bi_Instance (ev_Broker ev)) = inst"
    "ta_seqs t = (if l = [] then [] else [(inst, l)])" "evs \<noteq> []"
  shows "fold (verify_line edv jcs pub) (map marshal evs) t =
    t\<lparr>ta_total := ta_total t + length evs, ta_valid := ta_valid t + length evs,
      ta_seqs := [(inst, l @ map (\<lambda>ev. bi_Seq (ev_Broker ev)) evs)]\<rparr>"
  using assms
proof (induction evs arbitrary: t l)
  case (Cons ev evs)
  let ?l = "l @ [bi_Seq (ev_Broker ev)]"
  have "verify_line edv jcs pub (marshal ev) t =
      t\<lparr>ta_total := ta_total t + 1, ta_valid := ta_valid t + 1, ta_seqs := [(inst, ?l)]\<rparr>"
    using verify_line_signed [of edv jcs ev pub inst t l] Cons.prems by simp
  then show ?case
    using Cons.IH [of "t\<lparr>ta_total := ta_total t + 1, ta_valid := ta_valid t + 1, ta_seqs := [(inst, ?l)]\<rparr>" ?l] Cons.prems(1)
    by (cases "evs = []") simp_all
qed simp

lemma scan_event_lines:
  "scan_lines (concat (map event_line evs)) =
     (map marshal (takeWhile (\<lambda>ev. length (marshal ev) < maxTokenSize) evs), \<exists>ev \<in> set evs. maxTokenSize \<le> length (marshal ev))"
proof -
  have "dropCR (marshal ev) = marshal ev" for ev
  proof -
    have "last (marshal ev) \<in> set (marshal ev)" by (rule last_in_set [OF marshal_nonempty])
    with marshal_clean [of ev, unfolded clean_def] have "32 \<le> byte (last (marshal ev))" by (rule bspec)
    then have "last (marshal ev) \<noteq> CHR 0x0D" by (intro notI) simp
    then show ?thesis by (simp add: dropCR_def)
  qed
  then have d: "map dropCR (map marshal xs) = map marshal xs" for xs by simp
  have r: "raw_lines (concat (map event_line evs)) = map marshal evs"
    by (simp add: raw_lines_def Split_event_lines)
  have t: "takeWhile (\<lambda>l. length l < maxTokenSize) (map marshal evs) = map marshal (takeWhile (\<lambda>ev. length (marshal ev) < maxTokenSize) evs)"
    by (simp add: takeWhile_map comp_def)
  have "length (takeWhile P evs) < length evs \<longleftrightarrow> (\<exists>ev \<in> set evs. \<not> P ev)" for P
    by (induction evs) auto
  then show ?thesis unfolding scan_lines_def Let_def r t d by (simp add: not_less)
qed

lemma consecutive:
  assumes "unat s + n < 2 ^ 64"
  shows "sorted (map (\<lambda>i. s + of_nat i) [1..<Suc n])" "adjacent inst (map (\<lambda>i. s + of_nat i) [k..<m]) = []"
proof -
  have "unat (s + of_nat i) = unat s + i" if "i \<le> n" for i
    using that assms by (simp add: unat_word_ariths unat_of_nat)
  then show "sorted (map (\<lambda>i. s + of_nat i) [1..<Suc n])"
    unfolding sorted_map
    by (intro sorted_wrt_mono_rel [OF _ sorted_wrt_upt]) (auto simp: word_le_nat_alt simp del: upt_Suc)
  show "adjacent inst (map (\<lambda>i. s + of_nat i) [k..<m]) = []"
  proof (induction "m - k" arbitrary: k)
    case (Suc j)
    show ?case
    proof (cases "Suc k < m")
      case True
      then have "[k..<m] = k # Suc k # [Suc (Suc k)..<m]" "[Suc k..<m] = Suc k # [Suc (Suc k)..<m]"
        by (simp_all add: upt_conv_Cons)
      then show ?thesis using Suc.hyps(1) [of "Suc k"] Suc.hyps(2) by (simp add: Let_def algebra_simps)
    next
      case False
      then have "[k..<m] = [k]" using Suc.hyps(2) by (simp add: upt_conv_Cons)
      then show ?thesis by simp
    qed
  qed simp
qed

section \<open>Properties\<close>

text \<open>C16: gap analysis is exact. For the sequence numbers seen of an instance, in any order, the gap
  reports are those of the pairs of neighbouring numbers that are more than one apart, each once,
  with the instance, the two neighbours and the number of those between; the numbers between the
  bounds reported are those between the least and the greatest that were not seen, and the
  numbers reported missing add up to them; a number seen \<open>k\<close> times is reported as a duplicate \<open>k - 1\<close>
  times, and nothing else is reported. So removing events from the middle of a stream always shows,
  and shows where.\<close>

theorem gap_analysis_exact:
  assumes "l \<noteq> []"
  shows "set (filter is_gap (adjacent inst (sort l))) = gap_reports inst (set l) \<and>
    distinct (filter is_gap (adjacent inst (sort l))) \<and>
    (\<Union>f \<in> set (adjacent inst (sort l)). gap_numbers f) = unseen l \<and>
    sum_list (map missing_of (adjacent inst (sort l))) = card (unseen l) \<and>
    (filter is_gap (adjacent inst (sort l)) = [] \<longleftrightarrow> unseen l = {}) \<and>
    (\<forall>s. count_list (adjacent inst (sort l)) (DuplicateSeq inst s) = count_list l s - 1) \<and>
    length (filter is_dup (adjacent inst (sort l))) = length l - card (set l) \<and>
    (\<forall>f \<in> set (adjacent inst (sort l)). is_gap f \<or> (\<exists>s \<in> set l. f = DuplicateSeq inst s))"
proof -
  obtain a xs where s: "sort l = a # xs" using assms by (metis length_0_conv length_sort neq_Nil_conv)
  then have sorted: "sorted (a # xs)" using sorted_sort [of l] by simp
  have same: "set (a # xs) = set l" "count_list (a # xs) = count_list l" "length (a # xs) = length l"
    using s by (metis set_sort, metis count_mset mset_sort ext, metis length_sort)
  have card: "card (unat ` set (a # xs)) = card (set l)"
    unfolding same(1) by (intro card_image) (auto intro: inj_onI unsigned_word_eqI)
  have fin: "finite (unseen l)" by (rule finite_subset [of _ "{..Max (unat ` set l)}"]) (auto simp: unseen_def)
  have u: "unseen l = unseen (a # xs)" using unseen_sort [of l] s by simp
  have "sum_list (map missing_of (adjacent inst (a # xs))) = card (unseen l)"
    using adjacent_sorted [OF sorted, of inst] card_unseen [OF sorted] u by simp
  moreover have "card (unseen l) = 0 \<longleftrightarrow> unseen l = {}" using fin by (simp add: card_eq_0_iff)
  moreover have "length (filter is_dup (adjacent inst (a # xs))) = length l - card (set l)"
    using adjacent_sorted [OF sorted, of inst] card same(3) by linarith
  moreover note reports = adjacent_reports [OF sorted, of inst, unfolded same]
  have "(\<Union>f \<in> set (adjacent inst (a # xs)). gap_numbers f) = (\<Union>f \<in> set (filter is_gap (adjacent inst (a # xs))). gap_numbers f)"
    using gap_numbers_other by fastforce
  then have "(\<Union>f \<in> set (adjacent inst (a # xs)). gap_numbers f) = unseen l"
    using reports reports_cover [of "set l" inst] assms by (simp add: unseen_def)
  ultimately show ?thesis
    unfolding s using adjacent_sorted [OF sorted, of inst] reports by metis
qed

theorem gap_analysis_exact_witness:
  "SeqGap ''b'' 3 5 1 \<in> set (adjacent ''b'' (sort [5, 2, 3, 3 :: 64 word])) \<and>
   count_list (adjacent ''b'' (sort [5, 2, 3, 3 :: 64 word])) (DuplicateSeq ''b'' 3) = 1"
proof -
  have "SeqGap ''b'' 3 5 (5 - 3 - 1) \<in> gap_reports ''b'' (set [5, 2, 3, 3])"
    unfolding gap_reports_def mem_Collect_eq by (intro exI [of _ 3] exI [of _ 5]) (simp add: word_less_nat_alt)
  moreover have "count_list [5, 2, 3, 3 :: 64 word] 3 - 1 = 1" by simp
  moreover have "(5 :: 64 word) - 3 - 1 = 1" by simp
  ultimately show ?thesis
    using gap_analysis_exact [of "[5, 2, 3, 3]" "''b''"] by (auto simp del: adjacent.simps sort_key_simps set_simps count_list.simps)
qed

text \<open>What the verifier says of a run of an emitter that starts with an empty stream, with failed
  emissions that leave nothing behind: when every line fits its buffer, it counts every committed
  event as valid and exits with 0; a line that does not fit is a read error, with no summary.\<close>

lemma emitted_stream_verifies:
  assumes laws: "crypto_laws cr edv" and run: "\<forall>(now, oc, ev) \<in> set is. oc \<in> {Written, Failed 0} \<and> event_small ev"
    and em: "em_out em = []" "sg_pub (em_signer em) = cr_public cr (sg_priv (em_signer em))" "length (sg_pub (em_signer em)) = 32"
    and evs: "evs = fst (emit_run cr is em)" "unat (em_seq em) + length evs < 2 ^ 64"
  shows "acb_verify edv (cr_jcs cr) (PublicBase64 (em_signer em))
      [Inr \<lparr>rd_bytes = em_out (snd (emit_run cr is em)), rd_error = False\<rparr>] =
    (if \<exists>ev \<in> set evs. maxTokenSize \<le> length (marshal ev) then usage ReadError []
     else \<lparr>vd_out = [], vd_summary = Some \<lparr>su_events = length evs, su_valid = length evs, su_invalid = 0, su_gaps = 0, su_dups = 0,
       su_instances = (if evs = [] then 0 else 1)\<rparr>, vd_usage = None, vd_exit = 0\<rparr>)"
proof -
  let ?pub = "sg_pub (em_signer em)" and ?inst = "valid_utf8 (em_instance em)"
  have out: "em_out (snd (emit_run cr is em)) = concat (map event_line evs)"
  proof -
    have "\<forall>(now, oc, ev) \<in> set is. oc \<in> {Written, Failed 0}" using run by fastforce
    from emit_run_out [OF this, of cr em] show ?thesis using em(1) evs(1) by simp
  qed
  have small: "\<forall>(now, oc, ev) \<in> set is. event_small ev" using run by auto
  have ok: "\<forall>ev \<in> set evs. Verify edv (cr_jcs cr) (marshal ev) ?pub = Inr (read_back ev) \<and> valid_utf8 (bi_Instance (ev_Broker ev)) = ?inst"
    using emit_run_records [OF small] Verify_signed [OF laws _ em(2)] evs(1) by simp
  have seqs: "map (\<lambda>ev. bi_Seq (ev_Broker ev)) evs = map (\<lambda>i. em_seq em + of_nat i) [1..<Suc (length evs)]"
    using stream.gapless [of cr "is" em] evs(1) by simp
  let ?t = "\<lambda>evs. fold (verify_line edv (cr_jcs cr) ?pub) (map marshal evs) zero_tally"
  have t: "?t xs = zero_tally\<lparr>ta_total := length xs, ta_valid := length xs,
      ta_seqs := (if xs = [] then [] else [(?inst, map (\<lambda>ev. bi_Seq (ev_Broker ev)) xs)])\<rparr>" if "set xs \<subseteq> set evs" for xs
    using verify_lines_signed [of xs edv "cr_jcs cr" ?pub ?inst zero_tally "[]"] ok that
    by (cases "xs = []") (auto simp: zero_tally_def subset_iff)
  have passes: "finish (?t evs) = \<lparr>vd_out = [], vd_summary = Some \<lparr>su_events = length evs, su_valid = length evs, su_invalid = 0, su_gaps = 0, su_dups = 0,
       su_instances = (if evs = [] then 0 else 1)\<rparr>, vd_usage = None, vd_exit = 0\<rparr>"
    unfolding t [OF order_refl] seqs
    using consecutive [OF evs(2)] by (simp add: finish_def Let_def analyse_def zero_tally_def sorted_sort_id del: upt_Suc)
  have "PublicBase64 (em_signer em) \<noteq> []"
    using em(3) b64_std_nonempty [of ?pub] by (cases "?pub = []") (simp_all add: PublicBase64_def)
  moreover have "ta_out (?t (takeWhile P evs)) = []" for P
  proof -
    have "set (takeWhile P evs) \<subseteq> set evs" by (auto dest: set_takeWhileD)
    from t [OF this] show ?thesis by (simp add: zero_tally_def)
  qed
  ultimately have verdict: "acb_verify edv (cr_jcs cr) (PublicBase64 (em_signer em)) [Inr \<lparr>rd_bytes = concat (map event_line evs), rd_error = False\<rparr>] =
    (if \<exists>ev \<in> set evs. maxTokenSize \<le> length (marshal ev) then usage ReadError []
     else finish (?t (takeWhile (\<lambda>ev. length (marshal ev) < maxTokenSize) evs)))"
    using em(3) by (simp add: acb_verify_def PublicBase64_def b64_std_roundtrip scan_event_lines Let_def)
  show ?thesis
  proof (cases "\<exists>ev \<in> set evs. maxTokenSize \<le> length (marshal ev)")
    case False
    then have "takeWhile (\<lambda>ev. length (marshal ev) < maxTokenSize) evs = evs" by (auto simp: takeWhile_eq_all_conv not_le)
    then show ?thesis unfolding out verdict using False passes by presburger
  qed (simp add: out verdict)
qed

text \<open>An emitter with a key of 32 bytes.\<close>

definition key32_emitter :: Emitter where
  "key32_emitter = NewEmitter (NewSigner sorting_crypto (replicate 32 CHR ''k'')) ''broker-0''"

text \<open>A bound on the length of a rendered value.\<close>

fun weight :: "json \<Rightarrow> nat" where
  "weight JNull = 4"
| "weight (JBool b) = 5"
| "weight (JInt i) = length (int_string i)"
| "weight (JStr s) = 6 * length s + 2"
| "weight (JArr vs) = 2 + sum_list (map (\<lambda>v. weight v + 1) vs)"
| "weight (JObj kvs) = 2 + sum_list (map (\<lambda>(k, v). 6 * length k + 4 + weight v) kvs)"

lemma escape_rune_length: "s \<noteq> [] \<Longrightarrow> length (escape_rune s) \<le> 6 * max 1 (rune_size s)"
  by (auto simp: escape_rune_def Let_def escape_byte_def)

lemma escape_length: "length (escape s) \<le> 6 * length s"
proof (induction s rule: escape.induct)
  case (1 s)
  show ?case
  proof (cases "s = []")
    case False
    have "rune_size s \<le> length s"
      using rune_size_take(2) [of s "rune_size s"] by (cases "rune_size s = 0") auto
    moreover have "1 \<le> length s" using False by (cases s) auto
    ultimately show ?thesis
      using 1 [OF False] escape_rune_length [OF False] False by (subst escape.simps) (simp add: max_def split: if_splits)
  qed (simp add: escape.simps)
qed

lemma quote_length: "length (quote s) \<le> 6 * length s + 2"
  using escape_length [of s] by (simp add: quote_def)

lemma join_length_le: "length (join '','' xs) \<le> sum_list (map (\<lambda>x. length x + 1) xs)"
  by (induction "'',''" xs rule: join.induct) auto

lemma render_length: "length (render j) \<le> weight j"
proof (induction j)
  case (JStr s)
  then show ?case using quote_length [of s] by simp
next
  case (JArr vs)
  have "length (join '','' (map render vs)) \<le> sum_list (map (\<lambda>v. length (render v) + 1) vs)"
    using join_length_le [of "map render vs"] by (simp add: comp_def)
  also have "\<dots> \<le> sum_list (map (\<lambda>v. weight v + 1) vs)"
    using JArr by (intro sum_list_mono) auto
  finally show ?case by simp
next
  case (JObj kvs)
  have "length (join '','' (map member_text kvs)) \<le> sum_list (map (\<lambda>kv. length (member_text kv) + 1) kvs)"
    using join_length_le [of "map member_text kvs"] by (simp add: comp_def)
  also have "\<dots> \<le> sum_list (map (\<lambda>(k, v). 6 * length k + 4 + weight v) kvs)"
  proof (intro sum_list_mono)
    fix kv assume kv: "kv \<in> set kvs"
    obtain k v where e: "kv = (k, v)" by (cases kv)
    have "length (render v) \<le> weight v" using JObj [of kv v] kv e by simp
    then show "length (member_text kv) + 1 \<le> (case kv of (k, v) \<Rightarrow> 6 * length k + 4 + weight v)"
      using quote_length [of k] e by simp
  qed
  finally show ?case by simp
qed auto

lemma b64_length: "length (b64_groups al ''='' s) \<le> 4 * length s"
  by (induction al "''=''" s rule: b64_groups.induct) auto

lemma plain_event_length:
  assumes "ev_Subject ev = None" "ev_Source ev = None" "ev_RequestID ev = []"
  shows "length (marshal ev) \<le> 400 + length (int_string (ev_V ev)) + length (int_string (uint (bi_Seq (ev_Broker ev)))) +
    6 * (length (ev_Kind ev) + length (ev_Type ev) + length (ev_TS ev) + length (bi_Instance (ev_Broker ev)) +
         length (bi_KID (ev_Broker ev)) + length (ev_Sig ev)) + weight (JMap (ev_Attested ev)) + weight (JStrMap (Some (ev_Asserted ev)))"
proof -
  have "length (marshal ev) \<le> weight (event_json ev)" unfolding marshal_def by (rule render_length)
  also have "\<dots> \<le> 400 + length (int_string (ev_V ev)) + length (int_string (uint (bi_Seq (ev_Broker ev)))) +
    6 * (length (ev_Kind ev) + length (ev_Type ev) + length (ev_TS ev) + length (bi_Instance (ev_Broker ev)) +
         length (bi_KID (ev_Broker ev)) + length (ev_Sig ev)) + weight (JMap (ev_Attested ev)) + weight (JStrMap (Some (ev_Asserted ev)))"
    using assms by (simp add: event_json_def omitempty_str_def broker_json_def)
  finally show ?thesis .
qed

lemma uint_string_length: "length (int_string (uint (1 :: 64 word))) = 1" "length (int_string 1) = 1"
  by (simp_all add: int_string_def itoa.simps)

lemma rfc3339_length: "length (format_rfc3339 0) = 20"
  by code_simp

lemma hex_encode_length: "length (hex_encode bs) = 2 * length bs"
  by (induction bs) (simp_all add: hex_encode_def)

lemma sorting_event_length:
  assumes "ev_Subject ev = None" "ev_Source ev = None" "ev_RequestID ev = []"
    "em_signer em = em_signer key32_emitter" "em_instance em = ''broker-0''"
  shows "length (marshal (signed_event sorting_crypto now ev em)) \<le> 1500 + length (int_string (uint (em_seq em + 1))) +
    6 * (length (ev_Type ev) + length (format_rfc3339 now)) + weight (JMap (ev_Attested ev)) + weight (JStrMap (Some (ev_Asserted ev)))"
proof -
  let ?ev = "signed_event sorting_crypto now ev em"
  have kid: "length (sg_kid (em_signer key32_emitter)) = 9"
    by (simp add: key32_emitter_def NewEmitter_def NewSigner_def Let_def hex_encode_length sorting_crypto_def sample_crypto_def)
  have sig: "length (ev_Sig ?ev) \<le> 132"
    using b64_length [of "b64_alphabet ''+/''" "CHR ''s'' # replicate 32 CHR ''k''"] assms(4)
    by (simp add: signed_event_def Let_def b64_std_def sorting_crypto_def key32_emitter_def NewEmitter_def NewSigner_def)
  have envelope: "ev_V ?ev = 1" "ev_Kind ?ev = ''act-claim''" "ev_TS ?ev = format_rfc3339 now"
      "bi_Instance (ev_Broker ?ev) = ''broker-0''" "bi_KID (ev_Broker ?ev) = sg_kid (em_signer key32_emitter)"
    using assms(4,5) by (simp_all add: signed_event_def fill_envelope_def Let_def)
  show ?thesis
    using plain_event_length [of ?ev] assms sig kid envelope uint_string_length(2) by simp
qed

end
