(* ===== verification/Emission_Runs.thy ===== *)
theory Emission_Runs
  imports Stream_Verify Server
begin

text \<open>
  Runs of an emitter, for the two processes that have one: what a run leaves alone, that events stay
  in the stream, and the verdict of the verifier on the stream of a run.
\<close>

section \<open>Runs\<close>

text \<open>\<open>emissions_run cr clock write em em'\<close>: the emitter goes from \<open>em\<close> to \<open>em'\<close> by emissions with the given
  clock and write outcomes.\<close>

definition emission_of :: "(nat \<Rightarrow> time) \<Rightarrow> (nat \<Rightarrow> write_outcome) \<Rightarrow> emission \<Rightarrow> bool" where
  "emission_of clock write i \<longleftrightarrow> (case i of (now, oc, ev) \<Rightarrow> (\<exists>k. now = clock k \<and> oc = write k) \<and> event_small ev)"

definition emissions_run :: "crypto \<Rightarrow> (nat \<Rightarrow> time) \<Rightarrow> (nat \<Rightarrow> write_outcome) \<Rightarrow> Emitter \<Rightarrow> Emitter \<Rightarrow> bool" where
  "emissions_run cr clock write em em' \<longleftrightarrow>
     (\<exists>is. (\<forall>i \<in> set is. emission_of clock write i) \<and> em' = snd (emit_run cr is em))"

lemma log_run_append:
  "log_run f rec (is @ js) s =
     (fst (log_run f rec is s) @ fst (log_run f rec js (snd (log_run f rec is s))), snd (log_run f rec js (snd (log_run f rec is s))))"
  by (induction "is" arbitrary: s) (simp_all add: split_beta Let_def)

lemma run_refl: "emissions_run cr clock write em em"
  unfolding emissions_run_def by (rule exI [of _ "[]"]) simp

lemma run_trans:
  assumes "emissions_run cr clock write em1 em2" "emissions_run cr clock write em2 em3"
  shows "emissions_run cr clock write em1 em3"
proof -
  obtain is1 js where i: "\<forall>i \<in> set is1. emission_of clock write i" "em2 = snd (emit_run cr is1 em1)"
      "\<forall>i \<in> set js. emission_of clock write i" "em3 = snd (emit_run cr js em2)"
    using assms unfolding emissions_run_def by blast
  then have "(\<forall>i \<in> set (is1 @ js). emission_of clock write i) \<and> em3 = snd (emit_run cr (is1 @ js) em1)"
    by (auto simp: log_run_append)
  then show ?thesis unfolding emissions_run_def by blast
qed

lemma run_once:
  "event_small ev \<Longrightarrow> emissions_run cr clock write em (snd (snd (Emit cr (clock k) (write k) ev em)))"
  unfolding emissions_run_def
  by (rule exI [of _ "[(clock k, write k, ev)]"]) (auto simp: emission_of_def emit_commit_def split_beta Let_def)

lemma emit_commit_extends: "\<exists>post. snd (emit_commit cr i em) = em\<lparr>em_out := em_out em @ post, em_seq := em_seq (snd (emit_commit cr i em))\<rparr>"
  by (cases i; cases rule: emit_commit_cases [of cr "fst i" "fst (snd i)" "snd (snd i)" em]) auto

lemma emit_run_extends:
  "\<exists>post. em_out (snd (emit_run cr is em)) = em_out em @ post \<and> em_signer (snd (emit_run cr is em)) = em_signer em"
proof (induction "is" arbitrary: em)
  case (Cons i "is")
  obtain post where p: "snd (emit_commit cr i em) = em\<lparr>em_out := em_out em @ post, em_seq := em_seq (snd (emit_commit cr i em))\<rparr>"
    using emit_commit_extends by blast
  then have "em_out (snd (emit_commit cr i em)) = em_out em @ post" "em_signer (snd (emit_commit cr i em)) = em_signer em"
    by (metis Emitter.simps Emitter.surjective Emitter.update_convs)+
  then show ?case using Cons [of "snd (emit_commit cr i em)"] by (auto simp: split_beta Let_def)
qed simp

lemma run_extends:
  "emissions_run cr clock write em em' \<Longrightarrow> \<exists>post. em_out em' = em_out em @ post \<and> em_signer em' = em_signer em"
  using emit_run_extends unfolding emissions_run_def by blast

section \<open>Events\<close>

text \<open>The events of the broker hold strings, booleans, lists of strings and one 64-bit number.\<close>

lemma sint_small: "\<bar>sint (w :: 64 word)\<bar> < 18446744073709551616"
  using sint_range [of w] by (simp add: min_int64_def max_int64_def abs_less_iff)

lemma event_small_base:
  "event_small (base_event typ rid sub src att ass) \<longleftrightarrow>
     (\<forall>kv \<in> set att. small_ints (snd kv) \<and> nested_within (maxNestingDepth - 2) (snd kv))"
  by (simp add: event_small_def)

lemmas small = event_small_base omitempty_str_def

text \<open>A signed event in the stream.\<close>

definition in_stream :: "crypto \<Rightarrow> Emitter \<Rightarrow> Event \<Rightarrow> bool" where
  "in_stream cr em ev \<longleftrightarrow> (\<exists>pre post. em_out em = pre @ event_line ev @ post) \<and> signed_by cr (em_signer em) ev"

lemma in_stream_mono: "emissions_run cr clock write em em' \<Longrightarrow> in_stream cr em ev \<Longrightarrow> in_stream cr em' ev"
  using run_extends [of cr clock "write" em em'] by (fastforce simp: in_stream_def)

section \<open>Verification\<close>

text \<open>The conditions under which the verdict on a stream is known: the laws of the cryptography, writes
  that succeed or leave nothing behind, a key of 32 bytes, and a number of lines that the sequence
  number can count. Nothing is asked of the length of the lines.\<close>

definition verifiable :: "crypto \<Rightarrow> (string \<Rightarrow> string \<Rightarrow> string \<Rightarrow> bool) \<Rightarrow> (nat \<Rightarrow> write_outcome) \<Rightarrow> Emitter \<Rightarrow> bool" where
  "verifiable cr edv write em \<longleftrightarrow> crypto_laws cr edv \<and> (\<forall>k. write k \<in> {Written, Failed 0}) \<and>
     length (sg_pub (em_signer em)) = 32 \<and> length (Split (em_out em) (CHR 0x0A)) \<le> 2 ^ 64"

text \<open>The verdict of \<open>acb-verify\<close> on a stream of \<open>n\<close> valid events.\<close>

definition passed :: "nat \<Rightarrow> verdict" where
  "passed n = \<lparr>vd_out = [], vd_summary = Some \<lparr>su_events = n, su_valid = n, su_invalid = 0, su_gaps = 0, su_dups = 0,
     su_instances = (if n = 0 then 0 else 1)\<rparr>, vd_usage = None, vd_exit = 0\<rparr>"

text \<open>Whether every line of a stream fits the verifier's buffer.\<close>

definition lines_fit :: "string \<Rightarrow> bool" where
  "lines_fit out \<longleftrightarrow> (\<forall>line \<in> set (Split out (CHR 0x0A)). length line < maxTokenSize)"

lemma run_verifies:
  assumes "emissions_run cr clock write (SetCounter (NewEmitter sg inst)) em" "verifiable cr edv write em"
    and "sg_pub sg = cr_public cr (sg_priv sg)"
  shows "acb_verify edv (cr_jcs cr) (PublicBase64 sg) [Inr \<lparr>rd_bytes = em_out em, rd_error = False\<rparr>] =
    (if lines_fit (em_out em) then passed (unat (em_seq em)) else usage ReadError [])"
proof -
  let ?em = "SetCounter (NewEmitter sg inst)"
  obtain is1 where is1: "\<forall>i \<in> set is1. emission_of clock write i" "em = snd (emit_run cr is1 ?em)"
    using assms(1) by (auto simp: emissions_run_def)
  define evs where "evs = fst (emit_run cr is1 ?em)"
  have em: "em_out ?em = []" "em_signer ?em = sg" "em_seq ?em = 0" by (simp_all add: SetCounter_def NewEmitter_def)
  have signer: "em_signer em = sg" using run_extends [OF assms(1)] em(2) by auto
  note v = assms(2) [unfolded verifiable_def signer]
  have run: "\<forall>(now, oc, ev) \<in> set is1. oc \<in> {Written, Failed 0} \<and> event_small ev"
    using is1(1) v by (fastforce simp: emission_of_def)
  then have "\<forall>(now, oc, ev) \<in> set is1. oc \<in> {Written, Failed 0}" by fastforce
  then have lines: "Split (em_out em) (CHR 0x0A) = map marshal evs @ [[]]"
    using emit_run_out [of is1 cr ?em] em(1) Split_event_lines [of evs] is1(2) by (simp add: evs_def)
  then have fit: "(\<exists>ev \<in> set evs. maxTokenSize \<le> length (marshal ev)) \<longleftrightarrow> \<not> lines_fit (em_out em)"
    by (auto simp: lines_fit_def maxTokenSize_def not_less)
  have "acb_verify edv (cr_jcs cr) (PublicBase64 (em_signer ?em))
      [Inr \<lparr>rd_bytes = em_out (snd (emit_run cr is1 ?em)), rd_error = False\<rparr>] =
    (if \<not> lines_fit (em_out em) then usage ReadError []
     else \<lparr>vd_out = [], vd_summary = Some \<lparr>su_events = length evs, su_valid = length evs, su_invalid = 0, su_gaps = 0, su_dups = 0,
       su_instances = (if evs = [] then 0 else 1)\<rparr>, vd_usage = None, vd_exit = 0\<rparr>)"
    using emitted_stream_verifies [OF _ run em(1) _ _ evs_def] v em(2,3) lines assms(3) unfolding fit by simp
  moreover have "em_seq em = of_nat (length evs)" using stream.gapless [of cr is1 ?em] em(3) is1(2) by (simp add: evs_def)
  then have "unat (em_seq em) = length evs" using v lines by (simp add: unat_of_nat)
  ultimately show ?thesis using is1(2) em(2) by (simp add: passed_def)
qed

section \<open>A stream of one line\<close>

text \<open>The first line of a process with a key of 32 bytes, for the statements about verification.\<close>

abbreviation key32 :: string where "key32 \<equiv> replicate 32 CHR ''k''"

lemma key32_lengths:
  "length (sg_kid (NewSigner sorting_crypto key32)) = 9" "length (PublicBase64 (NewSigner sorting_crypto key32)) \<le> 128"
  using b64_length [of "b64_alphabet ''+/''" key32]
  by (simp_all add: PublicBase64_def NewSigner_def Let_def hex_encode_length b64_std_def sorting_crypto_def sample_crypto_def)

lemma Emit_written:
  assumes "cr_jcs cr (marshal (fill_envelope now ev em)) = Inr c"
  shows "snd (snd (Emit cr now Written ev em)) =
    em\<lparr>em_out := em_out em @ event_line (signed_event cr now ev em), em_seq := em_seq em + 1\<rparr>"
  using assms by (simp add: Emit_def Let_def signed_event_def event_line_def)

lemma first_line_verifiable:
  assumes "em = snd (snd (Emit sorting_crypto 0 Written ev (SetCounter (NewEmitter (NewSigner sorting_crypto key32) ''broker-0''))))"
    and "ev_Subject ev = None" "ev_Source ev = None" "ev_RequestID ev = []" "\<forall>k. write k \<in> {Written, Failed 0}"
    and "6 * length (ev_Type ev) + weight (JMap (ev_Attested ev)) + weight (JStrMap (Some (ev_Asserted ev))) \<le> 10000"
  shows "verifiable sorting_crypto prefix_verify write em" "lines_fit (em_out em)" "em_seq em = 1"
proof -
  let ?em = "SetCounter (NewEmitter (NewSigner sorting_crypto key32) ''broker-0'')"
  let ?ev = "signed_event sorting_crypto 0 ev ?em"
  have "cr_jcs sorting_crypto x = Inr (sort x)" for x by (simp add: sorting_crypto_def)
  then have em: "em = ?em\<lparr>em_out := em_out ?em @ event_line ?ev, em_seq := em_seq ?em + 1\<rparr>"
    unfolding assms(1) by (rule Emit_written)
  show "em_seq em = 1" unfolding em by (simp add: SetCounter_def NewEmitter_def)
  have "length (marshal ?ev) \<le> 1500 + length (int_string (uint (em_seq ?em + 1))) + 6 * (length (ev_Type ev) + length (format_rfc3339 0)) +
      weight (JMap (ev_Attested ev)) + weight (JStrMap (Some (ev_Asserted ev)))"
    using assms(2-4) by (intro sorting_event_length) (simp_all add: SetCounter_def NewEmitter_def key32_emitter_def)
  also have "\<dots> < maxTokenSize"
    using assms(6) by (simp add: SetCounter_def NewEmitter_def uint_string_length rfc3339_length maxTokenSize_def)
  finally have fits: "length (marshal ?ev) < maxTokenSize" .
  have "em_out em = concat (map event_line [?ev])" unfolding em by (simp add: SetCounter_def NewEmitter_def)
  then have lines: "Split (em_out em) (CHR 0x0A) = [marshal ?ev, []]" using Split_event_lines [of "[?ev]"] by simp
  show "lines_fit (em_out em)" unfolding lines_fit_def lines using fits by (simp add: maxTokenSize_def)
  have "em_signer em = NewSigner sorting_crypto key32" unfolding em by (simp add: SetCounter_def NewEmitter_def)
  then show "verifiable sorting_crypto prefix_verify write em"
    using sorting_crypto_laws assms(5) lines
    by (simp add: verifiable_def NewSigner_def Let_def) (simp add: sorting_crypto_def sample_crypto_def)
qed

end
