(* ===== verification/Broker_Stream.thy ===== *)
theory Broker_Stream
  imports Broker_Main Emission_Runs
begin

text \<open>
  What the steps of the broker do to its audit stream: whatever a request, a sweep or a policy tick
  does, the emitter moves by emissions of events that the verifier can read back, under the same
  signer, and only a policy tick touches the policy.
\<close>

section \<open>What the steps add to the stream\<close>

abbreviation stream_run :: "env \<Rightarrow> Emitter \<Rightarrow> Emitter \<Rightarrow> bool" where
  "stream_run e \<equiv> emissions_run (en_crypto e) (en_clock e) (en_write e)"

text \<open>A step that serves: it emits, and leaves policy, signer and configuration alone.\<close>

definition streams :: "env \<Rightarrow> server \<Rightarrow> server \<Rightarrow> bool" where
  "streams e s s' \<longleftrightarrow> stream_run e (sv_emitter s) (sv_emitter s') \<and>
     sv_policies s' = sv_policies s \<and> sv_signer s' = sv_signer s \<and> sv_cfg s' = sv_cfg s"

lemma streams_refl [intro!]: "streams e s s"
  by (simp add: streams_def run_refl)

lemma streams_trans: "streams e s1 s2 \<Longrightarrow> streams e s2 s3 \<Longrightarrow> streams e s1 s3"
  by (auto simp: streams_def intro: run_trans)

lemma streams_quiet [intro!]:
  "streams e s s1 \<Longrightarrow> streams e s (tick s1)" "streams e s s1 \<Longrightarrow> streams e s (metric_inc e1 n ls s1)"
  "streams e s s1 \<Longrightarrow> streams e s (metric_add e1 n ls v s1)" "streams e s s1 \<Longrightarrow> streams e s (snd (allow_lease e1 k s1))"
  "streams e s s1 \<Longrightarrow> streams e s (snd (allow_claim e1 k s1))" "streams e s s1 \<Longrightarrow> streams e s (snd (allow_rlAudit e1 k s1))"
  "streams e s s1 \<Longrightarrow> streams e s (snd (allow_authFail e1 k s1))" "streams e s s1 \<Longrightarrow> streams e s (s1\<lparr>sv_leases := t\<rparr>)"
  "streams e s s1 \<Longrightarrow> streams e s (s1\<lparr>sv_claimBudget := b\<rparr>)" "streams e s s1 \<Longrightarrow> streams e s (s1\<lparr>sv_metrics := m\<rparr>)"
  "streams e s s1 \<Longrightarrow> streams e s (s1\<lparr>sv_providers := ps\<rparr>)"
  by (simp_all add: streams_def tick_def metric_inc_def metric_add_def allow_lease_def allow_claim_def allow_rlAudit_def
      allow_authFail_def split_beta Let_def)

lemma streams_emit [intro!]:
  assumes "streams e s s1" "event_small ev"
  shows "streams e s (snd (emit e ev s1))"
proof -
  have "stream_run e (sv_emitter s1) (sv_emitter (snd (emit e ev s1)))"
    using run_once [OF assms(2), of "en_crypto e" "en_clock e" "en_write e" "sv_emitter s1" "sv_tick s1"]
    by (simp add: emit_def now_of_def split_beta Let_def fold_hooks_frame)
  with assms(1) show ?thesis unfolding streams_def by (auto intro: run_trans)
qed

lemma issued_small [intro!]: "event_small (base_event typ rid sub src (issued_attested l ttl up pol) ass)"
  by (simp add: small issued_attested_def sint_small)

lemma renewed_small [intro!]: "event_small (base_event typ rid sub src (renewed_attested l pol) ass)"
  by (simp add: small renewed_attested_def)

lemma expired_event_small [intro!]: "event_small (expired_event h l)"
  by (simp add: expired_event_def split_beta small)

lemma claim_event_small [intro!]: "event_small (claim_event rc lid c cid)"
  by (simp add: claim_event_def small)

lemma strings_json_small: "small_ints (strings_json l)" "nested_within (maxNestingDepth - 2) (strings_json l)"
  by (auto simp: strings_json_def maxNestingDepth_def)

lemma reload_audit_small [intro!]: "event_small (reload_audit errText ev)"
  by (cases ev) (simp_all add: split_beta Let_def small strings_json_small)

lemma started_event_small [intro!]: "event_small (started_event s)"
  by (simp add: started_event_def small)

lemma rateLimited_streams [intro!]: "streams e s s1 \<Longrightarrow> streams e s (snd (rateLimited e sub src rid ep title s1))"
  by (auto simp: rateLimited_def split_beta Let_def small)

lemma recordAuthFailure_streams [intro!]: "streams e s s1 \<Longrightarrow> streams e s (recordAuthFailure e rid src why s1)"
  by (auto simp: recordAuthFailure_def split_beta Let_def small)

lemma deny_streams [intro!]: "streams e s s1 \<Longrightarrow> streams e s (snd (deny e rc pol scope req st pt ti why s1))"
  by (auto simp: deny_def split_beta Let_def small split: option.split)

lemma auditFailClosed_streams [intro!]: "streams e s s1 \<Longrightarrow> streams e s (snd (auditFailClosed e rid s1))"
  by (auto simp: auditFailClosed_def)

lemma issue_record_streams [intro!]: "streams e s s1 \<Longrightarrow> streams e s (snd (issue_record e rc pol req r up ttl l s1))"
  by (auto simp: issue_record_def split_beta Let_def split: option.split)

lemma create_issue_streams [intro!]: "streams e s s1 \<Longrightarrow> streams e s (snd (create_issue e rc pol req g prov ttl r s1))"
  by (auto simp: create_issue_def split_beta Let_def)

lemma create_fetch_streams [intro!]: "streams e s s1 \<Longrightarrow> streams e s (snd (create_fetch e rc pol sc req g ttl s1))"
  by (auto simp: create_fetch_def split_beta Let_def split: option.split sum.split)

lemma handleLeaseCreate_streams: "streams e s (snd (handleLeaseCreate e rc body s))"
  by (auto simp: handleLeaseCreate_def split_beta Let_def split: decoded.split option.split bool.split)

lemma renew_apply_streams [intro!]: "streams e s s1 \<Longrightarrow> streams e s (snd (renew_apply e rc lid pol ttl s1))"
  by (auto simp: renew_apply_def split_beta Let_def split: option.split list.split prod.split)

lemma handleLeaseRenew_streams: "streams e s (snd (handleLeaseRenew e rc lid body s))"
  by (auto simp: handleLeaseRenew_def split_beta Let_def split: option.split bool.split)

lemma handleLeaseSurrender_streams: "streams e s (snd (handleLeaseSurrender e rc lid s))"
  by (auto simp: handleLeaseSurrender_def split_beta Let_def small split: option.split)

lemma claims_emit_streams: "streams e s s1 \<Longrightarrow> streams e s (snd (claims_emit e rc lid cs ids s1))"
proof (induction cs arbitrary: ids s1)
  case (Cons c cs)
  let ?s = "snd (emit e (claim_event rc lid c (NewID ''claim'' (en_rand e (sv_tick s1) 13))) (tick s1))"
  have "streams e s ?s" using Cons.prems by blast
  then show ?case using Cons.IH by (simp add: split_beta Let_def split: option.split)
qed simp

lemma handleClaims_streams: "streams e s (snd (handleClaims e rc body s))"
  by (auto simp: handleClaims_def split_beta Let_def intro!: claims_emit_streams split: decoded.split option.split)

lemma mux_streams: "streams e s (snd (mux e rt rc s))"
  by (cases rt) (auto simp: handleLeaseCreate_streams handleLeaseRenew_streams handleLeaseSurrender_streams handleClaims_streams
      handleLeaseGet_def handleWhoami_def split: option.split)

lemma Handler_streams: "streams e s (snd (Handler e r rt s))"
proof -
  have "streams e s (snd (mux e rt rc (tick (tick s))))" for rc
    using streams_trans [OF _ mux_streams] by blast
  then show ?thesis
    by (auto simp: Handler_def withRequestID_def withAuth_def split_beta Let_def split: sum.split)
qed

lemma fold_emit_streams: "(\<And>x. event_small (f x)) \<Longrightarrow> streams e s s1 \<Longrightarrow> streams e s (fold (\<lambda>x s. snd (emit e (f x) s)) xs s1)"
proof (induction xs arbitrary: s1)
  case (Cons x xs)
  have "streams e s (snd (emit e (f x) s1))" by (rule streams_emit [OF Cons.prems(2,1)])
  then show ?case using Cons.IH [OF Cons.prems(1)] by simp
qed simp

lemma SweepExpiredLeases_streams: "streams e s (SweepExpiredLeases e retain order s)"
  unfolding SweepExpiredLeases_def split_beta Let_def by (rule fold_emit_streams) blast+

lemma update_expiry_streams: "streams e s (update_expiry ho e readFile s)"
  by (auto simp: update_expiry_def split: sum.split)

lemma broker_ready_streams: "streams e s (snd (broker_ready up n1 n2 s))"
  by (auto simp: broker_ready_def split_beta Let_def)

lemma policy_tick_streams:
  "streams e (s\<lparr>sv_policies := snd (reloadIfChanged (ho_loader ho) readFile (sv_policies s))\<rparr>) (policy_tick ho e readFile s)"
  unfolding policy_tick_def split_beta Let_def by (rule fold_emit_streams) blast+

lemma policy_tick_policies: "sv_policies (policy_tick ho e readFile s) = snd (reloadIfChanged (ho_loader ho) readFile (sv_policies s))"
  using policy_tick_streams [where e = e and s = s and ho = ho and readFile = readFile] by (simp add: streams_def)

end
