(* ===== verification/Broker_Start.thy ===== *)
theory Broker_Start
  imports Broker_Main
begin

text \<open>
  What the command \<open>broker\<close> guarantees by itself: what holds of a broker that has started, that a
  change of policy is recorded with its exact difference, and that the expiry it reads from a
  token is the one in it.
\<close>

section \<open>Starting\<close>

definition initial_server :: "host \<Rightarrow> Signer \<Rightarrow> PolicyStore \<Rightarrow> server" where
  "initial_server ho signer policies =
     New_Server zero_config policies (broker_providers ho (ho_getenv ho ''ACB_CONNECT_URL'')) NewStore
       (SetCounter (NewEmitter signer (instance_name ho))) signer NewMetrics"

abbreviation signer_of :: "host \<Rightarrow> env \<Rightarrow> start_error + Signer" where
  "signer_of ho e \<equiv> loadSigner ho (en_crypto e)
     (getenv_or ho ''ACB_SIGNING_KEY_FILE'' ''/etc/agent-cred-broker/keys/signing.pem'') (devInsecure ho)"

abbreviation policies_of :: "host \<Rightarrow> policy_error + PolicyStore" where
  "policies_of ho \<equiv> NewPolicyStore (ho_loader ho) (ho_readFile ho)
     (getenv_or ho ''ACB_POLICY_FILE'' ''/etc/agent-cred-broker/policy.yaml'') (10 * Second)"

abbreviation reviewer_of :: "host \<Rightarrow> AuthnConfig \<Rightarrow> authn_error + Reviewer" where
  "reviewer_of ho \<equiv> New_Reviewer (ho_readFile ho) (ho_certs ho)"

lemma broker_run_Inr:
  "broker_run ho e = (out, Inr b) \<longleftrightarrow>
     (\<exists>signer policies cfg. signer_of ho e = Inr signer \<and> policies_of ho = Inr policies \<and>
        ho_getenv ho ''ACB_CONNECT_URL'' \<noteq> [] \<and> reviewer_config ho = Inr cfg \<and>
        reviewer_of ho cfg = Inr (bk_reviewer b) \<and> choose_listener ho = Inr (bk_listener b) \<and>
        bk_server b = snd (emit e (started_event (initial_server ho signer policies)) (initial_server ho signer policies)) \<and>
        out = em_out (sv_emitter (bk_server b)))"
  by (cases b) (auto simp: broker_run_def broker_setup_def initial_server_def Let_def split: sum.splits if_splits)

lemma initial_server_simps [simp]:
  "sv_policies (initial_server ho signer policies) = policies" "sv_signer (initial_server ho signer policies) = signer"
  "sv_leases (initial_server ho signer policies) = Map.empty"
  "sv_emitter (initial_server ho signer policies) = SetCounter (NewEmitter signer (instance_name ho))"
  by (simp_all add: initial_server_def New_Server_def Let_def NewStore_def)

lemma New_Reviewer_audience: "New_Reviewer readFile certs cfg = Inr rv \<Longrightarrow> rv_audience rv = ac_Audience cfg"
  by (auto simp: New_Reviewer_def Let_def split: if_splits sum.splits)

lemma loadSigner_pub: "loadSigner ho cr path dev = Inr sg \<Longrightarrow> sg_pub sg = cr_public cr (sg_priv sg)"
  by (auto simp: loadSigner_def ParseSignerPEM_def NewSigner_def Let_def split: sum.splits if_splits option.splits pkcs8.splits)

lemma NewPolicyStore_ok: "NewPolicyStore ld fs path i = Inr st \<Longrightarrow> policy_ok (Current st)"
  by (auto simp: NewPolicyStore_def load_def Current_def split: sum.splits dest: Parse_ok)

text \<open>C20: a broker that has started is a secure one. When \<open>run\<close> gets as far as serving, the active policy
  is the parsed contents of the policy file and no lease is held; and unless \<open>ACB_DEV_INSECURE\<close> is
  1, its signing key comes from the key file and it listens with TLS, with a certificate and a
  key that load from the two configured files. So outside development there is no plaintext
  listener and no key that vanishes with the process.\<close>

theorem startup_secure:
  assumes "broker_run ho e = (out, Inr b)"
  shows "(\<exists>raw. ho_readFile ho (getenv_or ho ''ACB_POLICY_FILE'' ''/etc/agent-cred-broker/policy.yaml'') = Inr raw \<and>
       load (ho_loader ho) raw = Inr (Current (sv_policies (bk_server b)))) \<and>
    sv_leases (bk_server b) = Map.empty \<and>
    (ho_getenv ho ''ACB_DEV_INSECURE'' = ''1'' \<or>
     (\<exists>raw. ho_readFile ho (getenv_or ho ''ACB_SIGNING_KEY_FILE'' ''/etc/agent-cred-broker/keys/signing.pem'') = Inr raw \<and>
        ParseSignerPEM (en_crypto e) (ho_pem ho) (ho_pkcs8 ho) raw = Inr (sv_signer (bk_server b))) \<and>
     (\<exists>r cert. bk_listener b = ListenTLS r \<and> tl_cert r = Some cert \<and>
        dk_load (ho_tls ho) (ho_getenv ho ''ACB_TLS_CERT_FILE'') (ho_getenv ho ''ACB_TLS_KEY_FILE'') = Inr cert))"
proof -
  obtain signer policies where b: "signer_of ho e = Inr signer" "policies_of ho = Inr policies" "choose_listener ho = Inr (bk_listener b)"
      "bk_server b = snd (emit e (started_event (initial_server ho signer policies)) (initial_server ho signer policies))"
    using assms unfolding broker_run_Inr by blast
  have "\<exists>raw. ho_readFile ho (getenv_or ho ''ACB_POLICY_FILE'' ''/etc/agent-cred-broker/policy.yaml'') = Inr raw \<and>
      load (ho_loader ho) raw = Inr (Current policies)"
    using b(2) by (auto simp: NewPolicyStore_def Current_def split: sum.splits)
  moreover have "\<exists>raw. ho_readFile ho (getenv_or ho ''ACB_SIGNING_KEY_FILE'' ''/etc/agent-cred-broker/keys/signing.pem'') = Inr raw \<and>
      ParseSignerPEM (en_crypto e) (ho_pem ho) (ho_pkcs8 ho) raw = Inr signer" if "\<not> devInsecure ho"
    using b(1) that by (auto simp: loadSigner_def split: sum.splits)
  moreover have "\<exists>r cert. bk_listener b = ListenTLS r \<and> tl_cert r = Some cert \<and>
      dk_load (ho_tls ho) (ho_getenv ho ''ACB_TLS_CERT_FILE'') (ho_getenv ho ''ACB_TLS_KEY_FILE'') = Inr cert" if secure: "\<not> devInsecure ho"
  proof -
    obtain r where r: "Reloader_Config (ho_tls ho) (new_reloader (ho_getenv ho ''ACB_TLS_CERT_FILE'') (ho_getenv ho ''ACB_TLS_KEY_FILE'')) = Inr r"
        "bk_listener b = ListenTLS r"
      using b(3) secure by (auto simp: choose_listener_def Let_def split: if_splits sum.splits)
    then show ?thesis by (auto elim: Config_loaded)
  qed
  ultimately show ?thesis using b(4) by (auto simp: devInsecure_def)
qed

text \<open>A host in production mode whose reviewer is the playground, with the key, the policy and the
  certificates in place, and the broker it starts.\<close>

definition sample_host :: "string \<Rightarrow> host" where
  "sample_host key = \<lparr>ho_getenv = (\<lambda>k. case map_of [(''ACB_CONNECT_URL'', ''https://connect/''), (''ACB_KUBE_API'', ''http://pg''),
       (''ACB_AUDIENCE'', ''acb''), (''ACB_KUBE_TOKEN_FILE'', ''token''), (''ACB_TLS_CERT_FILE'', ''c''), (''ACB_TLS_KEY_FILE'', ''k'')] k of
         None \<Rightarrow> [] | Some v \<Rightarrow> v),
     ho_readFile = (\<lambda>_. Inr ''raw''), ho_isNotExist = (\<lambda>_. False), ho_hostname = Inr ''broker-0'', ho_genKey = Inl ''none'',
     ho_pem = Some, ho_pkcs8 = (\<lambda>_. PKCS8_ed25519 key), ho_rsa1 = (\<lambda>_. None), ho_rsa8 = (\<lambda>_. RSA8_error),
     ho_certs = (\<lambda>_. True), ho_loader = sample_loader, ho_errText = (\<lambda>_. ''error''), ho_tls = sample_disk 3 ''old''\<rparr>"

definition started_policies :: PolicyStore where
  "started_policies = sample_store\<lparr>ps_path := ''/etc/agent-cred-broker/policy.yaml'', ps_interval := 10 * Second\<rparr>"

definition sample_broker :: "string \<Rightarrow> env \<Rightarrow> broker" where
  "sample_broker key e =
     (let s0 = initial_server (sample_host key) (NewSigner (en_crypto e) key) started_policies
      in \<lparr>bk_server = snd (emit e (started_event s0) s0), bk_reviewer = playground_reviewer ''http://pg'' ''acb'',
          bk_listener = ListenTLS \<lparr>tl_CertFile = ''c'', tl_KeyFile = ''k'', tl_cert = Some ''old'', tl_mod = 3\<rparr>\<rparr>)"

lemma sample_env_vars:
  "ho_getenv (sample_host key) ''ACB_CONNECT_URL'' = ''https://connect/''" "ho_getenv (sample_host key) ''ACB_KUBE_API'' = ''http://pg''"
  "ho_getenv (sample_host key) ''ACB_DEV_INSECURE'' = []" "ho_getenv (sample_host key) ''ACB_GITHUB_APP_ID'' = []"
  "ho_getenv (sample_host key) ''ACB_KUBE_CA_FILE'' = []" "ho_getenv (sample_host key) ''ACB_TLS_CERT_FILE'' = ''c''"
  "ho_getenv (sample_host key) ''ACB_TLS_KEY_FILE'' = ''k''"
  "getenv_or (sample_host key) ''ACB_POLICY_FILE'' d = d" "getenv_or (sample_host key) ''ACB_SIGNING_KEY_FILE'' d = d"
  "getenv_or (sample_host key) ''ACB_AUDIENCE'' d = ''acb''" "getenv_or (sample_host key) ''ACB_KUBE_TOKEN_FILE'' d = ''token''"
  by (simp_all add: sample_host_def getenv_or_def)

lemma sample_started: "broker_run (sample_host key) e = (em_out (sv_emitter (bk_server (sample_broker key e))), Inr (sample_broker key e))"
proof -
  have "policies_of (sample_host key) = Inr started_policies"
    using sample_load(1) by (simp add: sample_env_vars NewPolicyStore_def started_policies_def)
      (simp add: sample_host_def sample_store_def sample_loader_def)
  moreover have "signer_of (sample_host key) e = Inr (NewSigner (en_crypto e) key)"
    by (simp add: sample_env_vars loadSigner_def) (simp add: sample_host_def ParseSignerPEM_def)
  moreover have "choose_listener (sample_host key) = Inr (bk_listener (sample_broker key e))"
    using sample_config
    by (simp add: choose_listener_def sample_env_vars sample_broker_def Let_def) (simp add: sample_host_def)
  ultimately show ?thesis
    unfolding broker_run_Inr
    by (simp add: sample_env_vars reviewer_config_def New_Reviewer_def Let_def sample_broker_def playground_reviewer_def TrimRight_def)
qed

theorem startup_secure_witness:
  "\<exists>r. bk_listener (sample_broker ''key'' (sample_env Written)) = ListenTLS r \<and> tl_cert r = Some ''old''"
  using startup_secure [OF sample_started, of "''key''" "sample_env Written"]
  by (auto simp: sample_env_vars) (simp add: sample_host_def sample_disk_def)

section \<open>Policy reloads\<close>

lemma diffSorted_eq: "diffSorted old next = (filter (\<lambda>v. v \<notin> set old) next, filter (\<lambda>v. v \<notin> set next) old)"
proof -
  have "fold (\<lambda>v acc. if P v then acc @ [v] else acc) xs ys = ys @ filter P xs" for P and xs ys :: "string list"
    by (induction xs arbitrary: ys) simp_all
  then show ?thesis by (simp add: diffSorted_def List.member_iff)
qed

lemma emit_writes:
  assumes "en_write e (sv_tick s) = Written" "\<forall>x. \<not> isl (cr_jcs (en_crypto e) x)"
  shows "fst (emit e ev s) = None"
proof -
  have "\<not> isl (cr_jcs (en_crypto e) (marshal (fill_envelope (now_of e s) ev (sv_emitter s))))" using assms(2) by blast
  then show ?thesis using assms(1) by (auto simp: emit_def Emit_def split_beta Let_def isl_def split: sum.splits)
qed

lemma reload_changes:
  "reloadIfChanged ld readFile st = (evs, st') \<Longrightarrow> Current st' \<noteq> Current st \<Longrightarrow> evs = [OnReload (Current st) (Current st')]"
  by (auto simp: reloadIfChanged_def Let_def Current_def split: sum.splits if_splits)

text \<open>C19: a change of policy is recorded with its exact difference. While the writer and the
  canonicalizer work, a tick that makes another policy the active one adds one signed
  \<open>policy.reloaded\<close> event to the stream. It names both policies by their hashes, and lists exactly
  the subjects and the scopes that only one of them has, in order, \<open>null\<close> standing for none.\<close>

theorem policy_change_recorded:
  fixes ho :: host and e :: env and s :: server and readFile :: "string \<Rightarrow> string + string"
  defines "s' \<equiv> policy_tick ho e readFile s"
  defines "old \<equiv> Current (sv_policies s)" and "new \<equiv> Current (sv_policies s')"
  assumes "\<forall>k. en_write e k = Written" "\<forall>x. \<not> isl (cr_jcs (en_crypto e) x)" "new \<noteq> old"
  shows "\<exists>ev. sv_emitter s' = sv_emitter s\<lparr>em_out := em_out (sv_emitter s) @ event_line ev, em_seq := em_seq (sv_emitter s) + 1\<rparr> \<and>
    signed_by (en_crypto e) (em_signer (sv_emitter s)) ev \<and> ev_Type ev = ''policy.reloaded'' \<and>
    ev_Attested ev =
      [(''old_policy_hash'', JStr (p_Hash old)), (''new_policy_hash'', JStr (p_Hash new)),
       (''subjects_added'', strings_json [k \<leftarrow> SubjectKeys new. k \<notin> set (SubjectKeys old)]),
       (''subjects_removed'', strings_json [k \<leftarrow> SubjectKeys old. k \<notin> set (SubjectKeys new)]),
       (''scopes_added'', strings_json [k \<leftarrow> ScopeNames new. k \<notin> set (ScopeNames old)]),
       (''scopes_removed'', strings_json [k \<leftarrow> ScopeNames old. k \<notin> set (ScopeNames new)])]"
proof -
  obtain evs st where r: "reloadIfChanged (ho_loader ho) readFile (sv_policies s) = (evs, st)"
    by (cases "reloadIfChanged (ho_loader ho) readFile (sv_policies s)")
  have tick: "s' = fold (\<lambda>ev s. snd (emit e (reload_audit (ho_errText ho) ev) s)) evs (s\<lparr>sv_policies := st\<rparr>)"
    by (simp add: s'_def policy_tick_def r)
  have pol: "sv_policies s' = st"
  proof -
    have "sv_policies (fold (\<lambda>ev s. snd (emit e (f ev) s)) evs t) = sv_policies t" for f :: "reload_event \<Rightarrow> Event" and evs t
      by (induction evs arbitrary: t) simp_all
    then show ?thesis by (simp add: tick)
  qed
  then have evs: "evs = [OnReload old new]" using reload_changes [OF r] assms(6) by (simp add: new_def old_def)
  let ?t = "s\<lparr>sv_policies := st\<rparr>"
  let ?ev = "reload_audit (ho_errText ho) (OnReload old new)"
  have s': "s' = snd (emit e ?ev ?t)" using tick evs by simp
  show ?thesis
  proof (cases rule: emit_cases [of e ?ev ?t])
    case ok
    then show ?thesis
      unfolding s' by (intro exI [of _ "emitted e ?ev ?t"]) (simp add: split_beta Let_def diffSorted_eq)
  next
    case (failed n err)
    then show ?thesis using emit_writes [of e ?t ?ev] assms(4,5) by simp
  qed
qed

section \<open>The expiry of a token\<close>

lemma b64_rawurl_no_dot: "CHR ''.'' \<notin> set (b64_rawurl s)"
proof -
  have al: "n < 64 \<Longrightarrow> b64_alphabet ''-_'' n \<noteq> CHR ''.''" for n
    using b64_value_alphabet [of "''-_''" n] by (auto simp: b64_value_def in_range_def alphabet_ok_def)
  have "CHR ''.'' \<notin> set (b64_groups (b64_alphabet ''-_'') [] s)"
    by (induction "b64_alphabet ''-_''" "[] :: string" s rule: b64_groups.induct)
      (use al digit_bounds in \<open>auto dest: sym\<close>)
  then show ?thesis by (simp add: b64_rawurl_def)
qed

lemma exp_ignored:
  "\<forall>kv \<in> set ms. \<not> is_field ''exp'' (fst kv) \<Longrightarrow> each_member exp_field ms x = Some x"
  by (induction ms) (auto simp: exp_field_def)

text \<open>The expiry that is read is the expiry in the token. For a JWT, three parts joined by dots, whose
  payload is the encoding of an object with one \<open>exp\<close> member, a non-zero number of 64 bits, the
  function returns that number, whatever the other members are and whatever the signature.\<close>

theorem connectTokenExpiry_reads:
  assumes "CHR ''.'' \<notin> set header" "CHR ''.'' \<notin> set signature"
    and "nested_within maxNestingDepth (JObj (before @ (''exp'', JInt x) # after))"
    and "\<forall>kv \<in> set (before @ after). \<not> is_field ''exp'' (valid_utf8 (fst kv))"
    and "- (2 ^ 63) \<le> x" "x < 2 ^ 63" "x \<noteq> 0"
  shows "connectTokenExpiry (header @ ''.'' @ b64_rawurl (render (JObj (before @ (''exp'', JInt x) # after))) @ ''.'' @ signature) = Inr x"
proof -
  let ?j = "JObj (before @ (''exp'', JInt x) # after)"
  have parts: "Split (header @ ''.'' @ b64_rawurl (render ?j) @ ''.'' @ signature) CHR ''.'' = [header, b64_rawurl (render ?j), signature]"
    using assms(1,2) b64_rawurl_no_dot [of "render ?j"] by (simp add: Split_append_sep Split_no_sep)
  have exp: "is_field ''exp'' (valid_utf8 ''exp'')" by (simp add: valid_utf8_ascii ascii_def is_field_code)
  have "to_struct exp_field (val_of ?j) 0 = Some x"
    using assms(4-6) exp
    by (simp add: to_struct_def each_member_append exp_ignored split_beta to_int_int_string exp_field_def)
  then show ?thesis
    using parse_render [OF assms(3)] assms(7) by (simp add: connectTokenExpiry_def parts b64_rawurl_roundtrip del: render.simps val_of.simps append.simps)
qed

text \<open>The policy file is emptied: the tick records the subject and the scope that are gone.\<close>

definition emptied_loader :: loader where
  "emptied_loader = sample_loader\<lparr>ld_yaml := (\<lambda>um raw. Inr \<lparr>d_Scopes = [], d_Subjects = []\<rparr>)\<rparr>"

lemma emptied_policy:
  "Current (sv_policies (policy_tick (sample_host ''key''\<lparr>ho_loader := emptied_loader\<rparr>) (sample_env Written) (\<lambda>_. Inr ''none'') sample_server)) =
     compile_policy (\<lambda>_. Inr hourly) (\<lambda>raw. raw) ''none'' \<lparr>d_Scopes = [], d_Subjects = []\<rparr>"
proof -
  have "load emptied_loader ''none'' = Inr (compile_policy (\<lambda>_. Inr hourly) (\<lambda>raw. raw) ''none'' \<lparr>d_Scopes = [], d_Subjects = []\<rparr>)"
    by (simp add: load_def Parse_Inr emptied_loader_def sample_loader_def doc_valid_def)
  then show ?thesis
    by (simp add: policy_tick_def reloadIfChanged_def sample_host_def)
      (simp add: emptied_loader_def sample_loader_def sample_store_def Current_def Let_def)
qed

theorem policy_change_recorded_witness:
  "\<exists>ev. em_out (sv_emitter (policy_tick (sample_host ''key''\<lparr>ho_loader := emptied_loader\<rparr>) (sample_env Written) (\<lambda>_. Inr ''none'') sample_server)) =
       em_out (sv_emitter sample_server) @ event_line ev \<and> ev_Type ev = ''policy.reloaded'' \<and>
     (''subjects_removed'', JArr [JStr ''ns/sa'']) \<in> set (ev_Attested ev)"
proof -
  let ?s = "policy_tick (sample_host ''key''\<lparr>ho_loader := emptied_loader\<rparr>) (sample_env Written) (\<lambda>_. Inr ''none'') sample_server"
  have keys: "SubjectKeys (Current (sv_policies sample_server)) = [''ns/sa'']" "SubjectKeys (Current (sv_policies ?s)) = []"
    unfolding emptied_policy
    by (simp_all add: SubjectKeys_def Current_def sample_store_def compile_policy_def sample_doc_def subject_entry_def)
  have ne: "Current (sv_policies ?s) \<noteq> Current (sv_policies sample_server)" using keys by auto
  have "\<forall>k. en_write (sample_env Written) k = Written" "\<forall>x. \<not> isl (cr_jcs (en_crypto (sample_env Written)) x)"
    by (simp_all add: sample_env_def sample_crypto_def)
  from policy_change_recorded [OF this ne] show ?thesis
    using keys by (auto simp: strings_json_def)
qed

theorem connectTokenExpiry_reads_witness:
  "connectTokenExpiry (''h.'' @ b64_rawurl (render (JObj [(''iss'', JStr ''connect''), (''exp'', JInt 1900000000)])) @ ''.s'') = Inr 1900000000"
proof -
  have "\<not> is_field ''exp'' (valid_utf8 ''iss'')" by (simp add: valid_utf8_ascii ascii_def is_field_code fold_code_def)
  then show ?thesis
    using connectTokenExpiry_reads [of "''h''" "''s''" "[(''iss'', JStr ''connect'')]" 1900000000 "[]"]
    by (simp add: maxNestingDepth_def del: render.simps)
qed

end
