(* ===== verification/Broker_System.thy ===== *)
theory Broker_System
  imports Broker_Stream Broker_Start
begin

text \<open>
  The broker as a state machine: from what \<open>run\<close> sets up, its steps are requests, policy ticks,
  sweeps, updates of the token gauge, readiness probes and TLS handshakes, in any order. Handlers
  are atomic steps. The invariants of the reachable states discharge the hypotheses of the
  theorems about single requests, and give the properties of the whole life of a broker.
\<close>

section \<open>Steps\<close>

datatype broker_act =
    Request http_in route
  | PolicyTick "string \<Rightarrow> string + string"
  | SweepTick "string list"
  | GaugeTick "string \<Rightarrow> string + string"
  | ReadyProbe upstream time time
  | Handshake "string disk"

fun broker_step :: "host \<Rightarrow> env \<Rightarrow> broker_act \<Rightarrow> broker \<Rightarrow> broker" where
  "broker_step ho e (Request r rt) b = b\<lparr>bk_server := snd (Handler e r rt (bk_server b))\<rparr>"
| "broker_step ho e (PolicyTick readFile) b = b\<lparr>bk_server := policy_tick ho e readFile (bk_server b)\<rparr>"
| "broker_step ho e (SweepTick order) b = b\<lparr>bk_server := SweepExpiredLeases e Hour order (bk_server b)\<rparr>"
| "broker_step ho e (GaugeTick readFile) b = b\<lparr>bk_server := update_expiry ho e readFile (bk_server b)\<rparr>"
| "broker_step ho e (ReadyProbe up now1 now2) b = b\<lparr>bk_server := snd (broker_ready up now1 now2 (bk_server b))\<rparr>"
| "broker_step ho e (Handshake d) b =
     (case bk_listener b of
        ListenPlain \<Rightarrow> b
      | ListenTLS r \<Rightarrow> b\<lparr>bk_listener := ListenTLS (snd (GetCertificate d r))\<rparr>)"

inductive reachable :: "host \<Rightarrow> env \<Rightarrow> broker \<Rightarrow> bool" for ho e where
  started: "broker_run ho e = (out, Inr b) \<Longrightarrow> reachable ho e b"
| step: "reachable ho e b \<Longrightarrow> reachable ho e (broker_step ho e a b)"

section \<open>What every step keeps\<close>

text \<open>The policy is a valid one, the signer is the one loaded at the start, the stream is what an
  emitter of that signer has written, and the reviewer is the configured one.\<close>

definition running :: "host \<Rightarrow> env \<Rightarrow> broker \<Rightarrow> bool" where
  "running ho e b \<longleftrightarrow> policy_ok (Current (sv_policies (bk_server b))) \<and> signer_of ho e = Inr (sv_signer (bk_server b)) \<and>
     stream_run e (SetCounter (NewEmitter (sv_signer (bk_server b)) (instance_name ho))) (sv_emitter (bk_server b)) \<and>
     (\<exists>cfg. reviewer_config ho = Inr cfg \<and> reviewer_of ho cfg = Inr (bk_reviewer b))"

lemma running_streams:
  assumes "running ho e b" "streams e (bk_server b) s'"
  shows "running ho e (b\<lparr>bk_server := s'\<rparr>)"
  using assms run_trans by (auto simp: running_def streams_def)

lemma running_policy_tick:
  assumes "running ho e b"
  shows "running ho e (b\<lparr>bk_server := policy_tick ho e readFile (bk_server b)\<rparr>)"
proof -
  let ?s = "bk_server b" and ?st = "snd (reloadIfChanged (ho_loader ho) readFile (sv_policies (bk_server b)))"
  have "policy_ok (ps_current ?st)"
    using cell.run_invariant [of policy_ok "sv_policies ?s" "ho_loader ho" "[readFile]"] policy_offered_ok assms
    by (auto simp: running_def Current_def)
  then have "running ho e (b\<lparr>bk_server := ?s\<lparr>sv_policies := ?st\<rparr>\<rparr>)" using assms by (simp add: running_def Current_def)
  from running_streams [OF this, of "policy_tick ho e readFile ?s"] show ?thesis using policy_tick_streams by simp
qed

lemma reachable_running: "reachable ho e b \<Longrightarrow> running ho e b"
proof (induction rule: reachable.induct)
  case (started out b)
  then obtain signer policies cfg where b: "signer_of ho e = Inr signer" "policies_of ho = Inr policies" "reviewer_config ho = Inr cfg"
      "reviewer_of ho cfg = Inr (bk_reviewer b)"
      "bk_server b = snd (emit e (started_event (initial_server ho signer policies)) (initial_server ho signer policies))"
    unfolding broker_run_Inr by blast
  let ?b = "b\<lparr>bk_server := initial_server ho signer policies\<rparr>"
  have "running ho e ?b" using b NewPolicyStore_ok [OF b(2)] by (simp add: running_def run_refl)
  moreover have "streams e (bk_server ?b) (bk_server b)" unfolding b(5) by auto
  ultimately have "running ho e (?b\<lparr>bk_server := bk_server b\<rparr>)" by (rule running_streams)
  then show ?case by simp
next
  case (step b a)
  then show ?case
  proof (cases a)
    case (PolicyTick readFile)
    then show ?thesis using running_policy_tick [OF step.IH] by simp
  next
    case (Handshake d)
    then show ?thesis using step.IH by (cases "bk_listener b") (simp_all add: running_def)
  qed (use step.IH in \<open>auto intro!: running_streams Handler_streams SweepExpiredLeases_streams update_expiry_streams broker_ready_streams\<close>)
qed

section \<open>Every lease is accounted for\<close>

text \<open>The stream says to whom a lease was issued, and, unless the lease is surrendered, until when it
  lasts.\<close>

definition accounted :: "env \<Rightarrow> Emitter \<Rightarrow> Lease \<Rightarrow> bool" where
  "accounted e em l \<longleftrightarrow>
     (\<exists>ev sub. in_stream (en_crypto e) em ev \<and> ev_Type ev = ''lease.issued'' \<and> ev_Subject ev = Some sub \<and> Key sub = l_SubjectKey l \<and>
        (''lease_id'', JStr (l_ID l)) \<in> set (ev_Attested ev) \<and> (''scope'', JStr (l_Scope l)) \<in> set (ev_Attested ev)) \<and>
     (l_Surrendered l \<or>
      (\<exists>ev. in_stream (en_crypto e) em ev \<and> ev_Type ev \<in> {''lease.issued'', ''lease.renewed''} \<and>
         (''lease_id'', JStr (l_ID l)) \<in> set (ev_Attested ev) \<and>
         (''expires_at'', JStr (format_rfc3339 (l_ExpiresAt l))) \<in> set (ev_Attested ev)))"

definition all_accounted :: "env \<Rightarrow> server \<Rightarrow> bool" where
  "all_accounted e s \<longleftrightarrow> (\<forall>lid l. sv_leases s lid = Some l \<longrightarrow> l_ID l = lid \<and> accounted e (sv_emitter s) l)"

text \<open>A lease that a step leaves as it was, or surrenders, stays accounted for.\<close>

definition settled :: "Lease \<Rightarrow> Lease \<Rightarrow> bool" where
  "settled l l' \<longleftrightarrow> l_ID l' = l_ID l \<and> l_SubjectKey l' = l_SubjectKey l \<and> l_Scope l' = l_Scope l \<and>
     (l_Surrendered l' \<or> \<not> l_Surrendered l \<and> l_ExpiresAt l' = l_ExpiresAt l)"

lemma accounted_mono: "stream_run e em em' \<Longrightarrow> accounted e em l \<Longrightarrow> settled l l' \<Longrightarrow> accounted e em' l'"
  using in_stream_mono [of "en_crypto e" "en_clock e" "en_write e" em em'] unfolding accounted_def settled_def by metis

lemma all_accounted_step:
  assumes "all_accounted e s" "stream_run e (sv_emitter s) (sv_emitter s')"
    and "\<And>lid l'. sv_leases s' lid = Some l' \<Longrightarrow>
      (\<exists>l. sv_leases s lid = Some l \<and> settled l l') \<or> l_ID l' = lid \<and> accounted e (sv_emitter s') l'"
  shows "all_accounted e s'"
  unfolding all_accounted_def
proof (intro allI impI)
  fix lid l' assume "sv_leases s' lid = Some l'"
  from assms(3) [OF this] show "l_ID l' = lid \<and> accounted e (sv_emitter s') l'"
  proof
    assume "\<exists>l. sv_leases s lid = Some l \<and> settled l l'"
    then obtain l where l: "sv_leases s lid = Some l" "settled l l'" by blast
    then have "l_ID l = lid" "accounted e (sv_emitter s) l" using assms(1) by (simp_all add: all_accounted_def)
    then show ?thesis using accounted_mono [OF assms(2) _ l(2)] l(2) by (simp add: settled_def)
  qed
qed

lemma settled_refl [simp]: "settled l l"
  by (cases "l_Surrendered l") (simp_all add: settled_def)

lemma all_accounted_quiet:
  "all_accounted e s \<Longrightarrow> stream_run e (sv_emitter s) (sv_emitter s') \<Longrightarrow> sv_leases s' = sv_leases s \<Longrightarrow> all_accounted e s'"
  by (erule all_accounted_step) auto

lemma disclosed_accounted:
  assumes "disclosed e rc pol req s resp s' l secret ev" "stream_run e (sv_emitter s) (sv_emitter s')"
  shows "accounted e (sv_emitter s') l"
proof -
  have "em_out (sv_emitter s') = em_out (sv_emitter s) @ event_line ev @ []" "signed_by (en_crypto e) (em_signer (sv_emitter s')) ev"
    using assms(1) run_extends [OF assms(2)] by (auto simp: disclosed_def)
  then have "in_stream (en_crypto e) (sv_emitter s') ev" unfolding in_stream_def by blast
  then show ?thesis using assms(1) unfolding accounted_def disclosed_def by (metis insert_subset insertI1)
qed

lemma attests_in_stream:
  assumes "attests e rc s s' typ facts" "stream_run e (sv_emitter s) (sv_emitter s')"
  shows "\<exists>ev. in_stream (en_crypto e) (sv_emitter s') ev \<and> ev_Type ev = typ \<and> set facts \<subseteq> set (ev_Attested ev)"
proof -
  obtain ev where ev: "em_out (sv_emitter s') = em_out (sv_emitter s) @ event_line ev @ []"
      "signed_by (en_crypto e) (em_signer (sv_emitter s)) ev" "ev_Type ev = typ" "set facts \<subseteq> set (ev_Attested ev)"
    using assms(1) by (auto simp: attests_def)
  then have "in_stream (en_crypto e) (sv_emitter s') ev" using run_extends [OF assms(2)] unfolding in_stream_def by metis
  then show ?thesis using ev by blast
qed

lemma renewed_accounted:
  assumes "accounted e em l" "stream_run e em em'" "in_stream (en_crypto e) em' ev" "ev_Type ev = ''lease.renewed''"
    and "set (renewed_attested (l\<lparr>l_ExpiresAt := x\<rparr>) pol) \<subseteq> set (ev_Attested ev)"
  shows "accounted e em' (l\<lparr>l_ExpiresAt := x\<rparr>)"
proof -
  have "accounted e em' (l\<lparr>l_Surrendered := True\<rparr>)" using accounted_mono [OF assms(2,1)] by (simp add: settled_def)
  moreover have "(''lease_id'', JStr (l_ID l)) \<in> set (ev_Attested ev)" "(''expires_at'', JStr (format_rfc3339 x)) \<in> set (ev_Attested ev)"
    using assms(5) by (simp_all add: renewed_attested_def)
  ultimately show ?thesis using assms(3,4) by (auto simp: accounted_def)
qed

lemma renew_accounted:
  assumes "all_accounted e s"
  shows "all_accounted e (snd (handleLeaseRenew e rc lid body s))"
proof (cases rule: handleLeaseRenew_cases [of s lid rc e body])
  case (applied l g ttl s1 req)
  let ?s = "snd (handleLeaseRenew e rc lid body s)" and ?l = "l\<lparr>l_ExpiresAt := Add (now_of e (tick s1)) ttl\<rparr>"
  have run: "stream_run e (sv_emitter s) (sv_emitter ?s)" using handleLeaseRenew_streams by (simp add: streams_def)
  have l: "l_ID l = lid" "accounted e (sv_emitter s) l" using assms applied(1) by (simp_all add: all_accounted_def)
  have l1: "sv_leases s1 lid = Some l" using applied(1,5) by simp
  show ?thesis
  proof (cases rule: renew_apply_cases [OF l1, of e rc "Current (sv_policies s)" ttl])
    case 1
    obtain ev where ev: "in_stream (en_crypto e) (sv_emitter ?s) ev" "ev_Type ev = ''lease.renewed''"
        "set (renewed_attested ?l (Current (sv_policies s))) \<subseteq> set (ev_Attested ev)"
      using attests_in_stream [OF 1(4)] run unfolding applied(4,6) by blast
    have "accounted e (sv_emitter ?s) ?l" by (rule renewed_accounted [OF l(2) run ev])
    then show ?thesis using l 1(3) applied(4,5) by (intro all_accounted_step [OF assms run]) (auto split: if_splits)
  next
    case 2
    then show ?thesis
      using applied(1,4,5) by (intro all_accounted_step [OF assms run]) (auto simp: settled_def split: if_splits)
  next
    case 3
    then show ?thesis using applied(4,5) by (intro all_accounted_quiet [OF assms run]) simp
  qed
next
  case stopped
  then show ?thesis using handleLeaseRenew_streams by (intro all_accounted_quiet [OF assms]) (simp_all add: streams_def)
qed

lemma mux_accounted:
  assumes "policy_ok (Current (sv_policies s))" "all_accounted e s"
  shows "all_accounted e (snd (mux e rt rc s))"
proof -
  let ?s = "snd (mux e rt rc s)"
  have run: "stream_run e (sv_emitter s) (sv_emitter ?s)" using mux_streams by (simp add: streams_def)
  note quiet = all_accounted_quiet [OF assms(2) run]
  show ?thesis
  proof (cases rt)
    case (PostLeases body)
    show ?thesis
      using assms(1)
    proof (cases rule: handleLeaseCreate_cases [of s body rc e])
      case (issued req g sc l secret ev)
      then have "accounted e (sv_emitter ?s) l" using disclosed_accounted run PostLeases by simp
      moreover have "sv_leases ?s = (sv_leases s)(l_ID l \<mapsto> l)" using issued PostLeases by (simp add: disclosed_def)
      ultimately show ?thesis by (intro all_accounted_step [OF assms(2) run]) (auto split: if_splits)
    next
      case refused
      then show ?thesis
        using PostLeases by (intro all_accounted_step [OF assms(2) run]) (auto simp: rolled_back_def split: if_splits)
    qed
  next
    case (PostRenew lid body)
    then show ?thesis using renew_accounted [OF assms(2)] by simp
  next
    case (DeleteLease lid)
    show ?thesis
    proof (cases rule: handleLeaseSurrender_cases [of s lid rc e])
      case (marked l)
      then show ?thesis
        using DeleteLease by (intro all_accounted_step [OF assms(2) run]) (auto simp: settled_def split: if_splits)
    qed (rule quiet, use DeleteLease in simp)+
  next
    case (PostClaims body)
    then show ?thesis by (intro quiet) (cases rule: handleClaims_cases [of body rc s e], simp_all)
  qed (rule quiet, simp add: handleLeaseGet_def handleWhoami_def split: option.split)+
qed

lemma Handler_accounted:
  assumes "policy_ok (Current (sv_policies s))" "all_accounted e s"
  shows "all_accounted e (snd (Handler e r rt s))"
proof -
  have "all_accounted e (snd (mux e rt rc (tick (tick s))))" for rc
    by (rule mux_accounted) (use assms in \<open>simp_all add: all_accounted_def\<close>)
  moreover have "all_accounted e (recordAuthFailure e rid src why s1)" if "sv_leases s1 = sv_leases s" "sv_emitter s1 = sv_emitter s" for rid src why s1
  proof (rule all_accounted_quiet [OF assms(2)])
    show "stream_run e (sv_emitter s) (sv_emitter (recordAuthFailure e rid src why s1))"
      using recordAuthFailure_streams [OF streams_refl, of e s1 rid src why] that by (simp add: streams_def)
  qed (simp add: that)
  ultimately show ?thesis
    by (simp add: Handler_def withRequestID_def withAuth_def split_beta Let_def split: sum.split)
qed

lemma SweepExpiredLeases_accounted:
  assumes "all_accounted e s"
  shows "all_accounted e (SweepExpiredLeases e retain order s)"
proof (rule all_accounted_step [OF assms])
  show "stream_run e (sv_emitter s) (sv_emitter (SweepExpiredLeases e retain order s))"
    using SweepExpiredLeases_streams by (simp add: streams_def)
next
  fix lid l' assume "sv_leases (SweepExpiredLeases e retain order s) lid = Some l'"
  then have "\<exists>l. sv_leases s lid = Some l \<and> (l' = l \<or> l' = sweep_mark (now_of e s) l)"
    by (auto simp: SweepExpiredLeases_def split_beta Let_def sweep_fold_frame SweepExpired_def sweep_loop_get bind_eq_Some_conv
        dest: sweep_entry_cases split: if_splits)
  then show "(\<exists>l. sv_leases s lid = Some l \<and> settled l l') \<or> l_ID l' = lid \<and> accounted e (sv_emitter (SweepExpiredLeases e retain order s)) l'"
    by (auto simp: settled_def sweep_mark_def split: if_splits)
qed

lemma reachable_accounted: "reachable ho e b \<Longrightarrow> all_accounted e (bk_server b)"
proof (induction rule: reachable.induct)
  case (started out b)
  then obtain s0 where s0: "bk_server b = snd (emit e (started_event s0) s0)" "sv_leases s0 = Map.empty"
    unfolding broker_run_Inr by auto
  then show ?case by (simp add: all_accounted_def)
next
  case (step b a)
  have ok: "policy_ok (Current (sv_policies (bk_server b)))"
    using reachable_running [OF step.hyps] by (simp add: running_def)
  note quiet = all_accounted_quiet [OF step.IH]
  show ?case
  proof (cases a)
    case (PolicyTick readFile)
    have "sv_leases (policy_tick ho e readFile (bk_server b)) = sv_leases (bk_server b)"
      by (simp add: policy_tick_def split_beta Let_def sweep_fold_frame)
    then show ?thesis
      using PolicyTick policy_tick_streams [where e = e and s = "bk_server b" and ho = ho and readFile = readFile]
      by (simp add: quiet streams_def)
  next
    case (GaugeTick readFile)
    have "sv_leases (update_expiry ho e readFile (bk_server b)) = sv_leases (bk_server b)"
      by (simp add: update_expiry_def split: sum.split)
    then show ?thesis
      using GaugeTick update_expiry_streams [of e "bk_server b" ho readFile] by (simp add: quiet streams_def)
  next
    case (ReadyProbe up n1 n2)
    have "sv_leases (snd (broker_ready up n1 n2 (bk_server b))) = sv_leases (bk_server b)"
      by (simp add: broker_ready_def split_beta Let_def)
    then show ?thesis
      using ReadyProbe broker_ready_streams [of e "bk_server b" up n1 n2] by (simp add: quiet streams_def)
  next
    case (Handshake d)
    then show ?thesis using step.IH by (cases "bk_listener b") simp_all
  qed (use step.IH ok in \<open>simp_all add: Handler_accounted SweepExpiredLeases_accounted\<close>)
qed

section \<open>Properties\<close>

text \<open>C3: every lease a broker holds is accounted for in its signed stream. In every state a broker can
  reach, whatever requests, policy changes, sweeps, failed and torn writes came before, each
  lease of the table has a signed \<open>lease.issued\<close> event in the stream that names its holder, its
  ID and its scope; and unless the lease is surrendered, its present expiry is the one that a
  signed \<open>lease.issued\<close> or \<open>lease.renewed\<close> event states. No lease and no extension goes unrecorded.\<close>

theorem reachable_leases_accounted:
  assumes "reachable ho e b" "sv_leases (bk_server b) lid = Some l"
  shows "l_ID l = lid \<and> accounted e (sv_emitter (bk_server b)) l"
  using reachable_accounted [OF assms(1)] assms(2) by (simp add: all_accounted_def)

text \<open>C4: a secret only goes to the service account that holds the grant. In every state a broker can
  reach, with its reviewer as the authenticator, a response with secret material means: the
  request carried a bearer token; the API server, asked at that request about that token, vouched
  for it under the configured audience as \<open>system:serviceaccount:<ns>:<sa>\<close>; and the policy in
  force, a valid one, grants the scope asked for to \<open><ns>/<sa>\<close>, neither part of which holds a
  slash, so that no other account has that key.\<close>

theorem secret_only_to_granted_account:
  assumes "reachable ho e b" "en_authn e = authn_of ku (bk_reviewer b)"
    and "\<not> no_secret (fst (Handler e r rt (bk_server b)))"
  shows "\<exists>token tr ns sa req g cfg. hi_Authorization r = ''Bearer '' @ token \<and>
    vouched (ku (Suc (sv_tick (bk_server b)))) (bk_reviewer b) token tr \<and>
    reviewer_config ho = Inr cfg \<and> rv_audience (bk_reviewer b) = ac_Audience cfg \<and>
    tu_Username (tt_User (tr_Status tr)) = saPrefix @ ns @ '':'' @ sa \<and>
    rt = PostLeases (Decoded req) \<and> policy_ok (Current (sv_policies (bk_server b))) \<and>
    GrantOf (Current (sv_policies (bk_server b))) (ns @ ''/'' @ sa) (lq_Scope req) = Some g \<and>
    CHR ''/'' \<notin> set ns \<and> CHR ''/'' \<notin> set sa"
proof -
  obtain cfg where ok: "policy_ok (Current (sv_policies (bk_server b)))" and cfg: "reviewer_config ho = Inr cfg"
      "reviewer_of ho cfg = Inr (bk_reviewer b)"
    using reachable_running [OF assms(1)] by (auto simp: running_def)
  have "rv_audience (bk_reviewer b) = ac_Audience cfg" using cfg(2) by (rule New_Reviewer_audience)
  then show ?thesis using Handler_secret_granted [OF assms(2) ok assms(3)] ok cfg(1) by blast
qed

text \<open>C5: the verdict on the stream of a broker. In every state a broker can reach, with writes that either
  succeed or leave nothing behind, fewer than \<open>2 ^ 64\<close> lines, and an Ed25519 public key of 32 bytes:
  \<open>acb-verify\<close>, given the public key the broker serves and its stream, counts one valid event for
  each number issued, reports no invalid line, gap or duplicate, and exits with 0, when every line
  fits the scanner's buffer of 1 MiB; when one does not, which a long \<open>User-Agent\<close> header can bring about, it
  calls no line invalid and prints no summary, and exits with 2 and a read error.\<close>

theorem reachable_stream_verifies:
  assumes "reachable ho e b" "verifiable (en_crypto e) edv (en_write e) (sv_emitter (bk_server b))"
  shows "acb_verify edv (cr_jcs (en_crypto e)) (PublicBase64 (sv_signer (bk_server b)))
      [Inr \<lparr>rd_bytes = em_out (sv_emitter (bk_server b)), rd_error = False\<rparr>] =
    (if lines_fit (em_out (sv_emitter (bk_server b))) then passed (unat (em_seq (sv_emitter (bk_server b))))
     else usage ReadError [])"
  using reachable_running [OF assms(1)] loadSigner_pub run_verifies [OF _ assms(2)] unfolding running_def by blast

section \<open>A run\<close>

text \<open>The sample broker, started and asked for a lease by an account the playground vouches for.\<close>

definition sample_request_act :: broker_act where
  "sample_request_act = Request identified_http (PostLeases (Decoded sample_lease_req))"

lemma sample_reachable: "reachable (sample_host key) e (sample_broker key e)"
  using sample_started by (rule reachable.started)

lemma sample_like: "like_sample (tick (tick (bk_server (sample_broker key e))))"
  by (simp add: like_sample_def sample_broker_def Let_def initial_server_def New_Server_def broker_providers_def github_app_def
      sample_env_vars started_policies_def Current_def)
    (simp add: applyDefaults_def zero_config_def sample_config_def)

theorem secret_only_to_granted_account_witness:
  "\<exists>ns sa g. GrantOf (Current (sv_policies (bk_server (sample_broker ''key'' identified_env)))) (ns @ ''/'' @ sa) (lq_Scope sample_lease_req) = Some g \<and>
     CHR ''/'' \<notin> set ns"
proof -
  have "en_authn identified_env = authn_of (\<lambda>k. playground_kube ''http://pg'' ''t'') (bk_reviewer (sample_broker ''key'' identified_env))"
    by (simp add: identified_env_def sample_broker_def Let_def)
  from secret_only_to_granted_account [OF sample_reachable this identified_secret [OF sample_like]] show ?thesis by auto
qed

lemma Handler_issues:
  assumes "\<not> no_secret (fst (Handler e r (PostLeases body) s))"
  obtains rc where "\<not> no_secret (fst (handleLeaseCreate e rc body (tick (tick s))))"
    "snd (Handler e r (PostLeases body) s) = snd (handleLeaseCreate e rc body (tick (tick s)))"
proof -
  obtain token sub where t: "hi_Authorization r = ''Bearer '' @ token" "token \<noteq> []" "en_authn e (Suc (sv_tick s)) token = Inr sub"
    using Handler_secret [OF assms] by blast
  obtain rc where "rp_body (fst (Handler e r (PostLeases body) s)) = rp_body (fst (mux e (PostLeases body) rc (tick (tick s))))"
      "snd (Handler e r (PostLeases body) s) = snd (mux e (PostLeases body) rc (tick (tick s)))"
    using Handler_accepted [OF t, of "PostLeases body"] by blast
  then show thesis using that assms by (simp add: no_secret_def)
qed

lemma sample_lease_held:
  "\<exists>l. sv_leases (bk_server (broker_step (sample_host ''key'') identified_env sample_request_act (sample_broker ''key'' identified_env))) (l_ID l) = Some l"
proof -
  let ?s = "bk_server (sample_broker ''key'' identified_env)"
  have ok: "policy_ok (Current (sv_policies (tick (tick ?s))))"
    using reachable_running [OF sample_reachable [of "''key''" identified_env]] by (simp add: running_def)
  have "\<not> no_secret (fst (Handler identified_env identified_http (PostLeases (Decoded sample_lease_req)) ?s))"
    by (rule identified_secret [OF sample_like])
  then obtain rc where rc: "\<not> no_secret (fst (handleLeaseCreate identified_env rc (Decoded sample_lease_req) (tick (tick ?s))))"
      "snd (Handler identified_env identified_http (PostLeases (Decoded sample_lease_req)) ?s) =
       snd (handleLeaseCreate identified_env rc (Decoded sample_lease_req) (tick (tick ?s)))"
    by (rule Handler_issues)
  from ok show ?thesis
  proof (cases rule: handleLeaseCreate_cases [of "tick (tick ?s)" "Decoded sample_lease_req" rc identified_env])
    case (issued req g sc l secret ev)
    then show ?thesis using rc(2) by (intro exI [of _ l]) (simp add: disclosed_def sample_request_act_def)
  next
    case refused
    then show ?thesis using rc(1) by blast
  qed
qed

theorem reachable_leases_accounted_witness:
  "\<exists>l. accounted identified_env
     (sv_emitter (bk_server (broker_step (sample_host ''key'') identified_env sample_request_act (sample_broker ''key'' identified_env)))) l"
  using sample_lease_held reachable_leases_accounted [OF reachable.step [OF sample_reachable]] by blast

text \<open>The stream of a broker with a key of 32 bytes, as it starts.\<close>

definition sorting_env :: env where
  "sorting_env = (sample_env Written)\<lparr>en_crypto := sorting_crypto\<rparr>"

lemma sorting_started:
  "verifiable sorting_crypto prefix_verify (en_write sorting_env) (sv_emitter (bk_server (sample_broker key32 sorting_env)))"
  "lines_fit (em_out (sv_emitter (bk_server (sample_broker key32 sorting_env))))"
  "em_seq (sv_emitter (bk_server (sample_broker key32 sorting_env))) = 1"
proof -
  let ?s = "initial_server (sample_host key32) (NewSigner sorting_crypto key32) started_policies"
  have inst: "instance_name (sample_host key32) = ''broker-0''" by (simp add: instance_name_def sample_host_def)
  have em: "sv_emitter (bk_server (sample_broker key32 sorting_env)) = snd (snd (Emit sorting_crypto 0 Written (started_event ?s)
      (SetCounter (NewEmitter (NewSigner sorting_crypto key32) ''broker-0''))))"
    by (simp add: sample_broker_def sorting_env_def Let_def emit_def split_beta fold_hooks_frame now_of_def inst) (simp add: sample_env_def)
  have "p_Hash (Current started_policies) = ''sha256:'' @ hex_encode ''raw''"
    by (simp add: started_policies_def Current_def sample_store_def compile_policy_def)
  then have "6 * length (ev_Type (started_event ?s)) + weight (JMap (ev_Attested (started_event ?s))) +
      weight (JStrMap (Some (ev_Asserted (started_event ?s)))) \<le> 10000"
    using key32_lengths by (simp add: started_event_def JMap_def JStrMap_def hex_encode_length)
  from first_line_verifiable [OF em _ _ _ _ this, of "en_write sorting_env"] show
    "verifiable sorting_crypto prefix_verify (en_write sorting_env) (sv_emitter (bk_server (sample_broker key32 sorting_env)))"
    "lines_fit (em_out (sv_emitter (bk_server (sample_broker key32 sorting_env))))"
    "em_seq (sv_emitter (bk_server (sample_broker key32 sorting_env))) = 1"
    by (simp_all add: started_event_def sorting_env_def sample_env_def)
qed

theorem reachable_stream_verifies_witness:
  "acb_verify prefix_verify (cr_jcs sorting_crypto) (PublicBase64 (sv_signer (bk_server (sample_broker key32 sorting_env))))
      [Inr \<lparr>rd_bytes = em_out (sv_emitter (bk_server (sample_broker key32 sorting_env))), rd_error = False\<rparr>] = passed 1"
proof -
  have crypto: "en_crypto sorting_env = sorting_crypto" by (simp add: sorting_env_def)
  show ?thesis
    using reachable_stream_verifies [OF sample_reachable, of sorting_env prefix_verify key32] sorting_started unfolding crypto by simp
qed

end
