(* ===== verification/Notify_Policy.thy ===== *)
theory Notify_Policy
  imports Policy
begin

text \<open>
  Package \<open>internal/notify\<close>, \<open>policy.go\<close>: the deny-by-default policy of the notification proxy.
  The YAML decoder is a parameter, as for the broker's policy. \<open>Notify_Parse_exact\<close> says which
  documents are accepted and what they denote; \<open>notify_ok\<close> is the invariant of a loaded policy,
  through which the handlers see it.
\<close>

section \<open>Data\<close>

definition KindPush :: string where "KindPush = ''push''"
definition KindPersistentCreate :: string where "KindPersistentCreate = ''persistent_create''"
definition KindPersistentDismiss :: string where "KindPersistentDismiss = ''persistent_dismiss''"

definition knownKinds :: "string list" where
  "knownKinds = [KindPush, KindPersistentCreate, KindPersistentDismiss]"

definition notifySubjectKeyPattern :: regexp where
  "notifySubjectKeyPattern = Seq dns_label (Seq (Lit ''/'') dns_label)"

definition haTargetPattern :: regexp where
  "haTargetPattern = Plus (Class (\<lambda>c. lower_digit c \<or> c = CHR ''_''))"

record NotifyGrant =
  ng_Kind :: string
  ng_Targets :: "string list"
  ng_IDPrefix :: string

record NotifySubject =
  ns_ServiceAccount :: string
  ns_Grants :: "NotifyGrant list"

record NotifyPolicy =
  np_Subjects :: "NotifySubject list"
  np_Hash :: string
  np_byKey :: "NotifyGrant gomap gomap"

section \<open>Parse\<close>

datatype notify_error =
    NotifyYaml string
  | BadNotifySubject nat string
  | DuplicateNotifySubject string
  | UnknownKind string string
  | DuplicateKind string string
  | NoPushTarget string
  | InvalidPushTarget string string
  | NoIDPrefix string string

definition check_notify_grant :: "string \<Rightarrow> NotifyGrant gomap \<Rightarrow> NotifyGrant \<Rightarrow> notify_error option" where
  "check_notify_grant sa grants g =
     (if \<not> List.member knownKinds (ng_Kind g) then Some (UnknownKind sa (ng_Kind g))
      else if map_of grants (ng_Kind g) \<noteq> None then Some (DuplicateKind sa (ng_Kind g))
      else if ng_Kind g = KindPush then
        (if length (ng_Targets g) = 0 then Some (NoPushTarget sa)
         else case find (\<lambda>t. \<not> MatchString haTargetPattern t) (ng_Targets g) of
                Some t \<Rightarrow> Some (InvalidPushTarget sa t)
              | None \<Rightarrow> None)
      else if ng_Kind g = KindPersistentCreate \<or> ng_Kind g = KindPersistentDismiss then
        (if ng_IDPrefix g = [] then Some (NoIDPrefix sa (ng_Kind g)) else None)
      else None)"

fun notify_grant_loop :: "string \<Rightarrow> NotifyGrant list \<Rightarrow> NotifyGrant gomap \<Rightarrow> notify_error + NotifyGrant gomap" where
  "notify_grant_loop sa [] m = Inr m"
| "notify_grant_loop sa (g # gs) m =
     (case check_notify_grant sa m g of
        Some e \<Rightarrow> Inl e
      | None \<Rightarrow> notify_grant_loop sa gs (m @ [(ng_Kind g, g)]))"

fun notify_subject_loop :: "nat \<Rightarrow> NotifySubject list \<Rightarrow> NotifyGrant gomap gomap \<Rightarrow>
    notify_error + NotifyGrant gomap gomap" where
  "notify_subject_loop i [] m = Inr m"
| "notify_subject_loop i (sp # sps) m =
     (let sa = ns_ServiceAccount sp
      in if \<not> MatchString notifySubjectKeyPattern sa then Inl (BadNotifySubject i sa)
         else if map_of m sa \<noteq> None then Inl (DuplicateNotifySubject sa)
         else case notify_grant_loop sa (ns_Grants sp) [] of
           Inl e \<Rightarrow> Inl e
         | Inr grants \<Rightarrow> notify_subject_loop (Suc i) sps (m @ [(sa, grants)]))"

definition Notify_Parse :: "(string \<Rightarrow> string + NotifySubject list) \<Rightarrow> (string \<Rightarrow> string) \<Rightarrow> string \<Rightarrow>
    notify_error + NotifyPolicy" where
  "Notify_Parse yaml sha256 raw =
     (case yaml raw of
        Inl e \<Rightarrow> Inl (NotifyYaml e)
      | Inr subjects \<Rightarrow>
          (case notify_subject_loop 0 subjects [] of
             Inl e \<Rightarrow> Inl e
           | Inr m \<Rightarrow> Inr \<lparr>np_Subjects = subjects, np_Hash = ''sha256:'' @ hex_encode (sha256 raw), np_byKey = m\<rparr>))"

section \<open>Lookups\<close>

definition NotifyGrantOf :: "NotifyPolicy \<Rightarrow> string \<Rightarrow> string \<Rightarrow> NotifyGrant option" where
  "NotifyGrantOf p subjectKey kind =
     (case map_of (np_byKey p) subjectKey of None \<Rightarrow> None | Some m \<Rightarrow> map_of m kind)"

definition PushTarget :: "NotifyPolicy \<Rightarrow> string \<Rightarrow> string" where
  "PushTarget p subjectKey =
     (case NotifyGrantOf p subjectKey KindPush of
        None \<Rightarrow> []
      | Some g \<Rightarrow> if length (ng_Targets g) = 0 then [] else ng_Targets g ! 0)"

section \<open>What a valid document is\<close>

definition target_char :: "char \<Rightarrow> bool" where
  "target_char c \<longleftrightarrow> lower_digit c \<or> c = CHR ''_''"

definition notify_grant_valid :: "NotifyGrant \<Rightarrow> bool" where
  "notify_grant_valid g \<longleftrightarrow>
     (ng_Kind g = KindPush \<and> ng_Targets g \<noteq> [] \<and> (\<forall>t \<in> set (ng_Targets g). t \<noteq> [] \<and> (\<forall>c \<in> set t. target_char c))) \<or>
     (ng_Kind g \<in> {KindPersistentCreate, KindPersistentDismiss} \<and> ng_IDPrefix g \<noteq> [])"

definition notify_subject_valid :: "NotifySubject \<Rightarrow> bool" where
  "notify_subject_valid sp \<longleftrightarrow>
     ns_ServiceAccount sp \<in> lang notifySubjectKeyPattern \<and> distinct (map ng_Kind (ns_Grants sp)) \<and>
     (\<forall>g \<in> set (ns_Grants sp). notify_grant_valid g)"

definition notify_doc_valid :: "NotifySubject list \<Rightarrow> bool" where
  "notify_doc_valid sps \<longleftrightarrow> distinct (map ns_ServiceAccount sps) \<and> (\<forall>sp \<in> set sps. notify_subject_valid sp)"

definition notify_entry :: "NotifySubject \<Rightarrow> string \<times> NotifyGrant gomap" where
  "notify_entry sp = (ns_ServiceAccount sp, map (\<lambda>g. (ng_Kind g, g)) (ns_Grants sp))"

section \<open>Exactness\<close>

lemma kinds_distinct [simp]:
  "KindPush \<noteq> KindPersistentCreate" "KindPush \<noteq> KindPersistentDismiss" "KindPersistentCreate \<noteq> KindPersistentDismiss"
  "KindPersistentCreate \<noteq> KindPush" "KindPersistentDismiss \<noteq> KindPush" "KindPersistentDismiss \<noteq> KindPersistentCreate"
  by (simp_all add: KindPush_def KindPersistentCreate_def KindPersistentDismiss_def)

lemma haTarget_lang: "MatchString haTargetPattern t \<longleftrightarrow> t \<noteq> [] \<and> (\<forall>c \<in> set t. target_char c)"
  by (simp add: haTargetPattern_def MatchString_lang lang_Plus_Class target_char_def)

lemma check_notify_grant_None:
  "check_notify_grant sa m g = None \<longleftrightarrow> ng_Kind g \<notin> fst ` set m \<and> notify_grant_valid g"
proof -
  have "find (\<lambda>t. \<not> MatchString haTargetPattern t) ts = None \<longleftrightarrow> (\<forall>t \<in> set ts. t \<noteq> [] \<and> (\<forall>c \<in> set t. target_char c))" for ts
    by (auto simp: find_None_iff haTarget_lang)
  from this [of "ng_Targets g"] show ?thesis
    by (cases "find (\<lambda>t. \<not> MatchString haTargetPattern t) (ng_Targets g)")
      (auto simp: check_notify_grant_def notify_grant_valid_def knownKinds_def List.member_iff map_of_eq_None_iff)
qed

lemma notify_grant_loop_Inr:
  "notify_grant_loop sa gs m = Inr m' \<longleftrightarrow>
     distinct (map ng_Kind gs) \<and> ng_Kind ` set gs \<inter> fst ` set m = {} \<and> (\<forall>g \<in> set gs. notify_grant_valid g) \<and>
     m' = m @ map (\<lambda>g. (ng_Kind g, g)) gs"
proof (induction gs arbitrary: m)
  case (Cons g gs)
  have "notify_grant_loop sa (g # gs) m = Inr m' \<longleftrightarrow>
      check_notify_grant sa m g = None \<and> notify_grant_loop sa gs (m @ [(ng_Kind g, g)]) = Inr m'"
    by (simp split: option.splits)
  then show ?case by (auto simp: Cons.IH check_notify_grant_None simp del: notify_grant_loop.simps)
qed auto

lemma notify_subject_loop_Cons:
  "notify_subject_loop i (sp # sps) m = Inr m' \<longleftrightarrow>
     notify_subject_valid sp \<and> ns_ServiceAccount sp \<notin> fst ` set m \<and>
     notify_subject_loop (Suc i) sps (m @ [notify_entry sp]) = Inr m'"
proof (cases "notify_grant_loop (ns_ServiceAccount sp) (ns_Grants sp) []")
  case (Inl e)
  then show ?thesis
    using notify_grant_loop_Inr [of "ns_ServiceAccount sp" "ns_Grants sp" "[]"]
    by (auto simp: Let_def notify_subject_valid_def MatchString_lang)
next
  case (Inr grants)
  moreover have "grants = map (\<lambda>g. (ng_Kind g, g)) (ns_Grants sp)" "distinct (map ng_Kind (ns_Grants sp))"
      "\<forall>g \<in> set (ns_Grants sp). notify_grant_valid g"
    using Inr by (auto simp: notify_grant_loop_Inr)
  ultimately show ?thesis
    by (auto simp: Let_def notify_subject_valid_def MatchString_lang notify_entry_def map_of_eq_None_iff)
qed

lemma notify_subject_loop_Inr:
  "notify_subject_loop i sps m = Inr m' \<longleftrightarrow>
     notify_doc_valid sps \<and> ns_ServiceAccount ` set sps \<inter> fst ` set m = {} \<and> m' = m @ map notify_entry sps"
proof (induction sps arbitrary: i m)
  case (Cons sp sps)
  show ?case
    by (auto simp: notify_subject_loop_Cons Cons.IH notify_doc_valid_def notify_entry_def simp del: notify_subject_loop.simps)
qed (auto simp: notify_doc_valid_def)

text \<open>C35: the proxy accepts exactly the policies it should. A text is accepted exactly when it decodes
  to a list of subjects with pairwise distinct well-formed service accounts, at most one grant of
  each kind per subject, every kind one of the three, push grants with at least one target and
  every target a non-empty word over \<open>[a-z0-9_]\<close>, the others with a non-empty ID prefix; and the
  policy then holds exactly those grants, under the digest of the text.\<close>

theorem Notify_Parse_exact:
  "Notify_Parse yaml sha256 raw = Inr p \<longleftrightarrow>
     (\<exists>sps. yaml raw = Inr sps \<and> notify_doc_valid sps \<and>
        p = \<lparr>np_Subjects = sps, np_Hash = ''sha256:'' @ hex_encode (sha256 raw), np_byKey = map notify_entry sps\<rparr>)"
proof (cases "yaml raw")
  case (Inr sps)
  then show ?thesis
    using notify_subject_loop_Inr [of 0 sps "[]"]
    by (cases "notify_subject_loop 0 sps []") (auto simp: Notify_Parse_def)
qed (simp add: Notify_Parse_def)

section \<open>The invariant of a loaded policy\<close>

definition notify_ok :: "NotifyPolicy \<Rightarrow> bool" where
  "notify_ok p \<longleftrightarrow> notify_doc_valid (np_Subjects p) \<and> np_byKey p = map notify_entry (np_Subjects p)"

lemma Notify_Parse_ok: "Notify_Parse yaml sha256 raw = Inr p \<Longrightarrow> notify_ok p"
  using notify_subject_loop_Inr [of 0 _ "[]"]
  by (auto simp: Notify_Parse_def notify_ok_def split: sum.splits)

lemma NotifyGrantOf_iff:
  assumes "notify_ok p"
  shows "NotifyGrantOf p k kind = Some g \<longleftrightarrow>
    (\<exists>sp \<in> set (np_Subjects p). ns_ServiceAccount sp = k \<and> g \<in> set (ns_Grants sp) \<and> ng_Kind g = kind)"
proof -
  have "distinct (map ns_ServiceAccount (np_Subjects p))" "\<forall>sp \<in> set (np_Subjects p). distinct (map ng_Kind (ns_Grants sp))"
    and "np_byKey p = map (\<lambda>sp. (ns_ServiceAccount sp, map (\<lambda>g. (ng_Kind g, g)) (ns_Grants sp))) (np_Subjects p)"
    using assms by (simp_all add: notify_ok_def notify_doc_valid_def notify_subject_valid_def notify_entry_def [abs_def])
  then show ?thesis by (simp add: NotifyGrantOf_def nested_lookup)
qed

text \<open>What the proxy relies on.\<close>

locale notify_gate =
  fixes ok :: "'p \<Rightarrow> bool"
    and grant_of :: "'p \<Rightarrow> string \<Rightarrow> string \<Rightarrow> NotifyGrant option"
    and target_of :: "'p \<Rightarrow> string \<Rightarrow> string"
  assumes grant_kind: "ok p \<Longrightarrow> grant_of p k kind = Some g \<Longrightarrow> ng_Kind g = kind \<and> notify_grant_valid g"
    and target_granted: "target_of p k \<noteq> [] \<Longrightarrow>
      \<exists>g. grant_of p k KindPush = Some g \<and> ng_Targets g \<noteq> [] \<and> target_of p k = hd (ng_Targets g)"
begin

lemma target_word:
  assumes "ok p" "target_of p k \<noteq> []"
  shows "\<forall>c \<in> set (target_of p k). target_char c"
proof -
  obtain g where "grant_of p k KindPush = Some g" "ng_Targets g \<noteq> []" "target_of p k = hd (ng_Targets g)"
    using target_granted [OF assms(2)] by blast
  moreover from grant_kind [OF assms(1) this(1)] have "notify_grant_valid g" "ng_Kind g = KindPush" by simp_all
  ultimately show ?thesis by (auto simp: notify_grant_valid_def)
qed

lemma prefix_needed:
  assumes "ok p" "grant_of p k kind = Some g" "kind = KindPersistentCreate \<or> kind = KindPersistentDismiss"
  shows "ng_IDPrefix g \<noteq> []"
  using grant_kind [OF assms(1,2)] assms(3) by (auto simp: notify_grant_valid_def)

end

interpretation gate: notify_gate notify_ok NotifyGrantOf PushTarget
proof (standard, goal_cases)
  case (1 p k kind g)
  then show ?case
    by (auto simp: NotifyGrantOf_iff notify_ok_def notify_doc_valid_def notify_subject_valid_def)
next
  case (2 p k)
  then show ?case by (auto simp: PushTarget_def hd_conv_nth split: option.splits if_splits)
qed

end
