(* ===== verification/Notify_Upstream.thy ===== *)
theory Notify_Upstream
  imports Notify_Policy Authn
begin

text \<open>
  Package \<open>internal/notify\<close>, \<open>ha.go\<close> and \<open>lease.go\<close>: the two clients of the proxy, one for Home
  Assistant and one for the broker. As for the providers, a call gives the requests it sends and
  its result; the rest of the world answers through \<open>proxy_up\<close>, where \<open>pu_do\<close> is
  \<open>http.Client.Do\<close> with all that it does, redirects it follows included: the requests recorded are
  those handed to it. \<open>json.Marshal\<close> cannot fail on the bodies, which hold strings and maps of
  strings only.
\<close>

record proxy_up =
  pu_validURL :: "string \<Rightarrow> bool"
  pu_readFile :: "string \<Rightarrow> string + string"
  pu_do :: "http_request \<Rightarrow> string + http_response"

section \<open>Home Assistant\<close>

definition haServiceNameRe :: regexp where
  "haServiceNameRe = Plus (Class (\<lambda>c. lower_digit c \<or> c = CHR ''_''))"

definition haAllowed :: "string \<Rightarrow> string \<Rightarrow> bool" where
  "haAllowed domain service =
     (if domain = ''notify'' then MatchString haServiceNameRe service
      else if domain = ''persistent_notification'' then service = ''create'' \<or> service = ''dismiss''
      else False)"

record HAClient =
  ha_base :: string

definition NewHAClient :: "string \<Rightarrow> HAClient" where
  "NewHAClient baseURL = \<lparr>ha_base = TrimRight baseURL CHR ''/''\<rparr>"

datatype ha_error = NotPermitted string string | BadHAURL | HAUnreachable string

definition ha_request :: "HAClient \<Rightarrow> string \<Rightarrow> string \<Rightarrow> string \<Rightarrow> (string \<times> json) list \<Rightarrow> http_request" where
  "ha_request h token domain service body =
     \<lparr>hq_method = ''POST'', hq_url = ha_base h @ ''/api/services/'' @ PathEscape domain @ ''/'' @ PathEscape service,
      hq_header = [(''Authorization'', ''Bearer '' @ token), (''Content-Type'', ''application/json'')],
      hq_body = render (JMap body)\<rparr>"

text \<open>The status (0 when the call was not made or did not complete) and the error, if any.\<close>

definition HA_Call :: "proxy_up \<Rightarrow> HAClient \<Rightarrow> string \<Rightarrow> string \<Rightarrow> string \<Rightarrow> (string \<times> json) list \<Rightarrow>
    http_request list \<times> int \<times> ha_error option" where
  "HA_Call up h token domain service body =
     (if \<not> haAllowed domain service then ([], 0, Some (NotPermitted domain service))
      else let req = ha_request h token domain service body
           in if \<not> pu_validURL up (hq_url req) then ([], 0, Some BadHAURL)
              else case pu_do up req of
                Inl e \<Rightarrow> ([req], 0, Some (HAUnreachable e))
              | Inr resp \<Rightarrow> ([req], hr_status resp, None))"

section \<open>The broker\<close>

record LeaseClient =
  lc_brokerURL :: string
  lc_scope :: string
  lc_tokenFile :: string
  lc_rootCAs :: "string option"

datatype lease_error =
    ReadBrokerCA string
  | NoBrokerCerts string
  | BadBrokerURL
  | ReadBrokerToken string
  | BrokerUnreachable string
  | LeaseFailed int
  | DecodeLease
  | LeaseIncomplete

text \<open>\<open>certs\<close> tells whether a bundle holds a certificate.\<close>

definition NewLeaseClient :: "(string \<Rightarrow> string + string) \<Rightarrow> (string \<Rightarrow> bool) \<Rightarrow>
    string \<Rightarrow> string \<Rightarrow> string \<Rightarrow> string \<Rightarrow> lease_error + LeaseClient" where
  "NewLeaseClient readFile certs brokerURL caFile scope tokenFile =
     (let lc = (\<lambda>pool. \<lparr>lc_brokerURL = TrimRight brokerURL CHR ''/'', lc_scope = scope, lc_tokenFile = tokenFile,
                          lc_rootCAs = pool\<rparr>)
      in if caFile \<noteq> [] then
           (case readFile caFile of
              Inl e \<Rightarrow> Inl (ReadBrokerCA e)
            | Inr ca \<Rightarrow> if \<not> certs ca then Inl (NoBrokerCerts caFile) else Inr (lc (Some ca)))
         else Inr (lc None))"

definition tokenFn :: "(string \<Rightarrow> string + string) \<Rightarrow> LeaseClient \<Rightarrow> string + string" where
  "tokenFn readFile lc = (case readFile (lc_tokenFile lc) of Inl e \<Rightarrow> Inl e | Inr b \<Rightarrow> Inr (TrimSpace b))"

record NotifyLease =
  nl_Token :: string
  nl_LeaseID :: string

definition leaseReq_json :: "string \<Rightarrow> string gomap \<Rightarrow> json" where
  "leaseReq_json scope ctx =
     JObj ([(''scope'', JStr scope)] @ (if ctx = [] then [] else [(''context'', JStrMap (Some ctx))]))"

record leaseResp =
  lp_LeaseID :: string
  lp_Secret :: "string gomap"

definition leaseResp_field :: "string \<Rightarrow> jval \<Rightarrow> leaseResp \<Rightarrow> leaseResp option" where
  "leaseResp_field k v r =
     (if is_field ''lease_id'' k then map_option (\<lambda>x. r\<lparr>lp_LeaseID := x\<rparr>) (to_string v (lp_LeaseID r))
      else if is_field ''secret'' k then map_option (\<lambda>x. r\<lparr>lp_Secret := x\<rparr>) (to_map (\<lambda>x. to_string x []) v (lp_Secret r))
      else Some r)"

definition decode_leaseResp :: "string \<Rightarrow> leaseResp option" where
  "decode_leaseResp body =
     (case decode_first body of
        None \<Rightarrow> None
      | Some (v, r) \<Rightarrow> to_struct leaseResp_field v \<lparr>lp_LeaseID = [], lp_Secret = []\<rparr>)"

definition lease_request :: "LeaseClient \<Rightarrow> string \<Rightarrow> string gomap \<Rightarrow> http_request" where
  "lease_request lc tok ctx =
     \<lparr>hq_method = ''POST'', hq_url = lc_brokerURL lc @ ''/v1/leases'',
      hq_header = [(''Authorization'', ''Bearer '' @ tok), (''Content-Type'', ''application/json'')],
      hq_body = render (leaseReq_json (lc_scope lc) ctx)\<rparr>"

definition LeaseClient_Lease :: "proxy_up \<Rightarrow> LeaseClient \<Rightarrow> string gomap \<Rightarrow> http_request list \<times> (lease_error + NotifyLease)" where
  "LeaseClient_Lease up lc leaseContext =
     (if \<not> pu_validURL up (lc_brokerURL lc @ ''/v1/leases'') then ([], Inl BadBrokerURL)
      else case tokenFn (pu_readFile up) lc of
        Inl e \<Rightarrow> ([], Inl (ReadBrokerToken e))
      | Inr tok \<Rightarrow>
          let req = lease_request lc tok leaseContext
          in ([req],
              case pu_do up req of
                Inl e \<Rightarrow> Inl (BrokerUnreachable e)
              | Inr resp \<Rightarrow>
                  if hr_status resp \<noteq> 201 then Inl (LeaseFailed (hr_status resp))
                  else case decode_leaseResp (hr_body resp) of
                    None \<Rightarrow> Inl DecodeLease
                  | Some lr \<Rightarrow>
                      let tokenVal = gindex (lp_Secret lr) ''token''
                      in if tokenVal = [] \<or> lp_LeaseID lr = [] then Inl LeaseIncomplete
                         else Inr \<lparr>nl_Token = tokenVal, nl_LeaseID = lp_LeaseID lr\<rparr>))"

section \<open>What the clients send\<close>

lemma haAllowed_iff:
  "haAllowed domain service \<longleftrightarrow>
     (domain = ''notify'' \<and> service \<noteq> [] \<and> (\<forall>c \<in> set service. target_char c)) \<or>
     (domain = ''persistent_notification'' \<and> (service = ''create'' \<or> service = ''dismiss''))"
  by (auto simp: haAllowed_def haServiceNameRe_def MatchString_lang lang_Plus_Class target_char_def)

text \<open>Nothing of an allowed pair needs escaping, so the path is the pair itself.\<close>

lemma PathEscape_target: "\<forall>c \<in> set s. target_char c \<Longrightarrow> PathEscape s = s"
  by (induction s) (auto simp: PathEscape_def target_char_def lower_digit_def)

lemma haAllowed_chars: "haAllowed domain service \<Longrightarrow> (\<forall>c \<in> set domain. target_char c) \<and> (\<forall>c \<in> set service. target_char c)"
  by (auto simp: haAllowed_iff target_char_def lower_digit_def lower_def)

lemma ha_request_url:
  "haAllowed domain service \<Longrightarrow> hq_url (ha_request h token domain service body) = ha_base h @ ''/api/services/'' @ domain @ ''/'' @ service"
  using haAllowed_chars [of domain service] by (simp add: ha_request_def PathEscape_target)

text \<open>The contract of a client that makes one remote call: it sends the request made from its
  arguments or nothing, and without a request it has failed.\<close>

locale one_call =
  fixes call :: "'up \<Rightarrow> 'args \<Rightarrow> http_request list \<times> 'res"
    and failed :: "'res \<Rightarrow> bool"
    and request :: "'up \<Rightarrow> 'args \<Rightarrow> http_request"
  assumes sends: "fst (call up a) = [] \<or> fst (call up a) = [request up a]"
    and silent_fails: "fst (call up a) = [] \<Longrightarrow> failed (snd (call up a))"
begin

lemma success_sent: "\<not> failed (snd (call up a)) \<Longrightarrow> fst (call up a) = [request up a]"
  using sends [of up a] silent_fails [of up a] by auto

lemma at_most_one: "length (fst (call up a)) \<le> 1"
  using sends [of up a] by auto

end

definition lease_call :: "proxy_up \<Rightarrow> LeaseClient \<times> string gomap \<Rightarrow> http_request list \<times> (lease_error + NotifyLease)" where
  "lease_call up a = LeaseClient_Lease up (fst a) (snd a)"

definition ha_call :: "proxy_up \<Rightarrow> HAClient \<times> string \<times> string \<times> string \<times> (string \<times> json) list \<Rightarrow>
    http_request list \<times> int \<times> ha_error option" where
  "ha_call up a = (case a of (h, token, domain, service, body) \<Rightarrow> HA_Call up h token domain service body)"

interpretation leasing: one_call lease_call isl
  "\<lambda>up a. lease_request (fst a) (case tokenFn (pu_readFile up) (fst a) of Inl e \<Rightarrow> [] | Inr t \<Rightarrow> t) (snd a)"
  by standard (auto simp: lease_call_def LeaseClient_Lease_def Let_def split: sum.splits option.splits)

interpretation calling: one_call ha_call "\<lambda>r. snd r \<noteq> None"
  "\<lambda>up a. case a of (h, token, domain, service, body) \<Rightarrow> ha_request h token domain service body"
  by standard (auto simp: ha_call_def HA_Call_def Let_def split: sum.splits if_splits)

lemma HA_Call_allowed: "fst (HA_Call up h token domain service body) \<noteq> [] \<Longrightarrow> haAllowed domain service"
  by (auto simp: HA_Call_def split: if_splits)

end
