(* ===== verification/Notify_Server.thy ===== *)
theory Notify_Server
  imports Server Notify_Upstream
begin

text \<open>
  Package \<open>internal/notify\<close>, \<open>server.go\<close> and \<open>problem.go\<close>: the state of the notification proxy,
  its middleware and its handlers, whole. The outside world is a \<open>proxy_env\<close>, read as the
  broker's \<open>env\<close> is: \<open>px_tick\<close> counts the answers used. \<open>px_sent\<close> is what the process has sent
  through its two HTTP clients, oldest first. A request body is its bytes, and the handlers decode
  it. \<open>pe_range\<close> is the order in which a \<open>range\<close> visits the keys of a decoded map.
\<close>

section \<open>Problems\<close>

definition ProblemUpstreamFailure :: string where "ProblemUpstreamFailure = errBase @ ''upstream-failure''"

definition notify_writeProblem :: "int \<Rightarrow> string \<Rightarrow> string \<Rightarrow> string \<Rightarrow> string \<Rightarrow> response" where
  "notify_writeProblem status typ title detail requestID =
     \<lparr>rp_status = status, rp_header = [(''Content-Type'', ''application/problem+json'')],
      rp_body = BProblem \<lparr>pb_Type = typ, pb_Title = title, pb_Status = status, pb_Detail = detail, pb_RequestID = requestID\<rparr>\<rparr>"

definition notify_writeJSON :: "string gomap \<Rightarrow> int \<Rightarrow> json \<Rightarrow> response" where
  "notify_writeJSON hdr status v =
     \<lparr>rp_status = status, rp_header = hdr @ [(''Content-Type'', ''application/json'')], rp_body = BJson v\<rparr>"

section \<open>State\<close>

definition allowedPushDataKeys :: "string list" where
  "allowedPushDataKeys = [''group'', ''tag'', ''url'']"

record NotifyConfig =
  nc_RatePerMinute :: float64
  nc_Burst :: int
  nc_MaxBodyBytes :: int64

definition notify_applyDefaults :: "NotifyConfig \<Rightarrow> NotifyConfig" where
  "notify_applyDefaults c =
     \<lparr>nc_RatePerMinute = (if nc_RatePerMinute c = 0 then 12 else nc_RatePerMinute c),
      nc_Burst = (if nc_Burst c = 0 then 6 else nc_Burst c),
      nc_MaxBodyBytes = (if nc_MaxBodyBytes c = 0 then 16384 else nc_MaxBodyBytes c)\<rparr>"

record proxy =
  px_cfg :: NotifyConfig
  px_policy :: NotifyPolicy
  px_ha :: HAClient
  px_lease :: LeaseClient
  px_emitter :: Emitter
  px_signer :: Signer
  px_metrics :: Metrics
  px_limiter :: Limiter
  px_authFail :: Limiter
  px_rlAudit :: Limiter
  px_sent :: "http_request list"
  px_tick :: nat

definition New_Proxy :: "NotifyConfig \<Rightarrow> NotifyPolicy \<Rightarrow> HAClient \<Rightarrow> LeaseClient \<Rightarrow> Emitter \<Rightarrow> Signer \<Rightarrow> Metrics \<Rightarrow> proxy" where
  "New_Proxy cfg0 policy ha lease emitter signer metrics =
     (let cfg = notify_applyDefaults cfg0
      in \<lparr>px_cfg = cfg, px_policy = policy, px_ha = ha, px_lease = lease, px_emitter = emitter, px_signer = signer,
          px_metrics = metrics, px_limiter = New_Limiter (nc_RatePerMinute cfg) (nc_Burst cfg),
          px_authFail = New_Limiter 1 1, px_rlAudit = New_Limiter 1 1, px_sent = [], px_tick = 0\<rparr>)"

record proxy_env =
  pe_clock :: "nat \<Rightarrow> time"
  pe_rand :: "nat \<Rightarrow> nat \<Rightarrow> string"
  pe_write :: "nat \<Rightarrow> write_outcome"
  pe_authn :: "nat \<Rightarrow> string \<Rightarrow> string + Subject"
  pe_up :: "nat \<Rightarrow> proxy_up"
  pe_crypto :: crypto
  pe_isPrint :: "string \<Rightarrow> bool"
  pe_range :: "nat \<Rightarrow> string list \<Rightarrow> string list"

section \<open>Primitive steps\<close>

definition ptick :: "proxy \<Rightarrow> proxy" where
  "ptick s = s\<lparr>px_tick := Suc (px_tick s)\<rparr>"

definition pnow :: "proxy_env \<Rightarrow> proxy \<Rightarrow> time" where
  "pnow e s = pe_clock e (px_tick s)"

definition pinc :: "proxy_env \<Rightarrow> string \<Rightarrow> string gomap \<Rightarrow> proxy \<Rightarrow> proxy" where
  "pinc e name labels s = s\<lparr>px_metrics := Inc (pe_isPrint e) name labels (px_metrics s)\<rparr>"

text \<open>\<open>emitter.Emit\<close> with the counter hook the command installs. Every caller drops the error.\<close>

definition pemit :: "proxy_env \<Rightarrow> Event \<Rightarrow> proxy \<Rightarrow> proxy" where
  "pemit e ev s =
     (let (r, hooks, em) = Emit (pe_crypto e) (pnow e s) (pe_write e (px_tick s)) ev (px_emitter s)
      in fold (\<lambda>t. pinc e ''acb_audit_events_total'' [(''type'', t)]) hooks (ptick s\<lparr>px_emitter := em\<rparr>))"

definition pallow_limiter :: "proxy_env \<Rightarrow> string \<Rightarrow> proxy \<Rightarrow> bool \<times> proxy" where
  "pallow_limiter e key s = (let (ok, l) = Allow (pnow e s) key (px_limiter s) in (ok, ptick s\<lparr>px_limiter := l\<rparr>))"

definition pallow_authFail :: "proxy_env \<Rightarrow> string \<Rightarrow> proxy \<Rightarrow> bool \<times> proxy" where
  "pallow_authFail e key s = (let (ok, l) = Allow (pnow e s) key (px_authFail s) in (ok, ptick s\<lparr>px_authFail := l\<rparr>))"

definition pallow_rlAudit :: "proxy_env \<Rightarrow> string \<Rightarrow> proxy \<Rightarrow> bool \<times> proxy" where
  "pallow_rlAudit e key s = (let (ok, l) = Allow (pnow e s) key (px_rlAudit s) in (ok, ptick s\<lparr>px_rlAudit := l\<rparr>))"

definition psend :: "http_request list \<Rightarrow> proxy \<Rightarrow> proxy" where
  "psend reqs s = ptick s\<lparr>px_sent := px_sent s @ reqs\<rparr>"

section \<open>Middleware\<close>

definition notify_recordAuthFailure :: "proxy_env \<Rightarrow> string \<Rightarrow> Source option \<Rightarrow> string \<Rightarrow> proxy \<Rightarrow> proxy" where
  "notify_recordAuthFailure e reqID src reason s =
     (let s1 = pinc e ''acb_auth_failures_total'' [] s;
          key = (case src of None \<Rightarrow> [] | Some x \<Rightarrow> src_IP x);
          (ok, s2) = pallow_authFail e key s1
      in if \<not> ok then s2
         else pemit e (base_event ''auth.failed'' reqID None src
                [(''reason'', JStr reason), (''aggregated'', JBool True)] []) s2)"

definition notify_withRequestID :: "proxy_env \<Rightarrow> http_in \<Rightarrow> (string \<Rightarrow> Source \<Rightarrow> proxy \<Rightarrow> response \<times> proxy) \<Rightarrow>
    proxy \<Rightarrow> response \<times> proxy" where
  "notify_withRequestID e r next s =
     (let rid = ''req_'' @ hex_encode (pe_rand e (px_tick s) 8);
          ip = (case SplitHostPort (hi_RemoteAddr r) of None \<Rightarrow> hi_RemoteAddr r | Some host \<Rightarrow> host);
          (resp, s1) = next rid \<lparr>src_IP = ip, src_UserAgent = hi_UserAgent r\<rparr> (ptick s)
      in (resp\<lparr>rp_header := (''X-Request-Id'', rid) # rp_header resp\<rparr>, s1))"

definition notify_withAuth :: "proxy_env \<Rightarrow> http_in \<Rightarrow> (reqctx \<Rightarrow> proxy \<Rightarrow> response \<times> proxy) \<Rightarrow>
    string \<Rightarrow> Source \<Rightarrow> proxy \<Rightarrow> response \<times> proxy" where
  "notify_withAuth e r next reqID src s =
     (case CutPrefix (hi_Authorization r) ''Bearer '' of
        (token, ok) \<Rightarrow>
          if \<not> ok \<or> token = [] then
            (notify_writeProblem 401 ProblemUnauthenticated ''missing or malformed Authorization header'' [] reqID,
             notify_recordAuthFailure e reqID (Some src) ''missing-bearer'' s)
          else case pe_authn e (px_tick s) token of
            Inl err \<Rightarrow>
              (notify_writeProblem 401 ProblemUnauthenticated ''token rejected'' [] reqID,
               notify_recordAuthFailure e reqID (Some src) ''token-rejected'' (ptick s))
          | Inr sub \<Rightarrow> next \<lparr>rc_Subject = sub, rc_RequestID = reqID, rc_Source = src\<rparr> (ptick s))"

section \<open>Request bodies\<close>

text \<open>\<open>http.MaxBytesReader\<close> under a \<open>json.Decoder\<close>: the decoder sees the first \<open>limit\<close> bytes, and
  then an error instead of the end. An object or array ends with its own bracket; any other value
  that reaches the limit is not known to be complete.\<close>

definition body_value :: "nat \<Rightarrow> string \<Rightarrow> jval option" where
  "body_value limit body =
     (if length body \<le> limit then map_option fst (decode_first body)
      else case decode_first (take limit body) of
        None \<Rightarrow> None
      | Some (v, r) \<Rightarrow> (case v of VObj ms \<Rightarrow> Some v | VArr vs \<Rightarrow> Some v | _ \<Rightarrow> if r = [] then None else Some v))"

definition decode_body :: "(string \<Rightarrow> jval \<Rightarrow> 'a \<Rightarrow> 'a option) \<Rightarrow> 'a \<Rightarrow> proxy \<Rightarrow> string \<Rightarrow> 'a option" where
  "decode_body field zero s body =
     (case body_value (nat (sint (nc_MaxBodyBytes (px_cfg s)))) body of None \<Rightarrow> None | Some v \<Rightarrow> to_struct field v zero)"

record pushReq =
  pq_Title :: string
  pq_Message :: string
  pq_Data :: "string gomap"

definition push_field :: "string \<Rightarrow> jval \<Rightarrow> pushReq \<Rightarrow> pushReq option" where
  "push_field k v r =
     (if is_field ''title'' k then map_option (\<lambda>x. r\<lparr>pq_Title := x\<rparr>) (to_string v (pq_Title r))
      else if is_field ''message'' k then map_option (\<lambda>x. r\<lparr>pq_Message := x\<rparr>) (to_string v (pq_Message r))
      else if is_field ''data'' k then map_option (\<lambda>x. r\<lparr>pq_Data := x\<rparr>) (to_map (\<lambda>x. to_string x []) v (pq_Data r))
      else Some r)"

record persistReq =
  sq_NotificationID :: string
  sq_Title :: string
  sq_Message :: string

definition persist_field :: "string \<Rightarrow> jval \<Rightarrow> persistReq \<Rightarrow> persistReq option" where
  "persist_field k v r =
     (if is_field ''notification_id'' k then map_option (\<lambda>x. r\<lparr>sq_NotificationID := x\<rparr>) (to_string v (sq_NotificationID r))
      else if is_field ''title'' k then map_option (\<lambda>x. r\<lparr>sq_Title := x\<rparr>) (to_string v (sq_Title r))
      else if is_field ''message'' k then map_option (\<lambda>x. r\<lparr>sq_Message := x\<rparr>) (to_string v (sq_Message r))
      else Some r)"

record dismissReq =
  dq_NotificationID :: string

definition dismiss_field :: "string \<Rightarrow> jval \<Rightarrow> dismissReq \<Rightarrow> dismissReq option" where
  "dismiss_field k v r =
     (if is_field ''notification_id'' k then map_option (\<lambda>x. r\<lparr>dq_NotificationID := x\<rparr>) (to_string v (dq_NotificationID r))
      else Some r)"

section \<open>Handlers\<close>

definition notify_deny :: "proxy_env \<Rightarrow> reqctx \<Rightarrow> string \<Rightarrow> string \<Rightarrow> int \<Rightarrow> string \<Rightarrow> string \<Rightarrow> string gomap \<Rightarrow>
    proxy \<Rightarrow> response \<times> proxy" where
  "notify_deny e rc kind reason status ptype title asserted s =
     (let s1 = pinc e ''acb_notify_denied_total'' [(''kind'', kind), (''reason'', reason)] s;
          s2 = pemit e (base_event ''notify.denied'' (rc_RequestID rc) (Some (rc_Subject rc)) (Some (rc_Source rc))
                 [(''kind'', JStr kind), (''reason'', JStr reason), (''decision'', JStr ''denied''),
                  (''policy_hash'', JStr (np_Hash (px_policy s)))] asserted) s1
      in (notify_writeProblem status ptype title [] (rc_RequestID rc), s2))"

definition forwarded_attested :: "NotifyPolicy \<Rightarrow> string \<Rightarrow> string \<Rightarrow> string \<Rightarrow> int \<Rightarrow> bool \<Rightarrow> string \<Rightarrow> string \<Rightarrow>
    (string \<times> json) list" where
  "forwarded_attested pol kind domain service status delivered leaseID errClass =
     [(''kind'', JStr kind), (''ha_domain'', JStr domain), (''ha_service'', JStr service),
      (''ha_status'', JInt status), (''delivered'', JBool delivered), (''policy_hash'', JStr (np_Hash pol))] @
     (if leaseID \<noteq> [] then [(''lease_id'', JStr leaseID)] else []) @
     (if errClass \<noteq> [] then [(''error'', JStr errClass)] else [])"

definition emitForwarded :: "proxy_env \<Rightarrow> reqctx \<Rightarrow> string \<Rightarrow> string \<Rightarrow> string \<Rightarrow> int \<Rightarrow> bool \<Rightarrow> string \<Rightarrow> string \<Rightarrow>
    proxy \<Rightarrow> proxy" where
  "emitForwarded e rc kind domain service status delivered leaseID errClass s =
     pemit e (base_event ''notify.forwarded'' (rc_RequestID rc) (Some (rc_Subject rc)) (Some (rc_Source rc))
       (forwarded_attested (px_policy s) kind domain service status delivered leaseID errClass) []) s"

definition lease_context :: "Subject \<Rightarrow> string \<Rightarrow> string \<Rightarrow> string \<Rightarrow> string gomap" where
  "lease_context sub kind domain service =
     [(''originating_agent'', Key sub), (''action'', kind), (''ha_service'', domain @ ''/'' @ service)] @
     (if sub_Pod sub \<noteq> [] then [(''originating_pod'', sub_Pod sub)] else [])"

definition forward :: "proxy_env \<Rightarrow> reqctx \<Rightarrow> string \<Rightarrow> string \<Rightarrow> string \<Rightarrow> (string \<times> json) list \<Rightarrow>
    proxy \<Rightarrow> response \<times> proxy" where
  "forward e rc kind domain service haBody s =
     (let (reqs, leased) = LeaseClient_Lease (pe_up e (px_tick s)) (px_lease s) (lease_context (rc_Subject rc) kind domain service);
          s1 = psend reqs s
      in case leased of
           Inl err \<Rightarrow>
             let s2 = pinc e ''acb_notify_lease_errors_total'' [] s1;
                 s3 = emitForwarded e rc kind domain service 0 False [] ''lease-failed'' s2
             in (notify_writeProblem 502 ProblemUpstreamFailure ''could not obtain notify credential'' [] (rc_RequestID rc), s3)
         | Inr lease \<Rightarrow>
             let (calls, status, callErr) = HA_Call (pe_up e (px_tick s1)) (px_ha s1) (nl_Token lease) domain service haBody;
                 s2 = psend calls s1;
                 delivered = (callErr = None \<and> status \<ge> 200 \<and> status < 300);
                 errClass = (if callErr \<noteq> None then ''ha-unreachable'' else if \<not> delivered then ''ha-status'' else []);
                 s3 = emitForwarded e rc kind domain service status delivered (nl_LeaseID lease) errClass s2
             in if \<not> delivered then
                  (notify_writeProblem 502 ProblemUpstreamFailure ''notification not delivered'' [] (rc_RequestID rc),
                   pinc e ''acb_notify_ha_errors_total'' [(''kind'', kind)] s3)
                else
                  (notify_writeJSON [(''Cache-Control'', ''no-store'')] 201
                     (JMap [(''delivered'', JBool True), (''request_id'', JStr (rc_RequestID rc))]),
                   pinc e ''acb_notify_forwarded_total'' [(''kind'', kind)] s3))"

text \<open>\<open>None\<close> when the request may go on, the response otherwise.\<close>

definition rateOK :: "proxy_env \<Rightarrow> reqctx \<Rightarrow> proxy \<Rightarrow> response option \<times> proxy" where
  "rateOK e rc s =
     (let (ok, s1) = pallow_limiter e (Key (rc_Subject rc)) s
      in if ok then (None, s1)
         else let s2 = pinc e ''acb_notify_rate_limited_total'' [(''subject'', Key (rc_Subject rc))] s1;
                  (log, s3) = pallow_rlAudit e (Key (rc_Subject rc)) s2;
                  s4 = (if log then pemit e (base_event ''notify.denied'' (rc_RequestID rc) (Some (rc_Subject rc)) (Some (rc_Source rc))
                          [(''reason'', JStr ''rate-limited''), (''decision'', JStr ''denied''), (''aggregated'', JBool True),
                           (''policy_hash'', JStr (np_Hash (px_policy s3)))] []) s3
                        else s3)
              in (Some (notify_writeProblem 429 ProblemRateLimited ''notify rate limit exceeded'' [] (rc_RequestID rc)), s4))"

definition idAllowed :: "NotifyPolicy \<Rightarrow> Subject \<Rightarrow> string \<Rightarrow> string \<Rightarrow> bool" where
  "idAllowed pol sub kind nid =
     (case NotifyGrantOf pol (Key sub) kind of
        None \<Rightarrow> False
      | Some g \<Rightarrow> nid \<noteq> [] \<and> HasPrefix nid (ng_IDPrefix g))"

definition push_body :: "pushReq \<Rightarrow> (string \<times> json) list" where
  "push_body req =
     [(''title'', JStr (pq_Title req)), (''message'', JStr (pq_Message req))] @
     (if length (pq_Data req) > 0 then [(''data'', JStrMap (Some (pq_Data req)))] else [])"

definition handlePush :: "proxy_env \<Rightarrow> reqctx \<Rightarrow> string \<Rightarrow> proxy \<Rightarrow> response \<times> proxy" where
  "handlePush e rc body s =
     (case rateOK e rc s of
        (Some resp, s1) \<Rightarrow> (resp, s1)
      | (None, s1) \<Rightarrow>
          (case decode_body push_field \<lparr>pq_Title = [], pq_Message = [], pq_Data = []\<rparr> s1 body of
             None \<Rightarrow> notify_deny e rc KindPush ''bad-body'' 400 ProblemBadRequest ''invalid request body'' [] s1
           | Some req \<Rightarrow>
               let target = PushTarget (px_policy s1) (Key (rc_Subject rc))
               in if target = [] then notify_deny e rc KindPush ''no-grant'' 403 ProblemGrantDenied ''not permitted'' [] s1
                  else case find (\<lambda>k. \<not> List.member allowedPushDataKeys k) (pe_range e (px_tick s1) (map fst (pq_Data req))) of
                    Some k \<Rightarrow>
                      notify_deny e rc KindPush ''bad-data-key'' 400 ProblemBadRequest ''unsupported data key'' [(''data_key'', k)] (ptick s1)
                  | None \<Rightarrow> forward e rc KindPush ''notify'' target (push_body req) (ptick s1)))"

definition handlePersistentCreate :: "proxy_env \<Rightarrow> reqctx \<Rightarrow> string \<Rightarrow> proxy \<Rightarrow> response \<times> proxy" where
  "handlePersistentCreate e rc body s =
     (case rateOK e rc s of
        (Some resp, s1) \<Rightarrow> (resp, s1)
      | (None, s1) \<Rightarrow>
          (case decode_body persist_field \<lparr>sq_NotificationID = [], sq_Title = [], sq_Message = []\<rparr> s1 body of
             None \<Rightarrow> notify_deny e rc KindPersistentCreate ''bad-body'' 400 ProblemBadRequest ''invalid request body'' [] s1
           | Some req \<Rightarrow>
               if \<not> idAllowed (px_policy s1) (rc_Subject rc) KindPersistentCreate (sq_NotificationID req) then
                 notify_deny e rc KindPersistentCreate ''no-grant-or-prefix'' 403 ProblemGrantDenied ''not permitted''
                   [(''requested_notification_id'', sq_NotificationID req)] s1
               else forward e rc KindPersistentCreate ''persistent_notification'' ''create''
                      [(''notification_id'', JStr (sq_NotificationID req)), (''title'', JStr (sq_Title req)),
                       (''message'', JStr (sq_Message req))] s1))"

definition handlePersistentDismiss :: "proxy_env \<Rightarrow> reqctx \<Rightarrow> string \<Rightarrow> proxy \<Rightarrow> response \<times> proxy" where
  "handlePersistentDismiss e rc body s =
     (case rateOK e rc s of
        (Some resp, s1) \<Rightarrow> (resp, s1)
      | (None, s1) \<Rightarrow>
          (case decode_body dismiss_field \<lparr>dq_NotificationID = []\<rparr> s1 body of
             None \<Rightarrow> notify_deny e rc KindPersistentDismiss ''bad-body'' 400 ProblemBadRequest ''invalid request body'' [] s1
           | Some req \<Rightarrow>
               if \<not> idAllowed (px_policy s1) (rc_Subject rc) KindPersistentDismiss (dq_NotificationID req) then
                 notify_deny e rc KindPersistentDismiss ''no-grant-or-prefix'' 403 ProblemGrantDenied ''not permitted''
                   [(''requested_notification_id'', dq_NotificationID req)] s1
               else forward e rc KindPersistentDismiss ''persistent_notification'' ''dismiss''
                      [(''notification_id'', JStr (dq_NotificationID req))] s1))"

definition EmitStarted :: "proxy_env \<Rightarrow> proxy \<Rightarrow> proxy" where
  "EmitStarted e s =
     pemit e (base_event ''proxy.started'' [] None None
       [(''policy_hash'', JStr (np_Hash (px_policy s))), (''kid'', JStr (sg_kid (px_signer s))),
        (''public_key'', JStr (PublicBase64 (px_signer s)))] []) s"

section \<open>The API and the health endpoints\<close>

datatype notify_route = PostPush string | PostPersistent string | PostDismiss string

fun notify_mux :: "proxy_env \<Rightarrow> notify_route \<Rightarrow> reqctx \<Rightarrow> proxy \<Rightarrow> response \<times> proxy" where
  "notify_mux e (PostPush body) rc s = handlePush e rc body s"
| "notify_mux e (PostPersistent body) rc s = handlePersistentCreate e rc body s"
| "notify_mux e (PostDismiss body) rc s = handlePersistentDismiss e rc body s"

definition Notify_Handler :: "proxy_env \<Rightarrow> http_in \<Rightarrow> notify_route \<Rightarrow> proxy \<Rightarrow> response \<times> proxy" where
  "Notify_Handler e r rt s = notify_withRequestID e r (notify_withAuth e r (notify_mux e rt)) s"

datatype notify_health_route = NHealthz | NReadyz | NMetrics | NVerifyKey

fun Notify_HealthHandler :: "(float64 \<Rightarrow> string) \<Rightarrow> bool \<Rightarrow> notify_health_route \<Rightarrow> proxy \<Rightarrow> response" where
  "Notify_HealthHandler fmt_g ready NHealthz s = writeHeader 200"
| "Notify_HealthHandler fmt_g ready NReadyz s = (if ready then writeHeader 200 else writeHeader 503)"
| "Notify_HealthHandler fmt_g ready NMetrics s =
     \<lparr>rp_status = 200, rp_header = [(''Content-Type'', ''text/plain; version=0.0.4; charset=utf-8'')],
      rp_body = BText (ServeHTTP fmt_g (px_metrics s))\<rparr>"
| "Notify_HealthHandler fmt_g ready NVerifyKey s =
     notify_writeJSON [] 200
       (JMap [(''keys'', JArr [JStrMap (Some [(''kid'', sg_kid (px_signer s)), (''alg'', ''Ed25519''),
          (''public_key'', PublicBase64 (px_signer s))])])])"

end
