(* ===== verification/Notify_Gate.thy ===== *)
theory Notify_Gate
  imports Notify_Server
begin

text \<open>
  How a request to the notification proxy ends (\<open>notify_mux_cases\<close>), what it makes the proxy send
  (\<open>notify_mux_sent\<close>) and what it adds to the audit stream (\<open>attempted_committed\<close>).
\<close>

section \<open>What the steps leave alone\<close>

lemma ptick_frame [simp, frame]:
  "px_cfg (ptick s) = px_cfg s" "px_policy (ptick s) = px_policy s" "px_ha (ptick s) = px_ha s" "px_lease (ptick s) = px_lease s"
  "px_emitter (ptick s) = px_emitter s" "px_sent (ptick s) = px_sent s" "px_limiter (ptick s) = px_limiter s"
  "px_tick (ptick s) = Suc (px_tick s)"
  by (simp_all add: ptick_def)

lemma pinc_frame [simp, frame]:
  "px_cfg (pinc e n ls s) = px_cfg s" "px_policy (pinc e n ls s) = px_policy s" "px_ha (pinc e n ls s) = px_ha s"
  "px_lease (pinc e n ls s) = px_lease s" "px_emitter (pinc e n ls s) = px_emitter s" "px_sent (pinc e n ls s) = px_sent s"
  "px_limiter (pinc e n ls s) = px_limiter s" "px_tick (pinc e n ls s) = px_tick s"
  by (simp_all add: pinc_def)

lemma pinc_hooks_frame:
  "px_cfg (fold (\<lambda>t. pinc e n (f t)) hs s) = px_cfg s" "px_policy (fold (\<lambda>t. pinc e n (f t)) hs s) = px_policy s"
  "px_ha (fold (\<lambda>t. pinc e n (f t)) hs s) = px_ha s" "px_lease (fold (\<lambda>t. pinc e n (f t)) hs s) = px_lease s"
  "px_emitter (fold (\<lambda>t. pinc e n (f t)) hs s) = px_emitter s" "px_sent (fold (\<lambda>t. pinc e n (f t)) hs s) = px_sent s"
  "px_limiter (fold (\<lambda>t. pinc e n (f t)) hs s) = px_limiter s" "px_tick (fold (\<lambda>t. pinc e n (f t)) hs s) = px_tick s"
  by (induction hs arbitrary: s) simp_all

lemma pemit_frame [simp, frame]:
  "px_cfg (pemit e ev s) = px_cfg s" "px_policy (pemit e ev s) = px_policy s" "px_ha (pemit e ev s) = px_ha s"
  "px_lease (pemit e ev s) = px_lease s" "px_sent (pemit e ev s) = px_sent s" "px_limiter (pemit e ev s) = px_limiter s"
  "px_tick (pemit e ev s) = Suc (px_tick s)"
  by (simp_all add: pemit_def split_beta Let_def pinc_hooks_frame)

lemma pemit_emitter:
  "px_emitter (pemit e ev s) = snd (snd (Emit (pe_crypto e) (pnow e s) (pe_write e (px_tick s)) ev (px_emitter s)))"
  by (simp add: pemit_def split_beta Let_def pinc_hooks_frame)

lemma pallow_frame [simp, frame]:
  "px_cfg (snd (pallow_limiter e k s)) = px_cfg s" "px_policy (snd (pallow_limiter e k s)) = px_policy s"
  "px_ha (snd (pallow_limiter e k s)) = px_ha s" "px_lease (snd (pallow_limiter e k s)) = px_lease s"
  "px_emitter (snd (pallow_limiter e k s)) = px_emitter s" "px_sent (snd (pallow_limiter e k s)) = px_sent s"
  "px_tick (snd (pallow_limiter e k s)) = Suc (px_tick s)"
  "px_policy (snd (pallow_authFail e k s)) = px_policy s" "px_sent (snd (pallow_authFail e k s)) = px_sent s"
  "px_policy (snd (pallow_rlAudit e k s)) = px_policy s" "px_sent (snd (pallow_rlAudit e k s)) = px_sent s"
  "px_limiter (snd (pallow_rlAudit e k s)) = px_limiter s" "px_tick (snd (pallow_rlAudit e k s)) = Suc (px_tick s)"
  by (simp_all add: pallow_limiter_def pallow_authFail_def pallow_rlAudit_def split_beta Let_def)

lemma psend_frame [simp, frame]:
  "px_cfg (psend qs s) = px_cfg s" "px_policy (psend qs s) = px_policy s" "px_ha (psend qs s) = px_ha s"
  "px_lease (psend qs s) = px_lease s" "px_emitter (psend qs s) = px_emitter s" "px_sent (psend qs s) = px_sent s @ qs"
  "px_limiter (psend qs s) = px_limiter s" "px_tick (psend qs s) = Suc (px_tick s)"
  by (simp_all add: psend_def)

lemma notify_recordAuthFailure_sent [simp]: "px_sent (notify_recordAuthFailure e rid src why s) = px_sent s"
  by (simp add: notify_recordAuthFailure_def split_beta Let_def)

lemma emitForwarded_frame [simp, frame]:
  "px_sent (emitForwarded e rc k d sv st dl li er s) = px_sent s" "px_policy (emitForwarded e rc k d sv st dl li er s) = px_policy s"
  "px_limiter (emitForwarded e rc k d sv st dl li er s) = px_limiter s"
  "px_tick (emitForwarded e rc k d sv st dl li er s) = Suc (px_tick s)"
  by (simp_all add: emitForwarded_def)

lemma notify_deny_frame [simp, frame]:
  "px_sent (snd (notify_deny e rc k why st pt ti ass s)) = px_sent s"
  "px_limiter (snd (notify_deny e rc k why st pt ti ass s)) = px_limiter s"
  "px_tick (snd (notify_deny e rc k why st pt ti ass s)) = Suc (px_tick s)"
  "fst (notify_deny e rc k why st pt ti ass s) = notify_writeProblem st pt ti [] (rc_RequestID rc)"
  by (simp_all add: notify_deny_def Let_def)

lemma notify_response_simps [simp]:
  "rp_status (notify_writeProblem st pt ti d rid) = st" "rp_status (notify_writeJSON h st v) = st"
  by (simp_all add: notify_writeProblem_def notify_writeJSON_def)

text \<open>The limiter decides; only a refusal touches anything else.\<close>

lemma rateOK_cases:
  obtains (ok) "rateOK e rc s = (None, snd (pallow_limiter e (Key (rc_Subject rc)) s))"
      "fst (Allow (pnow e s) (Key (rc_Subject rc)) (px_limiter s))"
  | (limited) s1 where
      "rateOK e rc s = (Some (notify_writeProblem 429 ProblemRateLimited ''notify rate limit exceeded'' [] (rc_RequestID rc)), s1)"
      "px_sent s1 = px_sent s" "px_limiter s1 = snd (Allow (pnow e s) (Key (rc_Subject rc)) (px_limiter s))"
      "px_tick s < px_tick s1" "\<not> fst (Allow (pnow e s) (Key (rc_Subject rc)) (px_limiter s))"
proof (cases "fst (Allow (pnow e s) (Key (rc_Subject rc)) (px_limiter s))")
  case True
  then show ?thesis using ok by (simp add: rateOK_def pallow_limiter_def split_beta Let_def)
next
  case False
  have l: "fst (pallow_limiter e (Key (rc_Subject rc)) s) \<longleftrightarrow> fst (Allow (pnow e s) (Key (rc_Subject rc)) (px_limiter s))"
    "px_limiter (snd (pallow_limiter e (Key (rc_Subject rc)) s)) = snd (Allow (pnow e s) (Key (rc_Subject rc)) (px_limiter s))"
    by (simp_all add: pallow_limiter_def split_beta Let_def)
  show ?thesis
    by (rule limited [of "snd (rateOK e rc s)"]) (use False in \<open>simp_all add: rateOK_def split_beta Let_def l\<close>)
qed

section \<open>Forwarding\<close>

text \<open>The requests of a forwarded notification: the lease, and then at most the one call.\<close>

definition forwards :: "proxy \<Rightarrow> Subject \<Rightarrow> string \<Rightarrow> string \<Rightarrow> string \<Rightarrow> (string \<times> json) list \<Rightarrow> http_request list \<Rightarrow> bool" where
  "forwards s sub kind domain service body qs \<longleftrightarrow>
     (\<exists>own. qs = [lease_request (px_lease s) own (lease_context sub kind domain service)] \<or>
        (\<exists>token. haAllowed domain service \<and>
           qs = [lease_request (px_lease s) own (lease_context sub kind domain service),
                 ha_request (px_ha s) token domain service body]))"

lemma lease_sends:
  "fst (LeaseClient_Lease up lc ctx) = [] \<or> (\<exists>own. fst (LeaseClient_Lease up lc ctx) = [lease_request lc own ctx])"
  "snd (LeaseClient_Lease up lc ctx) = Inr l \<Longrightarrow> \<exists>own. fst (LeaseClient_Lease up lc ctx) = [lease_request lc own ctx]"
  using leasing.sends [of up "(lc, ctx)"] leasing.success_sent [of up "(lc, ctx)"]
  by (auto simp: lease_call_def)

lemma ha_sends:
  "fst (HA_Call up h tok d sv body) = [] \<or> (fst (HA_Call up h tok d sv body) = [ha_request h tok d sv body] \<and> haAllowed d sv)"
  using calling.sends [of up "(h, tok, d, sv, body)"] HA_Call_allowed [of up h tok d sv body]
  by (auto simp: ha_call_def)

lemma forward_sent:
  "\<exists>qs. px_sent (snd (forward e rc kind domain service body s)) = px_sent s @ qs \<and>
     (qs = [] \<or> forwards s (rc_Subject rc) kind domain service body qs)"
proof -
  let ?L = "LeaseClient_Lease (pe_up e (px_tick s)) (px_lease s) (lease_context (rc_Subject rc) kind domain service)"
  show ?thesis
  proof (cases "snd ?L")
    case (Inl err)
    then have "px_sent (snd (forward e rc kind domain service body s)) = px_sent s @ fst ?L"
      by (simp add: forward_def split_beta Let_def)
    then show ?thesis using lease_sends(1) by (auto simp: forwards_def)
  next
    case (Inr l)
    let ?H = "HA_Call (pe_up e (Suc (px_tick s))) (px_ha s) (nl_Token l) domain service body"
    have "px_sent (snd (forward e rc kind domain service body s)) = px_sent s @ fst ?L @ fst ?H"
      using Inr by (simp add: forward_def split_beta Let_def)
    moreover obtain own where "fst ?L = [lease_request (px_lease s) own (lease_context (rc_Subject rc) kind domain service)]"
      using lease_sends(2) [OF Inr] by blast
    ultimately show ?thesis using ha_sends [of "pe_up e (Suc (px_tick s))" "px_ha s" "nl_Token l" domain service body]
      by (auto simp: forwards_def)
  qed
qed

section \<open>The decision of a handler\<close>

text \<open>What the policy lets a subject ask of Home Assistant.\<close>

definition permitted :: "NotifyPolicy \<Rightarrow> Subject \<Rightarrow> string \<Rightarrow> string \<Rightarrow> string \<Rightarrow> (string \<times> json) list \<Rightarrow> bool" where
  "permitted pol sub kind domain service body \<longleftrightarrow>
     (\<exists>g. NotifyGrantOf pol (Key sub) kind = Some g \<and>
        (kind = KindPush \<and> domain = ''notify'' \<and> ng_Targets g \<noteq> [] \<and> service = hd (ng_Targets g) \<and>
         (\<exists>req. body = push_body req \<and> fst ` set (pq_Data req) \<subseteq> {''group'', ''tag'', ''url''}) \<or>
         domain = ''persistent_notification'' \<and>
         (kind = KindPersistentCreate \<and> service = ''create'' \<or> kind = KindPersistentDismiss \<and> service = ''dismiss'') \<and>
         (\<exists>nid. map_of body ''notification_id'' = Some (JStr nid) \<and> nid \<noteq> [] \<and> HasPrefix nid (ng_IDPrefix g))))"

text \<open>The state in which an admitted request is decided.\<close>

definition after_rate :: "proxy_env \<Rightarrow> reqctx \<Rightarrow> proxy \<Rightarrow> proxy \<Rightarrow> bool" where
  "after_rate e rc s s1 \<longleftrightarrow>
     fst (Allow (pnow e s) (Key (rc_Subject rc)) (px_limiter s)) \<and>
     px_limiter s1 = snd (Allow (pnow e s) (Key (rc_Subject rc)) (px_limiter s)) \<and>
     px_policy s1 = px_policy s \<and> px_ha s1 = px_ha s \<and> px_lease s1 = px_lease s \<and> px_emitter s1 = px_emitter s \<and>
     px_sent s1 = px_sent s \<and> px_tick s < px_tick s1"

lemma after_rate_allow:
  assumes "fst (Allow (pnow e s) (Key (rc_Subject rc)) (px_limiter s))"
  shows "after_rate e rc s (snd (pallow_limiter e (Key (rc_Subject rc)) s))"
    "after_rate e rc s (ptick (snd (pallow_limiter e (Key (rc_Subject rc)) s)))"
  using assms by (simp_all add: after_rate_def) (simp_all add: pallow_limiter_def split_beta Let_def)

definition order_of_range :: "proxy_env \<Rightarrow> bool" where
  "order_of_range e \<longleftrightarrow> (\<forall>k xs. set (pe_range e k xs) = set xs)"

lemma idAllowed_permitted:
  assumes "idAllowed pol sub kind nid" "map_of body ''notification_id'' = Some (JStr nid)"
    and "kind = KindPersistentCreate \<and> service = ''create'' \<or> kind = KindPersistentDismiss \<and> service = ''dismiss''"
  shows "permitted pol sub kind ''persistent_notification'' service body"
  using assms by (auto simp: idAllowed_def permitted_def split: option.splits)

lemma push_permitted:
  assumes "PushTarget pol (Key sub) \<noteq> []" "order_of_range e"
    and "find (\<lambda>k. \<not> List.member allowedPushDataKeys k) (pe_range e n (map fst (pq_Data req))) = None"
  shows "permitted pol sub KindPush ''notify'' (PushTarget pol (Key sub)) (push_body req)"
proof -
  have "\<forall>k \<in> set (map fst (pq_Data req)). k \<in> set allowedPushDataKeys"
    using assms(2,3) by (auto simp: order_of_range_def find_None_iff List.member_iff)
  then have "fst ` set (pq_Data req) \<subseteq> {''group'', ''tag'', ''url''}" by (auto simp: allowedPushDataKeys_def)
  then show ?thesis using gate.target_granted [OF assms(1)] unfolding permitted_def by blast
qed

text \<open>How a request ends: throttled, denied, or forwarded as the policy permits.\<close>

definition decided :: "proxy_env \<Rightarrow> reqctx \<Rightarrow> proxy \<Rightarrow> response \<times> proxy \<Rightarrow> bool" where
  "decided e rc s result \<longleftrightarrow>
     (\<exists>s1. result = (notify_writeProblem 429 ProblemRateLimited ''notify rate limit exceeded'' [] (rc_RequestID rc), s1) \<and>
        px_sent s1 = px_sent s \<and> px_limiter s1 = snd (Allow (pnow e s) (Key (rc_Subject rc)) (px_limiter s)) \<and>
        px_tick s < px_tick s1) \<or>
     (\<exists>s1 kind why st pt ti ass. result = notify_deny e rc kind why st pt ti ass s1 \<and> after_rate e rc s s1 \<and> (st = 400 \<or> st = 403)) \<or>
     (\<exists>s1 kind domain service body. result = forward e rc kind domain service body s1 \<and> after_rate e rc s s1 \<and>
        permitted (px_policy s) (rc_Subject rc) kind domain service body)"

lemma decided_limited:
  assumes "px_sent s1 = px_sent s" "px_limiter s1 = snd (Allow (pnow e s) (Key (rc_Subject rc)) (px_limiter s))" "px_tick s < px_tick s1"
  shows "decided e rc s (notify_writeProblem 429 ProblemRateLimited ''notify rate limit exceeded'' [] (rc_RequestID rc), s1)"
  using assms unfolding decided_def by blast

lemma decided_denied:
  assumes "after_rate e rc s s1" "st = 400 \<or> st = 403"
  shows "decided e rc s (notify_deny e rc kind why st pt ti ass s1)"
  using assms unfolding decided_def by blast

lemma decided_forwarded:
  assumes "after_rate e rc s s1" "permitted (px_policy s) (rc_Subject rc) kind domain service body"
  shows "decided e rc s (forward e rc kind domain service body s1)"
  using assms unfolding decided_def by blast

lemma handlePush_decided:
  assumes "order_of_range e"
  shows "decided e rc s (handlePush e rc body s)"
proof (cases rule: rateOK_cases [of e rc s])
  case (limited s1)
  then show ?thesis by (simp add: handlePush_def decided_limited)
next
  case ok
  note after = after_rate_allow [OF ok(2)]
  let ?s1 = "snd (pallow_limiter e (Key (rc_Subject rc)) s)"
  show ?thesis
  proof (cases "decode_body push_field \<lparr>pq_Title = [], pq_Message = [], pq_Data = []\<rparr> ?s1 body")
    case (Some req)
    let ?bad = "find (\<lambda>k. \<not> List.member allowedPushDataKeys k) (pe_range e (px_tick ?s1) (map fst (pq_Data req)))"
    show ?thesis
    proof (cases "PushTarget (px_policy s) (Key (rc_Subject rc)) = [] \<or> ?bad \<noteq> None")
      case True
      then show ?thesis using after Some
        by (cases ?bad) (auto simp: handlePush_def ok(1) Let_def intro!: decided_denied split del: if_split split: if_split)
    next
      case False
      then have "permitted (px_policy s) (rc_Subject rc) KindPush ''notify'' (PushTarget (px_policy s) (Key (rc_Subject rc))) (push_body req)"
        using push_permitted [OF _ assms] by blast
      then show ?thesis using after Some False by (auto simp: handlePush_def ok(1) intro!: decided_forwarded)
    qed
  qed (use after in \<open>simp add: handlePush_def ok(1) decided_denied\<close>)
qed

lemma handlePersistentCreate_decided: "decided e rc s (handlePersistentCreate e rc body s)"
proof (cases rule: rateOK_cases [of e rc s])
  case (limited s1)
  then show ?thesis by (simp add: handlePersistentCreate_def decided_limited)
next
  case ok
  note after = after_rate_allow [OF ok(2)]
  show ?thesis
    using after
    by (auto simp: handlePersistentCreate_def ok(1) intro!: decided_denied decided_forwarded idAllowed_permitted
        split: option.split)
qed

lemma handlePersistentDismiss_decided: "decided e rc s (handlePersistentDismiss e rc body s)"
proof (cases rule: rateOK_cases [of e rc s])
  case (limited s1)
  then show ?thesis by (simp add: handlePersistentDismiss_def decided_limited)
next
  case ok
  note after = after_rate_allow [OF ok(2)]
  show ?thesis
    using after
    by (auto simp: handlePersistentDismiss_def ok(1) intro!: decided_denied decided_forwarded idAllowed_permitted
        split: option.split)
qed

lemma notify_mux_decided: "order_of_range e \<Longrightarrow> decided e rc s (notify_mux e rt rc s)"
  by (cases rt) (simp_all add: handlePush_decided handlePersistentCreate_decided handlePersistentDismiss_decided)

lemma notify_mux_cases [consumes 1]:
  assumes "order_of_range e"
  obtains (limited) s1 where
      "notify_mux e rt rc s = (notify_writeProblem 429 ProblemRateLimited ''notify rate limit exceeded'' [] (rc_RequestID rc), s1)"
      "px_sent s1 = px_sent s" "px_limiter s1 = snd (Allow (pnow e s) (Key (rc_Subject rc)) (px_limiter s))"
      "px_tick s < px_tick s1"
  | (denied) kind why st pt ti ass s1 where "notify_mux e rt rc s = notify_deny e rc kind why st pt ti ass s1"
      "after_rate e rc s s1" "st = 400 \<or> st = 403"
  | (forwarded) kind domain service body s1 where "notify_mux e rt rc s = forward e rc kind domain service body s1"
      "after_rate e rc s s1" "permitted (px_policy s) (rc_Subject rc) kind domain service body"
  using notify_mux_decided [OF assms, of rc s rt] unfolding decided_def by blast

section \<open>The calls the proxy can make\<close>

lemma forwards_after: "after_rate e rc s s1 \<Longrightarrow> forwards s1 = forwards s"
  by (simp add: fun_eq_iff forwards_def after_rate_def)

lemma forwards_tick: "forwards (ptick (ptick s)) = forwards s"
  by (simp add: fun_eq_iff forwards_def)

lemma notify_mux_sent:
  assumes "order_of_range e"
  shows "\<exists>qs. px_sent (snd (notify_mux e rt rc s)) = px_sent s @ qs \<and>
    (qs = [] \<or> (\<exists>kind domain service body. permitted (px_policy s) (rc_Subject rc) kind domain service body \<and>
       forwards s (rc_Subject rc) kind domain service body qs))"
  using assms
proof (cases rule: notify_mux_cases [of e rt rc s])
  case (denied kind why st pt ti ass s1)
  then show ?thesis by (simp add: after_rate_def)
next
  case (forwarded kind domain service body s1)
  moreover have "px_sent s1 = px_sent s" using forwarded(2) by (simp add: after_rate_def)
  ultimately show ?thesis
    using forward_sent [of e rc kind domain service body s1] forwards_after [OF forwarded(2)] by auto
qed simp

text \<open>What the middleware lets through.\<close>

lemma Notify_Handler_accepted:
  assumes "hi_Authorization r = ''Bearer '' @ token" "token \<noteq> []" "pe_authn e (Suc (px_tick s)) token = Inr sub"
  obtains rc where "rc_Subject rc = sub" "rc_RequestID rc = ''req_'' @ hex_encode (pe_rand e (px_tick s) 8)"
    "rp_status (fst (Notify_Handler e r rt s)) = rp_status (fst (notify_mux e rt rc (ptick (ptick s))))"
    "rp_body (fst (Notify_Handler e r rt s)) = rp_body (fst (notify_mux e rt rc (ptick (ptick s))))"
    "snd (Notify_Handler e r rt s) = snd (notify_mux e rt rc (ptick (ptick s)))"
proof (rule that)
  let ?rc = "\<lparr>rc_Subject = sub, rc_RequestID = ''req_'' @ hex_encode (pe_rand e (px_tick s) 8),
    rc_Source = \<lparr>src_IP = case SplitHostPort (hi_RemoteAddr r) of None \<Rightarrow> hi_RemoteAddr r | Some h \<Rightarrow> h, src_UserAgent = hi_UserAgent r\<rparr>\<rparr>"
  have cut: "CutPrefix (hi_Authorization r) ''Bearer '' = (token, True)" by (simp add: assms(1) CutPrefix_def HasPrefix_def)
  show "rp_status (fst (Notify_Handler e r rt s)) = rp_status (fst (notify_mux e rt ?rc (ptick (ptick s))))"
    "rp_body (fst (Notify_Handler e r rt s)) = rp_body (fst (notify_mux e rt ?rc (ptick (ptick s))))"
    "snd (Notify_Handler e r rt s) = snd (notify_mux e rt ?rc (ptick (ptick s)))" "rc_Subject ?rc = sub"
    "rc_RequestID ?rc = ''req_'' @ hex_encode (pe_rand e (px_tick s) 8)"
    using assms(2,3) by (simp_all add: Notify_Handler_def notify_withRequestID_def notify_withAuth_def split_beta Let_def cut)
qed

lemma Notify_Handler_cases:
  obtains (refused) "rp_status (fst (Notify_Handler e r rt s)) = 401" "px_sent (snd (Notify_Handler e r rt s)) = px_sent s"
  | (accepted) token sub rc where "hi_Authorization r = ''Bearer '' @ token" "token \<noteq> []"
      "pe_authn e (Suc (px_tick s)) token = Inr sub" "rc_Subject rc = sub"
      "snd (Notify_Handler e r rt s) = snd (notify_mux e rt rc (ptick (ptick s)))"
proof (cases "\<exists>token sub. hi_Authorization r = ''Bearer '' @ token \<and> token \<noteq> [] \<and> pe_authn e (Suc (px_tick s)) token = Inr sub")
  case True
  then obtain token sub where t: "hi_Authorization r = ''Bearer '' @ token" "token \<noteq> []" "pe_authn e (Suc (px_tick s)) token = Inr sub"
    by blast
  show ?thesis by (rule Notify_Handler_accepted [OF t, where rt = rt]) (rule accepted [OF t])
next
  case False
  obtain token ok where cut: "CutPrefix (hi_Authorization r) ''Bearer '' = (token, ok)" by fastforce
  have "ok \<Longrightarrow> hi_Authorization r = ''Bearer '' @ token" using cut by (auto simp: CutPrefix_def HasPrefix_iff split: if_splits)
  then have "\<not> ok \<or> token = [] \<or> isl (pe_authn e (Suc (px_tick s)) token)"
    using False by (cases "pe_authn e (Suc (px_tick s)) token") auto
  then show ?thesis
    by (intro refused) (auto simp: Notify_Handler_def notify_withRequestID_def notify_withAuth_def split_beta Let_def cut split: sum.split)
qed

section \<open>The record of a decision\<close>

definition attempted :: "proxy_env \<Rightarrow> Event \<Rightarrow> Emitter \<Rightarrow> Emitter \<Rightarrow> bool" where
  "attempted e ev em em' \<longleftrightarrow> (\<exists>k. em' = snd (snd (Emit (pe_crypto e) (pe_clock e k) (pe_write e k) ev em)))"

lemma pemit_attempted: "px_emitter s = em \<Longrightarrow> attempted e ev em (px_emitter (pemit e ev s))"
  unfolding attempted_def pemit_emitter pnow_def by blast

lemma notify_deny_attempted:
  "\<exists>att. attempted e (base_event ''notify.denied'' (rc_RequestID rc) (Some (rc_Subject rc)) (Some (rc_Source rc)) att ass)
     (px_emitter s) (px_emitter (snd (notify_deny e rc kind why st pt ti ass s)))"
  unfolding notify_deny_def Let_def snd_conv by (rule exI, rule pemit_attempted) simp

lemma delivered_attested:
  "map_of (forwarded_attested pol kind domain service status dl li er) ''delivered'' = Some (JBool dl)"
  by (simp add: forwarded_attested_def)

definition ha_delivered :: "http_request list \<times> int \<times> ha_error option \<Rightarrow> bool" where
  "ha_delivered H \<longleftrightarrow> snd (snd H) = None \<and> 200 \<le> fst (snd H) \<and> fst (snd H) < 300"

text \<open>The two ways through \<open>forward\<close>: without a lease, and with one.\<close>

lemma forward_unleased:
  assumes "LeaseClient_Lease (pe_up e (px_tick s)) (px_lease s) (lease_context (rc_Subject rc) kind domain service) = (qs, Inl err)"
  shows "forward e rc kind domain service body s =
    (notify_writeProblem 502 ProblemUpstreamFailure ''could not obtain notify credential'' [] (rc_RequestID rc),
     emitForwarded e rc kind domain service 0 False [] ''lease-failed'' (pinc e ''acb_notify_lease_errors_total'' [] (psend qs s)))"
  by (simp add: forward_def assms)

lemma forward_leased:
  assumes "LeaseClient_Lease (pe_up e (px_tick s)) (px_lease s) (lease_context (rc_Subject rc) kind domain service) = (qs, Inr l)"
    and H_def: "H = HA_Call (pe_up e (Suc (px_tick s))) (px_ha s) (nl_Token l) domain service body"
  shows "\<exists>resp name errClass. forward e rc kind domain service body s =
      (resp, pinc e name [(''kind'', kind)]
         (emitForwarded e rc kind domain service (fst (snd H)) (ha_delivered H) (nl_LeaseID l) errClass (psend (fst H) (psend qs s)))) \<and>
    rp_status resp = (if ha_delivered H then 201 else 502)"
proof (cases "ha_delivered H")
  case True
  then show ?thesis unfolding H_def ha_delivered_def by (simp add: forward_def assms split_beta Let_def) blast
next
  case False
  then show ?thesis unfolding H_def ha_delivered_def by (simp add: forward_def assms split_beta Let_def) blast
qed

lemma emitForwarded_attempted:
  assumes "px_emitter s = em"
  shows "\<exists>att. attempted e (base_event ''notify.forwarded'' (rc_RequestID rc) (Some (rc_Subject rc)) (Some (rc_Source rc)) att [])
      em (px_emitter (emitForwarded e rc kind domain service st dl li er s)) \<and> map_of att ''delivered'' = Some (JBool dl)"
  using pemit_attempted [OF assms] delivered_attested unfolding emitForwarded_def by blast

lemma forward_attempted:
  "\<exists>att. attempted e (base_event ''notify.forwarded'' (rc_RequestID rc) (Some (rc_Subject rc)) (Some (rc_Source rc)) att [])
     (px_emitter s) (px_emitter (snd (forward e rc kind domain service body s))) \<and>
   map_of att ''delivered'' = Some (JBool (rp_status (fst (forward e rc kind domain service body s)) = 201)) \<and>
   rp_status (fst (forward e rc kind domain service body s)) \<in> {201, 502}"
proof -
  obtain qs r where L: "LeaseClient_Lease (pe_up e (px_tick s)) (px_lease s) (lease_context (rc_Subject rc) kind domain service) = (qs, r)"
    by fastforce
  show ?thesis
  proof (cases r)
    case (Inl err)
    show ?thesis
      unfolding forward_unleased [OF L [unfolded Inl]]
      using emitForwarded_attempted [of "pinc e ''acb_notify_lease_errors_total'' [] (psend qs s)" "px_emitter s" e rc] by simp
  next
    case (Inr l)
    let ?H = "HA_Call (pe_up e (Suc (px_tick s))) (px_ha s) (nl_Token l) domain service body"
    obtain resp name er where f: "forward e rc kind domain service body s = (resp, pinc e name [(''kind'', kind)]
          (emitForwarded e rc kind domain service (fst (snd ?H)) (ha_delivered ?H) (nl_LeaseID l) er (psend (fst ?H) (psend qs s))))"
        "rp_status resp = (if ha_delivered ?H then 201 else 502)"
      using forward_leased [OF L [unfolded Inr] refl, of body] by blast
    show ?thesis
      using emitForwarded_attempted [of "psend (fst ?H) (psend qs s)" "px_emitter s" e rc] unfolding f(1) by (simp add: f(2))
  qed
qed

lemma HA_Call_delivered:
  assumes "ha_delivered (HA_Call up h token domain service body)"
  shows "\<exists>resp. fst (HA_Call up h token domain service body) = [ha_request h token domain service body] \<and>
    pu_do up (ha_request h token domain service body) = Inr resp \<and> 200 \<le> hr_status resp \<and> hr_status resp < 300"
  using assms by (auto simp: ha_delivered_def HA_Call_def Let_def split: if_splits sum.splits)

lemma forward_delivered:
  assumes "rp_status (fst (forward e rc kind domain service body s)) = 201"
  shows "\<exists>lease call k resp. px_sent (snd (forward e rc kind domain service body s)) = px_sent s @ [lease, call] \<and>
    pu_do (pe_up e k) call = Inr resp \<and> 200 \<le> hr_status resp \<and> hr_status resp < 300"
proof -
  obtain qs r where L: "LeaseClient_Lease (pe_up e (px_tick s)) (px_lease s) (lease_context (rc_Subject rc) kind domain service) = (qs, r)"
    by fastforce
  then obtain l where r: "r = Inr l" using assms forward_unleased [of e s rc kind domain service] by (cases r) auto
  let ?H = "HA_Call (pe_up e (Suc (px_tick s))) (px_ha s) (nl_Token l) domain service body"
  have f: "ha_delivered ?H" "px_sent (snd (forward e rc kind domain service body s)) = px_sent s @ qs @ fst ?H"
    using forward_leased [OF L [unfolded r] refl, of body] assms by (auto split: if_splits)
  obtain own where "qs = [lease_request (px_lease s) own (lease_context (rc_Subject rc) kind domain service)]"
    using lease_sends(2) [of "pe_up e (px_tick s)" "px_lease s" "lease_context (rc_Subject rc) kind domain service" l] L r by auto
  with HA_Call_delivered [OF f(1)] f(2) show ?thesis by auto
qed

lemma notify_mux_delivered:
  assumes "order_of_range e" "rp_status (fst (notify_mux e rt rc s)) = 201"
  shows "\<exists>lease call k resp. px_sent (snd (notify_mux e rt rc s)) = px_sent s @ [lease, call] \<and>
    pu_do (pe_up e k) call = Inr resp \<and> 200 \<le> hr_status resp \<and> hr_status resp < 300"
  using assms(1)
proof (cases rule: notify_mux_cases [of e rt rc s])
  case (forwarded kind domain service body s1)
  then have "px_sent s1 = px_sent s" by (simp add: after_rate_def)
  then show ?thesis using forward_delivered [of e rc kind domain service body s1] assms(2) forwarded(1) by simp
qed (use assms(2) in auto)

text \<open>With a writer and a canonicalizer that do not fail, an attempt commits one signed line.\<close>

lemma attempted_committed:
  assumes "attempted e ev em em'" "\<forall>k. pe_write e k = Written" "\<forall>x. \<not> isl (cr_jcs (pe_crypto e) x)"
  shows "\<exists>sev. em' = em\<lparr>em_out := em_out em @ event_line sev, em_seq := em_seq em + 1\<rparr> \<and>
    signed_by (pe_crypto e) (em_signer em) sev \<and> ev_Type sev = ev_Type ev \<and> ev_Subject sev = ev_Subject ev \<and>
    ev_RequestID sev = ev_RequestID ev \<and> ev_Attested sev = ev_Attested ev \<and> ev_Asserted sev = ev_Asserted ev"
proof -
  obtain k where k: "em' = snd (snd (Emit (pe_crypto e) (pe_clock e k) Written ev em))"
    using assms(1,2) by (auto simp: attempted_def)
  have ok: "fst (Emit (pe_crypto e) (pe_clock e k) Written ev em) = None"
    using assms(3) by (auto simp: Emit_def Let_def split: sum.split) (metis isl_def)
  show ?thesis
    by (cases rule: Emit_cases [where cr = "pe_crypto e" and now = "pe_clock e k" and oc = Written and ev = ev and em = em and m = 0])
      (use k ok assms(3) signed_event_signed in \<open>auto intro!: exI [of _ "signed_event (pe_crypto e) (pe_clock e k) ev em"]\<close>)
qed

end
