(* ===== verification/Notify_Sample.thy ===== *)
theory Notify_Sample
  imports Notify_Gate Broker_Sample
begin

text \<open>
  A concrete proxy on which the statements with hypotheses are evaluated: one subject with a push
  and a dismiss grant, a broker that leases a token, and a Home Assistant that accepts every call.
\<close>

definition sample_push_grant :: NotifyGrant where
  "sample_push_grant = \<lparr>ng_Kind = KindPush, ng_Targets = [''phone''], ng_IDPrefix = []\<rparr>"

definition sample_dismiss_grant :: NotifyGrant where
  "sample_dismiss_grant = \<lparr>ng_Kind = KindPersistentDismiss, ng_Targets = [], ng_IDPrefix = ''sa-''\<rparr>"

definition sample_notify_subject :: NotifySubject where
  "sample_notify_subject = \<lparr>ns_ServiceAccount = ''ns/sa'', ns_Grants = [sample_push_grant, sample_dismiss_grant]\<rparr>"

definition sample_notify_policy :: NotifyPolicy where
  "sample_notify_policy = \<lparr>np_Subjects = [sample_notify_subject], np_Hash = ''sha256:00'', np_byKey = [notify_entry sample_notify_subject]\<rparr>"

definition sample_lease_client :: LeaseClient where
  "sample_lease_client = \<lparr>lc_brokerURL = ''https://broker'', lc_scope = ''ha'', lc_tokenFile = ''token'', lc_rootCAs = None\<rparr>"

definition sample_proxy :: proxy where
  "sample_proxy = New_Proxy \<lparr>nc_RatePerMinute = 0, nc_Burst = 0, nc_MaxBodyBytes = 0\<rparr> sample_notify_policy
     (NewHAClient ''http://ha/'') sample_lease_client sample_emitter (NewSigner sample_crypto ''key'') NewMetrics"

definition leased_json :: "string \<Rightarrow> json" where
  "leased_json token = JObj [(''lease_id'', JStr ''lease_1''), (''secret'', JStrMap (Some [(''token'', token)]))]"

definition sample_up :: "string \<Rightarrow> proxy_up" where
  "sample_up token = \<lparr>pu_validURL = (\<lambda>u. True), pu_readFile = (\<lambda>f. Inr ''own''),
     pu_do = (\<lambda>q. if hq_url q = ''https://broker/v1/leases'' then Inr \<lparr>hr_status = 201, hr_body = render (leased_json token)\<rparr>
                   else Inr \<lparr>hr_status = 200, hr_body = []\<rparr>)\<rparr>"

definition sample_proxy_env :: "string \<Rightarrow> proxy_env" where
  "sample_proxy_env token = \<lparr>pe_clock = (\<lambda>_. 0), pe_rand = (\<lambda>k n. replicate n (CHR ''r'')), pe_write = (\<lambda>_. Written),
     pe_authn = (\<lambda>k tok. Inr sample_subject), pe_up = (\<lambda>_. sample_up token), pe_crypto = sample_crypto,
     pe_isPrint = (\<lambda>_. True), pe_range = (\<lambda>k xs. xs)\<rparr>"

lemma sample_notify_ok: "notify_ok sample_notify_policy"
proof -
  have "''ns/sa'' \<in> lang notifySubjectKeyPattern"
    using subjectKey_plain [of "''ns''" "''sa''"]
    by (simp add: lower_digit_def lower_def notifySubjectKeyPattern_def subjectKeyPattern_def)
  then show ?thesis
    by (simp add: notify_ok_def notify_doc_valid_def notify_subject_valid_def sample_notify_policy_def sample_notify_subject_def
        sample_push_grant_def sample_dismiss_grant_def notify_grant_valid_def target_char_def lower_digit_def lower_def)
qed

lemma sample_range: "order_of_range (sample_proxy_env token)"
  by (simp add: order_of_range_def sample_proxy_env_def)

lemma sample_proxy_simps [simp]:
  "px_policy sample_proxy = sample_notify_policy" "px_lease sample_proxy = sample_lease_client"
  "px_ha sample_proxy = \<lparr>ha_base = ''http://ha''\<rparr>" "px_sent sample_proxy = []" "px_tick sample_proxy = 0"
  "px_limiter sample_proxy = New_Limiter 12 6" "nc_MaxBodyBytes (px_cfg sample_proxy) = 16384"
  by (simp_all add: sample_proxy_def New_Proxy_def Let_def notify_applyDefaults_def NewHAClient_def TrimRight_def)

definition lease_fields :: "string list" where
  "lease_fields = [''lease_id'', ''secret'', ''token'', ''title'', ''message'', ''data'', ''notification_id'']"

lemma lease_fields_ok: "distinct (map (map fold_code) lease_fields)" "list_all ascii lease_fields"
  by (simp_all add: lease_fields_def fold_code_def ascii_def)

lemmas is_lease_field = is_field_distinct [OF lease_fields_ok, unfolded lease_fields_def]

lemma valid_lease_field: "k \<in> set lease_fields \<Longrightarrow> valid_utf8 k = k"
  using lease_fields_ok(2) by (auto simp: list_all_iff valid_utf8_ascii)

lemmas valid_lease_fields = valid_lease_field [unfolded lease_fields_def]

lemma sample_lease_decoded:
  assumes "ascii token"
  shows "decode_leaseResp (render (leased_json token)) = Some \<lparr>lp_LeaseID = ''lease_1'', lp_Secret = [(''token'', token)]\<rparr>"
proof -
  have "nested_within maxNestingDepth (leased_json token)"
    by (simp add: leased_json_def JStrMap_def JMap_def maxNestingDepth_def)
  then have "decode_first (render (leased_json token)) = Some (val_of (leased_json token), [])"
    using decode_render [of "leased_json token" "[]"] by (simp add: closes_def)
  moreover have "val_of (leased_json token) = VObj [(''lease_id'', VStr ''lease_1''), (''secret'', VObj [(''token'', VStr token)])]"
    using assms by (simp add: leased_json_def JStrMap_def JMap_def valid_lease_fields) (simp add: valid_utf8_ascii ascii_def)
  ultimately show ?thesis
    by (simp add: decode_leaseResp_def to_struct_def leaseResp_field_def is_lease_field to_string_def to_map_def)
qed

lemma sample_leased:
  assumes "ascii token" "token \<noteq> []"
  shows "LeaseClient_Lease (sample_up token) (sample_lease_client\<lparr>lc_rootCAs := pool\<rparr>) ctx =
    ([lease_request (sample_lease_client\<lparr>lc_rootCAs := pool\<rparr>) (TrimSpace ''own'') ctx], Inr \<lparr>nl_Token = token, nl_LeaseID = ''lease_1''\<rparr>)"
  using sample_lease_decoded [OF assms(1)] assms(2)
  by (simp add: LeaseClient_Lease_def tokenFn_def sample_up_def sample_lease_client_def lease_request_def Let_def gindex_def)

lemma sample_limiter: "fst (Allow t k (New_Limiter 12 6))"
  by (rule New_Limiter_first) simp_all

definition notify_http :: http_in where
  "notify_http = \<lparr>hi_RemoteAddr = ''10.0.0.1:5000'', hi_UserAgent = ''agent'', hi_Authorization = ''Bearer t''\<rparr>"

definition sample_dismiss_json :: json where
  "sample_dismiss_json = JObj [(''notification_id'', JStr ''sa-1'')]"

lemma sample_dismiss_decoded:
  "decode_body dismiss_field \<lparr>dq_NotificationID = []\<rparr> s (render sample_dismiss_json) = Some \<lparr>dq_NotificationID = ''sa-1''\<rparr>"
  if "nc_MaxBodyBytes (px_cfg s) = 16384"
proof -
  have "nested_within maxNestingDepth sample_dismiss_json" by (simp add: sample_dismiss_json_def maxNestingDepth_def)
  then have "decode_first (render sample_dismiss_json) = Some (val_of sample_dismiss_json, [])"
    using decode_render [of sample_dismiss_json "[]"] by (simp add: closes_def)
  moreover have "val_of sample_dismiss_json = VObj [(''notification_id'', VStr ''sa-1'')]"
    by (simp add: sample_dismiss_json_def valid_lease_fields) (simp add: valid_utf8_ascii ascii_def)
  moreover have "length (render sample_dismiss_json) \<le> 16384" by code_simp
  ultimately show ?thesis using that
    by (simp add: decode_body_def body_value_def to_struct_def dismiss_field_def is_lease_field to_string_def)
qed

lemma sample_pool: "sample_lease_client\<lparr>lc_rootCAs := None\<rparr> = sample_lease_client"
  by (simp add: sample_lease_client_def)

text \<open>A dismissal that goes through, whatever the hash of the policy and the roots of the lease client.\<close>

definition like_sample_proxy :: "proxy \<Rightarrow> bool" where
  "like_sample_proxy s \<longleftrightarrow> np_byKey (px_policy s) = np_byKey sample_notify_policy \<and>
     (\<exists>pool. px_lease s = sample_lease_client\<lparr>lc_rootCAs := pool\<rparr>) \<and> px_limiter s = New_Limiter 12 6 \<and>
     nc_MaxBodyBytes (px_cfg s) = 16384 \<and> px_ha s = \<lparr>ha_base = ''http://ha''\<rparr>"

lemma dismissal_forwards:
  assumes "np_byKey (px_policy s) = np_byKey sample_notify_policy" "px_limiter s = New_Limiter 12 6" "nc_MaxBodyBytes (px_cfg s) = 16384"
    and "Key (rc_Subject rc) = ''ns/sa''"
  shows "notify_mux e (PostDismiss (render sample_dismiss_json)) rc s =
    forward e rc KindPersistentDismiss ''persistent_notification'' ''dismiss'' [(''notification_id'', JStr ''sa-1'')]
      (snd (pallow_limiter e (Key (rc_Subject rc)) s))"
proof -
  have ok: "idAllowed (px_policy s) (rc_Subject rc) KindPersistentDismiss ''sa-1''"
    using assms(1,4)
    by (simp add: idAllowed_def NotifyGrantOf_def sample_notify_policy_def notify_entry_def sample_notify_subject_def
        sample_push_grant_def sample_dismiss_grant_def HasPrefix_def)
  have rate: "rateOK e rc s = (None, snd (pallow_limiter e (Key (rc_Subject rc)) s))"
    using sample_limiter assms(2) by (simp add: rateOK_def pallow_limiter_def split_beta Let_def)
  show ?thesis using ok assms(3) by (simp add: handlePersistentDismiss_def rate sample_dismiss_decoded)
qed

lemma dismissed_when_leased:
  assumes "np_byKey (px_policy s) = np_byKey sample_notify_policy" "px_limiter s = New_Limiter 12 6" "nc_MaxBodyBytes (px_cfg s) = 16384"
    and "Key (rc_Subject rc) = ''ns/sa''"
    and "\<And>k. \<not> isl (snd (LeaseClient_Lease (pe_up e k) (px_lease s)
      (lease_context (rc_Subject rc) KindPersistentDismiss ''persistent_notification'' ''dismiss'')))"
    and "\<And>k tok body. snd (HA_Call (pe_up e k) (px_ha s) tok ''persistent_notification'' ''dismiss'' body) = (200, None)"
  shows "rp_status (fst (notify_mux e (PostDismiss (render sample_dismiss_json)) rc s)) = 201"
proof -
  let ?s = "snd (pallow_limiter e (Key (rc_Subject rc)) s)"
  note mux = dismissal_forwards [OF assms(1-4), of e]
  obtain qs l where L: "LeaseClient_Lease (pe_up e (px_tick ?s)) (px_lease ?s)
      (lease_context (rc_Subject rc) KindPersistentDismiss ''persistent_notification'' ''dismiss'') = (qs, Inr l)"
    using assms(5) [of "px_tick ?s"] by (metis isl_def obj_sumE prod.collapse pallow_frame(4))
  have "ha_delivered (HA_Call (pe_up e (Suc (px_tick ?s))) (px_ha ?s) (nl_Token l) ''persistent_notification'' ''dismiss''
      [(''notification_id'', JStr ''sa-1'')])"
    by (simp add: ha_delivered_def assms(6))
  then show ?thesis using forward_leased [OF L refl, of "[(''notification_id'', JStr ''sa-1'')]"] unfolding mux by auto
qed

lemma sample_dismissed:
  assumes "ascii token" "token \<noteq> []" "like_sample_proxy s" "Key (rc_Subject rc) = ''ns/sa''" "pe_up e = (\<lambda>_. sample_up token)"
  shows "rp_status (fst (notify_mux e (PostDismiss (render sample_dismiss_json)) rc s)) = 201"
proof -
  note like = assms(3) [unfolded like_sample_proxy_def]
  obtain pool where pool: "px_lease s = sample_lease_client\<lparr>lc_rootCAs := pool\<rparr>" using like by blast
  have "snd (HA_Call (sample_up token) (px_ha s) tok ''persistent_notification'' ''dismiss'' body) = (200, None)" for tok body
    using like by (simp add: HA_Call_def haAllowed_def ha_request_def sample_up_def Let_def)
  then show ?thesis
    using like assms(4) by (intro dismissed_when_leased) (simp_all add: assms(5) pool sample_leased [OF assms(1,2)])
qed

lemma like_sample_proxies: "like_sample_proxy sample_proxy" "like_sample_proxy (ptick (ptick sample_proxy))"
  using sample_pool by (auto simp: like_sample_proxy_def intro!: exI [of _ None])

end
