(* ===== verification/Notify_Guarantees.thy ===== *)
theory Notify_Guarantees
  imports Notify_Sample
begin

text \<open>
  What the notification proxy guarantees: which calls it can make at all, that every decision is
  recorded, that the leased token goes to Home Assistant and nowhere else, and how many calls a
  caller can cause.
\<close>

section \<open>The calls the proxy can make\<close>

text \<open>C24: the ceiling of the proxy. Whatever a caller sends and whatever the broker and Home Assistant
  answer, a request makes the proxy send nothing, or one POST to the broker for its configured
  scope, or that and then one POST to Home Assistant. It sends something only for a token the
  authenticator accepted as a subject that holds a grant of the kind asked for, and the call is
  then \<open>notify/<t>\<close> with \<open>t\<close> the first target of that grant and data keys of the allowlist, or
  \<open>persistent_notification/create\<close> or \<open>dismiss\<close> on an ID that starts with the prefix of the grant;
  the grant is a valid one, so the prefix is not empty, and the path is spelled in \<open>[a-z0-9_]\<close>.\<close>

theorem proxy_calls_confined:
  assumes "notify_ok (px_policy s)" "order_of_range e"
  shows "px_sent (snd (Notify_Handler e r rt s)) = px_sent s \<or>
    (\<exists>token sub kind domain service body own calls.
       hi_Authorization r = ''Bearer '' @ token \<and> pe_authn e (Suc (px_tick s)) token = Inr sub \<and>
       permitted (px_policy s) sub kind domain service body \<and>
       (\<forall>g. NotifyGrantOf (px_policy s) (Key sub) kind = Some g \<longrightarrow> notify_grant_valid g) \<and>
       px_sent (snd (Notify_Handler e r rt s)) =
         px_sent s @ lease_request (px_lease s) own (lease_context sub kind domain service) # calls \<and>
       (calls = [] \<or>
        (\<exists>leased. calls = [ha_request (px_ha s) leased domain service body] \<and>
           hq_url (hd calls) = ha_base (px_ha s) @ ''/api/services/'' @ domain @ ''/'' @ service \<and>
           (\<forall>c \<in> set (domain @ service). target_char c))))"
proof (cases rule: Notify_Handler_cases [of e r rt s])
  case (accepted token sub rc)
  obtain qs where qs: "px_sent (snd (Notify_Handler e r rt s)) = px_sent s @ qs"
      "qs = [] \<or> (\<exists>kind domain service body. permitted (px_policy s) sub kind domain service body \<and>
         forwards s sub kind domain service body qs)"
    using notify_mux_sent [OF assms(2), of rt rc "ptick (ptick s)"] unfolding accepted(4,5) ptick_frame forwards_tick by blast
  show ?thesis
  proof (cases "qs = []")
    case False
    then obtain kind domain service body where p: "permitted (px_policy s) sub kind domain service body"
        "forwards s sub kind domain service body qs" using qs(2) by blast
    have g: "\<forall>g. NotifyGrantOf (px_policy s) (Key sub) kind = Some g \<longrightarrow> notify_grant_valid g"
      using gate.grant_kind [OF assms(1)] by blast
    from p(2) obtain own where "qs = [lease_request (px_lease s) own (lease_context sub kind domain service)] \<or>
        (\<exists>leased. haAllowed domain service \<and>
           qs = [lease_request (px_lease s) own (lease_context sub kind domain service), ha_request (px_ha s) leased domain service body])"
      unfolding forwards_def by blast
    then obtain calls where c: "qs = lease_request (px_lease s) own (lease_context sub kind domain service) # calls"
        "calls = [] \<or> (\<exists>leased. haAllowed domain service \<and> calls = [ha_request (px_ha s) leased domain service body])"
      by blast
    have "calls = [] \<or> (\<exists>leased. calls = [ha_request (px_ha s) leased domain service body] \<and>
        hq_url (hd calls) = ha_base (px_ha s) @ ''/api/services/'' @ domain @ ''/'' @ service \<and>
        (\<forall>c \<in> set (domain @ service). target_char c))"
      using c(2) ha_request_url [of domain service] haAllowed_chars [of domain service] by auto
    then show ?thesis using accepted(1,3) p(1) g qs(1) unfolding c(1) by blast
  qed (use qs(1) in simp)
qed simp

section \<open>The record of a decision\<close>

text \<open>C25: every decision leaves one signed record. While the writer and the canonicalizer work, a
  request of an authenticated caller that is not throttled adds exactly one signed event to the
  stream, with the caller and the request ID: \<open>notify.denied\<close> when nothing was sent, answered 400
  or 403, or \<open>notify.forwarded\<close>, answered 201 or 502. The event says \<open>delivered\<close> exactly when the
  answer is 201, and then Home Assistant answered the one call it got with a 2xx status.\<close>

theorem proxy_decision_recorded:
  assumes "order_of_range e" "\<forall>k. pe_write e k = Written" "\<forall>x. \<not> isl (cr_jcs (pe_crypto e) x)"
    and "rp_status (fst (notify_mux e rt rc s)) \<noteq> 429"
  shows "\<exists>ev. px_emitter (snd (notify_mux e rt rc s)) =
      px_emitter s\<lparr>em_out := em_out (px_emitter s) @ event_line ev, em_seq := em_seq (px_emitter s) + 1\<rparr> \<and>
    signed_by (pe_crypto e) (em_signer (px_emitter s)) ev \<and>
    ev_Subject ev = Some (rc_Subject rc) \<and> ev_RequestID ev = rc_RequestID rc \<and>
    (ev_Type ev = ''notify.denied'' \<and> px_sent (snd (notify_mux e rt rc s)) = px_sent s \<and>
       rp_status (fst (notify_mux e rt rc s)) \<in> {400, 403} \<or>
     ev_Type ev = ''notify.forwarded'' \<and> rp_status (fst (notify_mux e rt rc s)) \<in> {201, 502} \<and>
       map_of (ev_Attested ev) ''delivered'' = Some (JBool (rp_status (fst (notify_mux e rt rc s)) = 201)) \<and>
       (rp_status (fst (notify_mux e rt rc s)) = 201 \<longrightarrow>
         (\<exists>lease call k resp. px_sent (snd (notify_mux e rt rc s)) = px_sent s @ [lease, call] \<and>
            pu_do (pe_up e k) call = Inr resp \<and> 200 \<le> hr_status resp \<and> hr_status resp < 300)))"
  using assms(1)
proof (cases rule: notify_mux_cases [of e rt rc s])
  case (limited s1)
  then show ?thesis using assms(4) by simp
next
  case (denied kind why st pt ti ass s1)
  have s1: "px_emitter s1 = px_emitter s" "px_sent s1 = px_sent s" using denied(2) by (simp_all add: after_rate_def)
  obtain att where "attempted e (base_event ''notify.denied'' (rc_RequestID rc) (Some (rc_Subject rc)) (Some (rc_Source rc)) att ass)
      (px_emitter s) (px_emitter (snd (notify_mux e rt rc s)))"
    using notify_deny_attempted [of e rc ass s1 kind why st pt ti] s1(1) denied(1) by auto
  from attempted_committed [OF this assms(2,3)] show ?thesis
    using denied(1,3) s1(2) by auto
next
  case (forwarded kind domain service body s1)
  have s1: "px_emitter s1 = px_emitter s" using forwarded(2) by (simp add: after_rate_def)
  obtain att where att: "attempted e (base_event ''notify.forwarded'' (rc_RequestID rc) (Some (rc_Subject rc)) (Some (rc_Source rc)) att [])
      (px_emitter s) (px_emitter (snd (notify_mux e rt rc s)))"
      "map_of att ''delivered'' = Some (JBool (rp_status (fst (notify_mux e rt rc s)) = 201))"
      "rp_status (fst (notify_mux e rt rc s)) \<in> {201, 502}"
    using forward_attempted [of e rc s1 kind domain service body] s1 forwarded(1) by auto
  with attempted_committed [OF att(1) assms(2,3)] att(2,3) notify_mux_delivered [OF assms(1), of rt rc s] show ?thesis by auto
qed

section \<open>The leased token\<close>

text \<open>Two answers of the broker to a lease request that differ in the token at most: both fail, or both
  have the same status, and if it is 201, their bodies both fail to decode or name the same lease,
  both with a token or both without.\<close>

fun same_lease :: "string + http_response \<Rightarrow> string + http_response \<Rightarrow> bool" where
  "same_lease (Inl e1) (Inl e2) \<longleftrightarrow> True"
| "same_lease (Inr r1) (Inr r2) \<longleftrightarrow> hr_status r1 = hr_status r2 \<and>
     (hr_status r1 = 201 \<longrightarrow>
        rel_option (\<lambda>l1 l2. lp_LeaseID l1 = lp_LeaseID l2 \<and> (gindex (lp_Secret l1) ''token'' = [] \<longleftrightarrow> gindex (lp_Secret l2) ''token'' = []))
          (decode_leaseResp (hr_body r1)) (decode_leaseResp (hr_body r2)))"
| "same_lease _ _ \<longleftrightarrow> False"

text \<open>Two worlds that differ in the token the broker hands out: URLs and files are the same, the broker
  gives the same answers but for the token, and Home Assistant answers a call with either token
  with the same status.\<close>

definition alike :: "LeaseClient \<Rightarrow> HAClient \<Rightarrow> proxy_up \<Rightarrow> proxy_up \<Rightarrow> bool" where
  "alike lc h up1 up2 \<longleftrightarrow>
     pu_validURL up1 = pu_validURL up2 \<and> pu_readFile up1 = pu_readFile up2 \<and>
     (\<forall>own ctx. same_lease (pu_do up1 (lease_request lc own ctx)) (pu_do up2 (lease_request lc own ctx))) \<and>
     (\<forall>t1 t2 d sv b. rel_sum (\<lambda>_ _. True) (\<lambda>r1 r2. hr_status r1 = hr_status r2)
        (pu_do up1 (ha_request h t1 d sv b)) (pu_do up2 (ha_request h t2 d sv b)))"

text \<open>Then the lease client sends the same request in both and gets leases of the same ID, and the call of
  Home Assistant is made in both or in neither, with the same outcome.\<close>

lemma alike_lease:
  assumes "alike lc h up1 up2"
  shows "fst (LeaseClient_Lease up1 lc ctx) = fst (LeaseClient_Lease up2 lc ctx)"
    "rel_sum (\<lambda>_ _. True) (\<lambda>l1 l2. nl_LeaseID l1 = nl_LeaseID l2) (snd (LeaseClient_Lease up1 lc ctx)) (snd (LeaseClient_Lease up2 lc ctx))"
proof -
  have w: "pu_validURL up1 = pu_validURL up2" "pu_readFile up1 = pu_readFile up2"
    using assms by (simp_all add: alike_def)
  show "fst (LeaseClient_Lease up1 lc ctx) = fst (LeaseClient_Lease up2 lc ctx)"
    by (simp add: LeaseClient_Lease_def w Let_def split: sum.split)
  show "rel_sum (\<lambda>_ _. True) (\<lambda>l1 l2. nl_LeaseID l1 = nl_LeaseID l2) (snd (LeaseClient_Lease up1 lc ctx)) (snd (LeaseClient_Lease up2 lc ctx))"
  proof (cases "tokenFn (pu_readFile up2) lc")
    case (Inr own)
    have "same_lease (pu_do up1 (lease_request lc own ctx)) (pu_do up2 (lease_request lc own ctx))" using assms by (simp add: alike_def)
    then show ?thesis
      by (cases "(pu_do up1 (lease_request lc own ctx), pu_do up2 (lease_request lc own ctx))" rule: same_lease.cases)
        (auto simp: LeaseClient_Lease_def w Inr Let_def option_rel_Some1 option_rel_Some2 split: option.split)
  qed (simp add: LeaseClient_Lease_def w)
qed

lemma alike_call:
  assumes "alike lc h up1 up2" "HA_Call up1 h t1 d sv b = (c1, st1, er1)" "HA_Call up2 h t2 d sv b = (c2, st2, er2)"
  shows "st2 = st1" "er2 = None \<longleftrightarrow> er1 = None"
    "c1 = [] \<and> c2 = [] \<or> c1 = [ha_request h t1 d sv b] \<and> c2 = [ha_request h t2 d sv b]"
proof -
  have w: "pu_validURL up1 = pu_validURL up2" "hq_url (ha_request h t1 d sv b) = hq_url (ha_request h t2 d sv b)"
    using assms(1) by (simp_all add: alike_def ha_request_def)
  have "rel_sum (\<lambda>_ _. True) (\<lambda>r1 r2. hr_status r1 = hr_status r2)
      (pu_do up1 (ha_request h t1 d sv b)) (pu_do up2 (ha_request h t2 d sv b))"
    using assms(1) by (simp add: alike_def)
  then have "st2 = st1 \<and> (er2 = None \<longleftrightarrow> er1 = None) \<and>
      (c1 = [] \<and> c2 = [] \<or> c1 = [ha_request h t1 d sv b] \<and> c2 = [ha_request h t2 d sv b])"
    using assms(2,3) w by (auto simp: HA_Call_def Let_def rel_sum.simps split: if_splits)
  then show "st2 = st1" "er2 = None \<longleftrightarrow> er1 = None"
    "c1 = [] \<and> c2 = [] \<or> c1 = [ha_request h t1 d sv b] \<and> c2 = [ha_request h t2 d sv b]" by blast+
qed

text \<open>All of the proxy's state but the requests it has sent.\<close>

definition kept :: "proxy \<Rightarrow> proxy" where
  "kept s = s\<lparr>px_sent := []\<rparr>"

lemma pinc_kept: "kept (pinc e n ls s) = pinc e n ls (kept s)"
  by (simp add: kept_def pinc_def)

lemma pinc_hooks_kept: "kept (fold (\<lambda>t. pinc e n (f t)) hs s) = fold (\<lambda>t. pinc e n (f t)) hs (kept s)"
  by (induction hs arbitrary: s) (simp_all add: pinc_kept)

lemma pemit_kept: "kept (pemit e ev s) = pemit e ev (kept s)"
proof -
  have "kept (ptick s\<lparr>px_emitter := em\<rparr>) = ptick (kept s)\<lparr>px_emitter := em\<rparr>" for em
    by (cases s) (simp add: kept_def ptick_def)
  moreover have "pnow e (kept s) = pnow e s" "px_tick (kept s) = px_tick s" "px_emitter (kept s) = px_emitter s"
    by (simp_all add: kept_def pnow_def)
  ultimately show ?thesis by (simp add: pemit_def split_beta Let_def pinc_hooks_kept)
qed

lemma emitForwarded_kept: "kept (emitForwarded e rc k d sv st dl li er s) = emitForwarded e rc k d sv st dl li er (kept s)"
  by (simp add: emitForwarded_def pemit_kept) (simp add: kept_def)

lemma psend_kept: "kept (psend qs s) = ptick (kept s)"
  by (simp add: kept_def psend_def ptick_def)

lemmas step_kept = pinc_kept emitForwarded_kept psend_kept

lemma steps_up:
  "pinc (e\<lparr>pe_up := u\<rparr>) = pinc e" "pallow_limiter (e\<lparr>pe_up := u\<rparr>) = pallow_limiter e" "pallow_rlAudit (e\<lparr>pe_up := u\<rparr>) = pallow_rlAudit e"
  "pallow_authFail (e\<lparr>pe_up := u\<rparr>) = pallow_authFail e"
  by (simp_all add: fun_eq_iff pinc_def pallow_limiter_def pallow_rlAudit_def pallow_authFail_def pnow_def)

lemma pemit_up: "pemit (e\<lparr>pe_up := u\<rparr>) = pemit e"
  by (simp add: fun_eq_iff pemit_def split_beta Let_def pnow_def steps_up)

lemma outcomes_up:
  "rateOK (e\<lparr>pe_up := u\<rparr>) = rateOK e" "notify_deny (e\<lparr>pe_up := u\<rparr>) = notify_deny e"
  "emitForwarded (e\<lparr>pe_up := u\<rparr>) = emitForwarded e" "notify_recordAuthFailure (e\<lparr>pe_up := u\<rparr>) = notify_recordAuthFailure e"
  unfolding rateOK_def notify_deny_def emitForwarded_def notify_recordAuthFailure_def steps_up pemit_up by (rule refl)+

text \<open>What is sent in the one world and in the other: the same, or a lease request that is the same and
  the call of Home Assistant with another token.\<close>

definition sent_alike :: "LeaseClient \<Rightarrow> HAClient \<Rightarrow> http_request list \<Rightarrow> http_request list \<Rightarrow> bool" where
  "sent_alike lc h qs1 qs2 \<longleftrightarrow> qs1 = qs2 \<or>
     (\<exists>own ctx t1 t2 domain service body.
        qs1 = [lease_request lc own ctx, ha_request h t1 domain service body] \<and>
        qs2 = [lease_request lc own ctx, ha_request h t2 domain service body])"

definition indistinct :: "proxy \<Rightarrow> response \<times> proxy \<Rightarrow> response \<times> proxy \<Rightarrow> bool" where
  "indistinct s x y \<longleftrightarrow> fst x = fst y \<and> kept (snd x) = kept (snd y) \<and>
     (\<exists>qs1 qs2. px_sent (snd x) = px_sent s @ qs1 \<and> px_sent (snd y) = px_sent s @ qs2 \<and> sent_alike (px_lease s) (px_ha s) qs1 qs2)"

lemma indistinct_same: "px_sent (snd x) = px_sent s \<Longrightarrow> indistinct s x x"
  by (simp add: indistinct_def sent_alike_def)

lemma forward_indistinct:
  assumes "\<forall>k. alike (px_lease s) (px_ha s) (pe_up e k) (u k)"
  shows "indistinct s (forward e rc kind domain service body s) (forward (e\<lparr>pe_up := u\<rparr>) rc kind domain service body s)"
proof -
  let ?ctx = "lease_context (rc_Subject rc) kind domain service"
  obtain q1 r1 where L1: "LeaseClient_Lease (pe_up e (px_tick s)) (px_lease s) ?ctx = (q1, r1)" by fastforce
  obtain q2 r2 where L2: "LeaseClient_Lease (u (px_tick s)) (px_lease s) ?ctx = (q2, r2)" by fastforce
  note al = assms [rule_format]
  have q: "q2 = q1" and r: "rel_sum (\<lambda>_ _. True) (\<lambda>l1 l2. nl_LeaseID l1 = nl_LeaseID l2) r1 r2"
    using alike_lease [OF al, of "px_tick s" ?ctx] L1 L2 by simp_all
  show ?thesis
  proof (cases r1)
    case (Inl e1)
    then obtain e2 where "r2 = Inl e2" using r by (cases r2) auto
    then show ?thesis using Inl L1 L2 q by (simp add: forward_def outcomes_up steps_up indistinct_def step_kept sent_alike_def)
  next
    case (Inr l1)
    then obtain l2 where l2: "r2 = Inr l2" "nl_LeaseID l2 = nl_LeaseID l1" using r by (cases r2) auto
    obtain own where own: "q1 = [lease_request (px_lease s) own ?ctx]"
      using leasing.success_sent [of "pe_up e (px_tick s)" "(px_lease s, ?ctx)"] L1 Inr by (simp add: lease_call_def)
    obtain c1 st er1 where H1: "HA_Call (pe_up e (Suc (px_tick s))) (px_ha s) (nl_Token l1) domain service body = (c1, st, er1)"
      by (cases "HA_Call (pe_up e (Suc (px_tick s))) (px_ha s) (nl_Token l1) domain service body")
    obtain c2 st2 er2 where H2: "HA_Call (u (Suc (px_tick s))) (px_ha s) (nl_Token l2) domain service body = (c2, st2, er2)"
      by (cases "HA_Call (u (Suc (px_tick s))) (px_ha s) (nl_Token l2) domain service body")
    note H = alike_call [OF al H1 H2]
    have "sent_alike (px_lease s) (px_ha s) (q1 @ c1) (q1 @ c2)" using H(3) own unfolding sent_alike_def by (elim disjE) (simp, simp, blast)
    then show ?thesis using Inr L1 L2 l2 H1 H2 H(1,2) q
      by (cases er1; cases er2) (simp_all add: forward_def outcomes_up steps_up indistinct_def step_kept)
  qed
qed

lemma notify_mux_indistinct:
  assumes "\<forall>k. alike (px_lease s) (px_ha s) (pe_up e k) (u k)"
  shows "indistinct s (notify_mux e rt rc s) (notify_mux (e\<lparr>pe_up := u\<rparr>) rt rc s)"
proof -
  obtain o1 s1 where rate: "rateOK e rc s = (o1, s1)" by fastforce
  have s1: "o1 = None \<Longrightarrow> px_lease s1 = px_lease s \<and> px_ha s1 = px_ha s" "px_sent s1 = px_sent s"
    by (cases rule: rateOK_cases [of e rc s]; use rate in auto)+
  have fwd: "indistinct s (forward e rc kind domain service body s2) (forward (e\<lparr>pe_up := u\<rparr>) rc kind domain service body s2)"
    if "o1 = None" "s2 = s1 \<or> s2 = ptick s1" for kind domain service body s2
    using forward_indistinct [of s2 e u] assms s1(1) [OF that(1)] s1(2) that(2) by (auto simp: indistinct_def)
  have deny: "indistinct s (notify_deny e rc kind why st pt ti ass s2) (notify_deny e rc kind why st pt ti ass s2)"
    if "s2 = s1 \<or> s2 = ptick s1" for kind why st pt ti ass s2
    using that s1 by (intro indistinct_same) auto
  have out: "indistinct s (r1, s1) (r1, s1)" for r1 using s1 by (intro indistinct_same) simp
  show ?thesis
    by (cases rt; cases o1)
      (auto simp: handlePush_def handlePersistentCreate_def handlePersistentDismiss_def outcomes_up rate Let_def fwd deny out split: option.split)
qed

text \<open>C26: the leased token goes into the one call of Home Assistant and nowhere else. In two worlds that
  differ in the token the broker hands out, Home Assistant taking either, a request gets the same
  response and leaves the same audit stream, metrics and everything else the proxy keeps; and it
  makes the lease and Home Assistant clients send the same requests, except that the call of Home
  Assistant, the last one and to the same service with the same body, bears the one token or the
  other. So the token is in no response, no record and no other request.\<close>

theorem proxy_token_confined:
  assumes "\<forall>k. alike (px_lease s) (px_ha s) (pe_up e k) (u k)"
  shows "fst (Notify_Handler (e\<lparr>pe_up := u\<rparr>) r rt s) = fst (Notify_Handler e r rt s) \<and>
    (snd (Notify_Handler (e\<lparr>pe_up := u\<rparr>) r rt s))\<lparr>px_sent := []\<rparr> = (snd (Notify_Handler e r rt s))\<lparr>px_sent := []\<rparr> \<and>
    (\<exists>qs1 qs2. px_sent (snd (Notify_Handler e r rt s)) = px_sent s @ qs1 \<and>
       px_sent (snd (Notify_Handler (e\<lparr>pe_up := u\<rparr>) r rt s)) = px_sent s @ qs2 \<and>
       (qs1 = qs2 \<or>
        (\<exists>own ctx t1 t2 domain service body.
           qs1 = [lease_request (px_lease s) own ctx, ha_request (px_ha s) t1 domain service body] \<and>
           qs2 = [lease_request (px_lease s) own ctx, ha_request (px_ha s) t2 domain service body])))"
proof -
  have "indistinct (ptick (ptick s)) (notify_mux e rt rc (ptick (ptick s))) (notify_mux (e\<lparr>pe_up := u\<rparr>) rt rc (ptick (ptick s)))" for rc
    using assms by (intro notify_mux_indistinct) simp
  then have "indistinct s (Notify_Handler e r rt s) (Notify_Handler (e\<lparr>pe_up := u\<rparr>) r rt s)"
    by (auto simp: Notify_Handler_def notify_withRequestID_def notify_withAuth_def split_beta Let_def outcomes_up indistinct_def sent_alike_def
        split: sum.split)
  then show ?thesis by (auto simp: indistinct_def sent_alike_def kept_def)
qed

section \<open>How much a caller can cause\<close>

text \<open>A run of authenticated requests: for each, its subject key and how many requests it made the
  proxy send; and the calls of the rate limiter along it.\<close>

fun notify_run :: "proxy_env \<Rightarrow> (notify_route \<times> reqctx) list \<Rightarrow> proxy \<Rightarrow> (string \<times> nat) list \<times> proxy" where
  "notify_run e [] s = ([], s)"
| "notify_run e ((rt, rc) # rs) s =
     (let s1 = snd (notify_mux e rt rc s); (log, s2) = notify_run e rs s1
      in ((Key (rc_Subject rc), length (px_sent s1) - length (px_sent s)) # log, s2))"

fun limiter_calls :: "proxy_env \<Rightarrow> (notify_route \<times> reqctx) list \<Rightarrow> proxy \<Rightarrow> (time \<times> string) list" where
  "limiter_calls e [] s = []"
| "limiter_calls e ((rt, rc) # rs) s = (pnow e s, Key (rc_Subject rc)) # limiter_calls e rs (snd (notify_mux e rt rc s))"

lemma forward_frame:
  "px_limiter (snd (forward e rc kind domain service body s)) = px_limiter s"
  "px_tick s < px_tick (snd (forward e rc kind domain service body s))"
  by (simp_all add: forward_def split_beta Let_def split: sum.split)

lemma forwards_length: "forwards s sub kind domain service body qs \<Longrightarrow> length qs \<le> 2"
  by (auto simp: forwards_def)

lemma notify_mux_step:
  assumes "order_of_range e"
  shows "px_limiter (snd (notify_mux e rt rc s)) = snd (Allow (pnow e s) (Key (rc_Subject rc)) (px_limiter s))"
    "px_tick s < px_tick (snd (notify_mux e rt rc s))"
    "length (px_sent (snd (notify_mux e rt rc s))) - length (px_sent s) \<le>
       (if fst (Allow (pnow e s) (Key (rc_Subject rc)) (px_limiter s)) then 2 else 0)"
proof -
  have "px_limiter (snd (notify_mux e rt rc s)) = snd (Allow (pnow e s) (Key (rc_Subject rc)) (px_limiter s)) \<and>
      px_tick s < px_tick (snd (notify_mux e rt rc s)) \<and>
      length (px_sent (snd (notify_mux e rt rc s))) - length (px_sent s) \<le>
        (if fst (Allow (pnow e s) (Key (rc_Subject rc)) (px_limiter s)) then 2 else 0)"
    using assms
  proof (cases rule: notify_mux_cases [of e rt rc s])
    case (denied kind why st pt ti ass s1)
    then show ?thesis by (simp add: after_rate_def)
  next
    case (forwarded kind domain service body s1)
    note a = forwarded(2) [unfolded after_rate_def]
    obtain qs where "px_sent (snd (forward e rc kind domain service body s1)) = px_sent s1 @ qs" "length qs \<le> 2"
      using forward_sent [of e rc kind domain service body s1] forwards_length by fastforce
    then show ?thesis using a forward_frame(1) [of e rc kind domain service body s1] forward_frame(2) [of s1 e rc kind domain service body] forwarded(1)
      by simp
  qed simp
  then show "px_limiter (snd (notify_mux e rt rc s)) = snd (Allow (pnow e s) (Key (rc_Subject rc)) (px_limiter s))"
    "px_tick s < px_tick (snd (notify_mux e rt rc s))"
    "length (px_sent (snd (notify_mux e rt rc s))) - length (px_sent s) \<le>
       (if fst (Allow (pnow e s) (Key (rc_Subject rc)) (px_limiter s)) then 2 else 0)" by simp_all
qed

lemma notify_run_admitted:
  assumes "order_of_range e"
  shows "length (filter (\<lambda>(k', n). k' = k \<and> n \<noteq> 0) (fst (notify_run e rs s))) \<le>
    admitted (decisions_for k (limiter_calls e rs s) (fst (run_calls Allow (limiter_calls e rs s) (px_limiter s))))"
    (is "?n rs s \<le> ?a rs s")
proof (induction rs arbitrary: s)
  case (Cons r rs)
  obtain rt rc where r: "r = (rt, rc)" by fastforce
  let ?s1 = "snd (notify_mux e rt rc s)" and ?A = "Allow (pnow e s) (Key (rc_Subject rc)) (px_limiter s)"
  let ?d = "if Key (rc_Subject rc) = k \<and> fst ?A then 1 else 0"
  have "?n (r # rs) s \<le> ?d + ?n rs ?s1"
    using notify_mux_step(3) [OF assms, of rt rc s] by (auto simp: r split_beta Let_def split: if_splits)
  moreover have "?a (r # rs) s = ?d + ?a rs ?s1"
    by (simp add: r split_beta Let_def decisions_for_def admitted_def notify_mux_step(1) [OF assms])
  ultimately show ?case using Cons [of ?s1] by linarith
qed (simp add: admitted_def decisions_for_def)

lemma notify_run_ticks:
  assumes "order_of_range e"
  shows "px_tick s \<le> px_tick (snd (notify_run e rs s))"
proof (induction rs arbitrary: s)
  case (Cons r rs)
  show ?case
    using Cons [of "snd (notify_mux e (fst r) (snd r) s)"] notify_mux_step(2) [OF assms, of s "fst r" "snd r"]
    by (cases r) (simp add: split_beta Let_def)
qed simp

lemma limiter_calls_times:
  assumes "order_of_range e" "mono (pe_clock e)"
  shows "sorted (map fst (limiter_calls e rs s)) \<and>
    (\<forall>c \<in> set (limiter_calls e rs s). pe_clock e (px_tick s) \<le> fst c \<and> fst c \<le> pe_clock e (px_tick (snd (notify_run e rs s))))"
proof (induction rs arbitrary: s)
  case (Cons r rs)
  obtain rt rc where r: "r = (rt, rc)" by fastforce
  let ?s1 = "snd (notify_mux e rt rc s)"
  have "px_tick s \<le> px_tick ?s1" using notify_mux_step(2) [OF assms(1), of s rt rc] by simp
  then have "pe_clock e (px_tick s) \<le> pe_clock e (px_tick ?s1)" using assms(2) by (rule monoD [rotated])
  moreover have "pe_clock e (px_tick ?s1) \<le> pe_clock e (px_tick (snd (notify_run e rs ?s1)))"
    using assms(2) notify_run_ticks [OF assms(1)] by (rule monoD)
  ultimately show ?case using Cons [of ?s1] by (force simp: r split_beta Let_def pnow_def)
qed simp

lemma notify_run_two: "order_of_range e \<Longrightarrow> \<forall>(k, n) \<in> set (fst (notify_run e rs s)). n \<le> 2"
proof (induction rs arbitrary: s)
  case (Cons r rs)
  show ?case
    using Cons.IH [OF Cons.prems, of "snd (notify_mux e (fst r) (snd r) s)"] notify_mux_step(3) [OF Cons.prems, of "fst r" "snd r" s]
    by (cases r) (auto simp: split_beta Let_def split: if_splits)
qed simp

text \<open>C27: how much a caller can cause. Along any run of requests, of any callers, with a clock that
  does not go back, the requests of one subject that make the proxy send anything at all number
  at most the burst plus the rate times the elapsed time, up to the floating-point error of each
  limiter call, and each of them makes it send at most two.\<close>

theorem proxy_rate_bound:
  assumes "order_of_range e" "mono (pe_clock e)"
    and "px_limiter s = New_Limiter rpm burst" "0 \<le> rpm" "0 \<le> burst" "burst \<le> 2 ^ 53"
  shows "of_nat (length (filter (\<lambda>(k', n). k' = k \<and> n \<noteq> 0) (fst (notify_run e rs s))))
      \<le> of_int burst + 2 * of_nat (length rs) * eps * of_int burst
        + fdiv rpm 60 * (of_int (pe_clock e (px_tick (snd (notify_run e rs s))) - pe_clock e (px_tick s)) / 1000000000) * (1 + eps) ^ 4 \<and>
    (\<forall>(k', n) \<in> set (fst (notify_run e rs s)). n \<le> 2)"
proof -
  let ?cs = "limiter_calls e rs s"
  have len: "length ?cs = length rs" by (induction rs arbitrary: s) auto
  note times = limiter_calls_times [OF assms(1,2), of rs s]
  have "pe_clock e (px_tick s) \<le> pe_clock e (px_tick (snd (notify_run e rs s)))"
    using assms(2) notify_run_ticks [OF assms(1)] by (rule monoD)
  from rate_bound_window [OF assms(4-6) conjunct1 [OF times] conjunct2 [OF times] this, of k]
  have "of_nat (admitted (decisions_for k ?cs (fst (run_calls Allow ?cs (px_limiter s)))))
      \<le> of_int burst + 2 * of_nat (length rs) * eps * of_int burst
        + fdiv rpm 60 * (of_int (pe_clock e (px_tick (snd (notify_run e rs s))) - pe_clock e (px_tick s)) / 1000000000) * (1 + eps) ^ 4"
    unfolding len assms(3) .
  moreover have "(of_nat (length (filter (\<lambda>(k', n). k' = k \<and> n \<noteq> 0) (fst (notify_run e rs s)))) :: rat)
      \<le> of_nat (admitted (decisions_for k ?cs (fst (run_calls Allow ?cs (px_limiter s)))))"
    using notify_run_admitted [OF assms(1)] by (simp only: of_nat_le_iff)
  ultimately show ?thesis using notify_run_two [OF assms(1)] by (intro conjI) (rule order_trans, assumption+)
qed

section \<open>The sample proxy\<close>

lemma sample_alike: "alike sample_lease_client h (sample_up ''t1'') (sample_up ''t2'')"
proof -
  have "same_lease (pu_do (sample_up ''t1'') (lease_request sample_lease_client own ctx)) (pu_do (sample_up ''t2'') (lease_request sample_lease_client own ctx))"
    for own ctx
    using sample_lease_decoded [of "''t1''"] sample_lease_decoded [of "''t2''"]
    by (simp add: sample_up_def lease_request_def sample_lease_client_def ascii_def gindex_def)
  moreover have "rel_sum (\<lambda>_ _. True) (\<lambda>r1 r2. hr_status r1 = hr_status r2)
      (pu_do (sample_up ''t1'') (ha_request h t1 d sv b)) (pu_do (sample_up ''t2'') (ha_request h t2 d sv b))" for t1 t2 d sv b
    by (simp add: sample_up_def ha_request_def)
  ultimately show ?thesis unfolding alike_def by (simp add: sample_up_def)
qed

lemma sample_accepted:
  obtains rc where "rc_Subject rc = sample_subject"
    "snd (Notify_Handler (sample_proxy_env token) notify_http rt sample_proxy) =
     snd (notify_mux (sample_proxy_env token) rt rc (ptick (ptick sample_proxy)))"
proof -
  have h: "hi_Authorization notify_http = ''Bearer '' @ ''t''" by (simp add: notify_http_def)
  have "pe_authn (sample_proxy_env token) (Suc (px_tick sample_proxy)) ''t'' = Inr sample_subject" by (simp add: sample_proxy_env_def)
  then show ?thesis by (rule Notify_Handler_accepted [OF h list.distinct(2), where rt = rt]) (rule that)
qed

theorem proxy_token_confined_witness:
  "fst (Notify_Handler ((sample_proxy_env ''t1'')\<lparr>pe_up := \<lambda>_. sample_up ''t2''\<rparr>) notify_http (PostDismiss (render sample_dismiss_json)) sample_proxy) =
   fst (Notify_Handler (sample_proxy_env ''t1'') notify_http (PostDismiss (render sample_dismiss_json)) sample_proxy)"
  using proxy_token_confined [of sample_proxy "sample_proxy_env ''t1''" "\<lambda>_. sample_up ''t2''" notify_http
      "PostDismiss (render sample_dismiss_json)"] sample_alike
  by (simp add: sample_proxy_env_def)

theorem proxy_decision_recorded_witness:
  "\<exists>ev. ev_Type ev = ''notify.forwarded'' \<and> map_of (ev_Attested ev) ''delivered'' = Some (JBool True) \<and>
     px_emitter (snd (notify_mux (sample_proxy_env ''t1'') (PostDismiss (render sample_dismiss_json)) sample_rc sample_proxy)) =
       px_emitter sample_proxy\<lparr>em_out := em_out (px_emitter sample_proxy) @ event_line ev, em_seq := em_seq (px_emitter sample_proxy) + 1\<rparr>"
proof -
  have st: "rp_status (fst (notify_mux (sample_proxy_env ''t1'') (PostDismiss (render sample_dismiss_json)) sample_rc sample_proxy)) = 201"
    by (rule sample_dismissed [OF _ _ like_sample_proxies(1), of "''t1''"]) (simp_all add: ascii_def sample_proxy_env_def)
  have "\<forall>k. pe_write (sample_proxy_env ''t1'') k = Written" "\<forall>x. \<not> isl (cr_jcs (pe_crypto (sample_proxy_env ''t1'')) x)"
    by (simp_all add: sample_proxy_env_def sample_crypto_def)
  from proxy_decision_recorded [OF sample_range this, of "PostDismiss (render sample_dismiss_json)" sample_rc sample_proxy] st
  show ?thesis by auto
qed

text \<open>The call of a dismissal, seen from the outside: the lease, then the one service.\<close>

lemma sample_dismissal_sends:
  "px_sent (snd (Notify_Handler (sample_proxy_env ''t1'') notify_http (PostDismiss (render sample_dismiss_json)) sample_proxy)) \<noteq> []"
proof -
  let ?rt = "PostDismiss (render sample_dismiss_json)"
  obtain rc where rc: "rc_Subject rc = sample_subject"
      "snd (Notify_Handler (sample_proxy_env ''t1'') notify_http ?rt sample_proxy) =
       snd (notify_mux (sample_proxy_env ''t1'') ?rt rc (ptick (ptick sample_proxy)))"
    by (rule sample_accepted)
  have "rp_status (fst (notify_mux (sample_proxy_env ''t1'') ?rt rc (ptick (ptick sample_proxy)))) = 201"
    by (rule sample_dismissed [OF _ _ like_sample_proxies(2), of "''t1''"]) (simp_all add: ascii_def rc(1) sample_proxy_env_def)
  from notify_mux_delivered [OF sample_range this] show ?thesis unfolding rc(2) by auto
qed

theorem proxy_calls_confined_witness:
  "\<exists>kind domain service body. permitted sample_notify_policy sample_subject kind domain service body"
  using proxy_calls_confined [of sample_proxy "sample_proxy_env ''t1''" notify_http "PostDismiss (render sample_dismiss_json)"]
    sample_notify_ok sample_range sample_dismissal_sends
  by (auto simp: sample_proxy_env_def)

theorem proxy_rate_bound_witness:
  "of_nat (length (filter (\<lambda>(k', n). k' = ''ns/sa'' \<and> n \<noteq> 0)
      (fst (notify_run (sample_proxy_env ''t1'') (replicate 20 (PostDismiss [], sample_rc)) sample_proxy))))
    \<le> (of_int 6 :: rat) + 2 * of_nat (length (replicate 20 (PostDismiss [], sample_rc))) * eps * of_int 6"
  using proxy_rate_bound [OF sample_range, of "''t1''" sample_proxy 12 6 "''ns/sa''" "replicate 20 (PostDismiss [], sample_rc)"]
  by (simp add: sample_proxy_env_def mono_def)

end
