(* ===== verification/Proxy_Main.thy ===== *)
theory Proxy_Main
  imports Broker_Start Notify_Guarantees
begin

text \<open>
  Command \<open>ha-notify-proxy\<close>: how \<open>run\<close> puts the proxy together on a \<open>host\<close>, and the cached probe of its
  readiness check. The YAML decoder of the notification policy is a parameter of its own.
\<close>

section \<open>Starting\<close>

datatype proxy_start_error =
    HAURLRequired
  | ProxyBrokerURLRequired
  | ProxySignerFailed start_error
  | NotifyPolicyUnreadable string
  | NotifyPolicyFatal notify_error
  | ProxyNotInCluster string
  | ProxyReviewerFailed authn_error
  | LeaseClientFailed lease_error
  | ProxyTLSKeypair string
  | ProxyTLSRequired

definition proxy_devInsecure :: "host \<Rightarrow> bool" where
  "proxy_devInsecure ho = (ho_getenv ho ''HANP_DEV_INSECURE'' = ''1'')"

definition proxy_loadSigner :: "host \<Rightarrow> crypto \<Rightarrow> string \<Rightarrow> bool \<Rightarrow> start_error + Signer" where
  "proxy_loadSigner ho cr path dev =
     (case ho_readFile ho path of
        Inl err \<Rightarrow>
          if dev \<and> ho_isNotExist ho err then
            (case ho_genKey ho of Inl genErr \<Rightarrow> Inl (KeyGeneration genErr) | Inr priv \<Rightarrow> Inr (NewSigner cr priv))
          else Inl (SigningKeyUnreadable err)
      | Inr raw \<Rightarrow>
          (case ParseSignerPEM cr (ho_pem ho) (ho_pkcs8 ho) raw of
             Inl e \<Rightarrow> Inl (SigningKeyInvalid e)
           | Inr signer \<Rightarrow> Inr signer))"

definition proxy_reviewer_config :: "host \<Rightarrow> string + AuthnConfig" where
  "proxy_reviewer_config ho =
     (let audience = getenv_or ho ''HANP_AUDIENCE'' ''ha-notify-proxy''; kubeAPI = ho_getenv ho ''HANP_KUBE_API''
      in if kubeAPI \<noteq> [] then
           Inr \<lparr>ac_APIBase = kubeAPI,
                ac_TokenFile = getenv_or ho ''HANP_KUBE_TOKEN_FILE'' ''/var/run/secrets/kubernetes.io/serviceaccount/token'',
                ac_CAFile = ho_getenv ho ''HANP_KUBE_CA_FILE'', ac_Audience = audience\<rparr>
         else InClusterConfig (ho_getenv ho) audience)"

definition zero_notify_config :: NotifyConfig where
  "zero_notify_config = \<lparr>nc_RatePerMinute = 0, nc_Burst = 0, nc_MaxBodyBytes = 0\<rparr>"

text \<open>Everything up to the start event.\<close>

definition proxy_setup :: "host \<Rightarrow> (string \<Rightarrow> string + NotifySubject list) \<Rightarrow> proxy_env \<Rightarrow>
    proxy_start_error + proxy \<times> Reviewer" where
  "proxy_setup ho yaml e =
     (let haURL = ho_getenv ho ''HANP_HA_URL''; brokerURL = ho_getenv ho ''HANP_BROKER_URL''
      in if haURL = [] then Inl HAURLRequired
         else if brokerURL = [] then Inl ProxyBrokerURLRequired
         else case proxy_loadSigner ho (pe_crypto e)
                     (getenv_or ho ''HANP_SIGNING_KEY_FILE'' ''/etc/ha-notify-proxy/keys/signing.pem'') (proxy_devInsecure ho) of
           Inl err \<Rightarrow> Inl (ProxySignerFailed err)
         | Inr signer \<Rightarrow>
             (case ho_readFile ho (getenv_or ho ''HANP_POLICY_FILE'' ''/etc/ha-notify-proxy/policy/policy.yaml'') of
                Inl err \<Rightarrow> Inl (NotifyPolicyUnreadable err)
              | Inr raw \<Rightarrow>
                  (case Notify_Parse yaml (cr_sha256 (pe_crypto e)) raw of
                     Inl err \<Rightarrow> Inl (NotifyPolicyFatal err)
                   | Inr pol \<Rightarrow>
                       (case proxy_reviewer_config ho of
                          Inl err \<Rightarrow> Inl (ProxyNotInCluster err)
                        | Inr cfg \<Rightarrow>
                            (case New_Reviewer (ho_readFile ho) (ho_certs ho) cfg of
                               Inl err \<Rightarrow> Inl (ProxyReviewerFailed err)
                             | Inr reviewer \<Rightarrow>
                                 (case NewLeaseClient (ho_readFile ho) (ho_certs ho) brokerURL
                                         (getenv_or ho ''HANP_BROKER_CA_FILE'' ''/etc/ha-notify-proxy/broker-ca/ca.crt'')
                                         (getenv_or ho ''HANP_LEASE_SCOPE'' ''ha-notify-token'')
                                         (getenv_or ho ''HANP_BROKER_TOKEN_FILE'' ''/var/run/secrets/broker/token'') of
                                    Inl err \<Rightarrow> Inl (LeaseClientFailed err)
                                  | Inr leaseClient \<Rightarrow>
                                      Inr (New_Proxy zero_notify_config pol (NewHAClient haURL) leaseClient
                                             (SetCounter (NewEmitter signer (instance_name ho))) signer NewMetrics, reviewer)))))))"

definition proxy_choose_listener :: "host \<Rightarrow> proxy_start_error + listener" where
  "proxy_choose_listener ho =
     (let tlsCert = ho_getenv ho ''HANP_TLS_CERT_FILE''; tlsKey = ho_getenv ho ''HANP_TLS_KEY_FILE''
      in if tlsCert \<noteq> [] \<and> tlsKey \<noteq> [] then
           (case Reloader_Config (ho_tls ho) (new_reloader tlsCert tlsKey) of
              Inl err \<Rightarrow> Inl (ProxyTLSKeypair err)
            | Inr r \<Rightarrow> Inr (ListenTLS r))
         else if proxy_devInsecure ho then Inr ListenPlain
         else Inl ProxyTLSRequired)"

section \<open>The cached probe\<close>

record cached_probe =
  cp_url :: string
  cp_ttl :: duration
  cp_at :: time
  cp_ok :: bool
  cp_seen :: bool

definition newCachedProbe :: "string \<Rightarrow> duration \<Rightarrow> cached_probe" where
  "newCachedProbe url ttl = \<lparr>cp_url = url, cp_ttl = ttl, cp_at = zero_time, cp_ok = False, cp_seen = False\<rparr>"

text \<open>One call of the returned function; it reads the clock on entry and once more after a probe.\<close>

definition probe_call :: "proxy_up \<Rightarrow> time \<Rightarrow> time \<Rightarrow> cached_probe \<Rightarrow> http_request list \<times> bool \<times> cached_probe" where
  "probe_call up now1 now2 p =
     (if cp_seen p \<and> sint (Sub now1 (cp_at p)) < sint (cp_ttl p) then ([], cp_ok p, p)
      else if \<not> pu_validURL up (cp_url p) then ([], False, p\<lparr>cp_at := now2, cp_ok := False, cp_seen := True\<rparr>)
      else let req = \<lparr>hq_method = ''GET'', hq_url = cp_url p, hq_header = [(''User-Agent'', ''ha-notify-proxy-readyz/1.0'')], hq_body = []\<rparr>;
               ok = \<not> isl (pu_do up req)
           in ([req], ok, p\<lparr>cp_at := now2, cp_ok := ok, cp_seen := True\<rparr>))"

text \<open>The process; \<open>pp_probed\<close> is what its readiness probe has sent.\<close>

record proxy_process =
  pp_server :: proxy
  pp_reviewer :: Reviewer
  pp_listener :: listener
  pp_probe :: cached_probe
  pp_probed :: "http_request list"

text \<open>\<open>run\<close> up to the point where it serves: what it has written to the audit stream, and the error or
  the process.\<close>

definition proxy_run :: "host \<Rightarrow> (string \<Rightarrow> string + NotifySubject list) \<Rightarrow> proxy_env \<Rightarrow>
    string \<times> (proxy_start_error + proxy_process)" where
  "proxy_run ho yaml e =
     (case proxy_setup ho yaml e of
        Inl err \<Rightarrow> ([], Inl err)
      | Inr (s0, reviewer) \<Rightarrow>
          let s = EmitStarted e s0;
              probe = newCachedProbe (ho_getenv ho ''HANP_HA_URL'' @ ''/manifest.json'') (30 * Second)
          in (em_out (px_emitter s),
              case proxy_choose_listener ho of
                Inl err \<Rightarrow> Inl err
              | Inr l \<Rightarrow> Inr \<lparr>pp_server = s, pp_reviewer = reviewer, pp_listener = l, pp_probe = probe, pp_probed = []\<rparr>))"

end
