(* ===== verification/Cached_Check.thy ===== *)
theory Cached_Check
  imports Proxy_Main
begin

text \<open>
  Health checks that are cached: the readiness probe of the proxy and the health check of the
  1Password provider keep their verdict for a while. The locale \<open>cached_check\<close> is what they have
  in common, and bounds the requests that any number of checks can cause.
\<close>

section \<open>Cached checks\<close>

text \<open>A sequence of checks, each with its two clock readings: the requests sent, and the state after it.\<close>

fun check_run :: "('w \<Rightarrow> time \<Rightarrow> time \<Rightarrow> 's \<Rightarrow> http_request list \<times> 'r \<times> 's) \<Rightarrow> ('w \<times> time \<times> time) list \<Rightarrow>
    's \<Rightarrow> http_request list \<times> 's" where
  "check_run check [] s = ([], s)"
| "check_run check ((w, now1, now2) # cs) s =
     (let (reqs, r, s1) = check w now1 now2 s; (reqs2, s2) = check_run check cs s1 in (reqs @ reqs2, s2))"

text \<open>The readings do not go back, and lie between \<open>t\<close> and \<open>T\<close>.\<close>

fun forward_in_time :: "time \<Rightarrow> ('w \<times> time \<times> time) list \<Rightarrow> time \<Rightarrow> bool" where
  "forward_in_time t [] T = (t \<le> T)"
| "forward_in_time t ((w, now1, now2) # cs) T = (t \<le> now1 \<and> now1 \<le> now2 \<and> forward_in_time now2 cs T)"

lemma forward_in_time_le: "forward_in_time t cs T \<Longrightarrow> t \<le> T"
  by (induction t cs T rule: forward_in_time.induct) auto

lemma forward_in_time_mono: "forward_in_time t cs T \<Longrightarrow> t' \<le> t \<Longrightarrow> forward_in_time t' cs T"
  by (cases cs) auto

text \<open>A check that asks upstream at most once and keeps the verdict for \<open>ttl\<close> nanoseconds.\<close>

locale cached_check =
  fixes check :: "'w \<Rightarrow> time \<Rightarrow> time \<Rightarrow> 's \<Rightarrow> http_request list \<times> 'r \<times> 's"
    and stamp :: "'s \<Rightarrow> time option"
    and ttl :: "'s \<Rightarrow> int"
  assumes hit: "stamp s = Some t \<Longrightarrow> 0 < ttl s \<Longrightarrow> now1 - t < ttl s \<Longrightarrow> fst (check w now1 now2 s) = [] \<and> snd (snd (check w now1 now2 s)) = s"
    and asks: "length (fst (check w now1 now2 s)) \<le> 1"
    and stamps: "fst (check w now1 now2 s) = [] \<and> snd (snd (check w now1 now2 s)) = s \<or>
      stamp (snd (snd (check w now1 now2 s))) = Some now2"
    and same_ttl: "ttl (snd (snd (check w now1 now2 s))) = ttl s"
begin

lemma check_run_Cons:
  "fst (check_run check ((w, now1, now2) # cs) s) =
     fst (check w now1 now2 s) @ fst (check_run check cs (snd (snd (check w now1 now2 s))))"
  by (simp add: split_beta Let_def)

text \<open>After a verdict at \<open>t\<close>, requests are at least \<open>ttl\<close> apart.\<close>

lemma stamped_bound:
  assumes "stamp s = Some t" "t \<le> t0" "forward_in_time t0 cs T" "0 < ttl s"
  shows "int (length (fst (check_run check cs s))) * ttl s \<le> T - t"
  using assms
proof (induction cs arbitrary: s t t0)
  case Nil
  then show ?case by simp
next
  case (Cons c cs)
  obtain w n1 n2 where c: "c = (w, n1, n2)" by (cases c)
  let ?s = "snd (snd (check w n1 n2 s))" and ?q = "fst (check w n1 n2 s)"
  have time: "t0 \<le> n1" "n1 \<le> n2" "forward_in_time n2 cs T" using Cons.prems(3) c by auto
  from stamps [of w n1 n2 s] show ?case
  proof
    assume "?q = [] \<and> ?s = s"
    then show ?thesis using Cons.IH [of s t n2] Cons.prems time unfolding c check_run_Cons by simp
  next
    assume st: "stamp ?s = Some n2"
    let ?n = "length (fst (check_run check cs ?s))"
    have rest: "int ?n * ttl s \<le> T - n2" using Cons.IH [OF st order_refl time(3)] Cons.prems(4) same_ttl [of w n1 n2 s] by simp
    show ?thesis
    proof (cases "?q = []")
      case True
      then show ?thesis unfolding c check_run_Cons using rest time Cons.prems(2) by simp
    next
      case False
      then have "ttl s \<le> n1 - t" using hit [OF Cons.prems(1,4), of n1 w n2] by force
      moreover have "length ?q = 1" using False asks [of w n1 n2 s] by (cases ?q) auto
      ultimately show ?thesis unfolding c check_run_Cons using rest time by (simp add: algebra_simps)
    qed
  qed
qed

lemma run_bound:
  assumes "forward_in_time t0 cs T" "0 < ttl s"
  shows "(int (length (fst (check_run check cs s))) - 1) * ttl s \<le> T - t0"
  using assms
proof (induction cs arbitrary: s t0)
  case Nil
  then show ?case by simp
next
  case (Cons c cs)
  obtain w n1 n2 where c: "c = (w, n1, n2)" by (cases c)
  let ?s = "snd (snd (check w n1 n2 s))" and ?q = "fst (check w n1 n2 s)"
  have time: "t0 \<le> n1" "n1 \<le> n2" "forward_in_time n2 cs T" using Cons.prems(1) c by auto
  from stamps [of w n1 n2 s] show ?case
  proof
    assume "?q = [] \<and> ?s = s"
    then show ?thesis using Cons.IH [of n2 s] Cons.prems(2) time unfolding c check_run_Cons by simp
  next
    assume st: "stamp ?s = Some n2"
    have "int (length (fst (check_run check cs ?s))) * ttl s \<le> T - n2"
      using stamped_bound [OF st order_refl time(3)] Cons.prems(2) same_ttl [of w n1 n2 s] by simp
    moreover have "(int (length ?q) - 1) * ttl s \<le> 0"
      using asks [of w n1 n2 s] Cons.prems(2) by (simp add: mult_nonpos_nonneg)
    ultimately show ?thesis unfolding c check_run_Cons using time by (simp add: algebra_simps)
  qed
qed

end

lemma Sub_less_iff: "0 < sint (d :: duration) \<Longrightarrow> sint (Sub now t) < sint d \<longleftrightarrow> now - t < sint d"
  using sint_range [of d] by (auto simp: sint_Sub min_def max_def min_int64_def max_int64_def)

interpretation ha_probe: cached_check probe_call "\<lambda>p. if cp_seen p then Some (cp_at p) else None" "\<lambda>p. sint (cp_ttl p)"
  by standard (auto simp: probe_call_def Sub_less_iff Let_def split: if_splits)

interpretation op_health: cached_check Healthy "\<lambda>o1. Some (op_healthAt o1)" "\<lambda>_. sint healthTTL"
  by standard (auto simp: Healthy_def Sub_less_iff probeAuthenticated_def split_beta Let_def split: if_splits sum.splits)

section \<open>The traffic of health checks\<close>

definition readyz_request :: "string \<Rightarrow> http_request" where
  "readyz_request url = \<lparr>hq_method = ''GET'', hq_url = url, hq_header = [(''User-Agent'', ''ha-notify-proxy-readyz/1.0'')], hq_body = []\<rparr>"

lemma probe_run_requests: "set (fst (check_run probe_call cs p)) \<subseteq> {readyz_request (cp_url p)}"
proof (induction cs arbitrary: p)
  case (Cons c cs)
  obtain w n1 n2 where c: "c = (w, n1, n2)" by (cases c)
  have "set (fst (probe_call w n1 n2 p)) \<subseteq> {readyz_request (cp_url p)}" "cp_url (snd (snd (probe_call w n1 n2 p))) = cp_url p"
    by (auto simp: probe_call_def readyz_request_def Let_def)
  then show ?case using Cons [of "snd (snd (probe_call w n1 n2 p))"] by (auto simp: c split_beta Let_def)
qed simp

text \<open>C34: health checks do not hammer what they check. However often and from wherever the health
  endpoints are asked between \<open>t0\<close> and \<open>T\<close>, the proxy probes Home Assistant at most once at
  first and then once in 30 seconds, with a GET that carries no credential, and the 1Password
  provider probes the Connect server at most once at first and then once in 60 seconds, whether
  the probes succeed or fail.\<close>

theorem health_traffic_bound:
  assumes "forward_in_time t0 cs T" "forward_in_time t0 ds T"
  shows "(int (length (fst (check_run probe_call cs (newCachedProbe url (30 * Second))))) - 1) * 30000000000 \<le> T - t0 \<and>
    set (fst (check_run probe_call cs (newCachedProbe url (30 * Second)))) \<subseteq> {readyz_request url} \<and>
    (int (length (fst (check_run Healthy ds o1))) - 1) * 60000000000 \<le> T - t0"
proof -
  have ttl: "sint (cp_ttl (newCachedProbe url (30 * Second))) = 30000000000" "sint healthTTL = 60000000000" by code_simp+
  show ?thesis
    using ha_probe.run_bound [OF assms(1), of "newCachedProbe url (30 * Second)"] op_health.run_bound [OF assms(2), of o1]
      probe_run_requests [of cs "newCachedProbe url (30 * Second)"]
    by (simp add: ttl) (simp add: newCachedProbe_def)
qed

text \<open>Three checks within 30 seconds of a Home Assistant that is down: one probe.\<close>

definition down_up :: proxy_up where
  "down_up = \<lparr>pu_validURL = (\<lambda>_. True), pu_readFile = Inr, pu_do = (\<lambda>_. Inl ''refused'')\<rparr>"

definition sample_checks :: "(proxy_up \<times> time \<times> time) list" where
  "sample_checks = [(down_up, 1, 2), (down_up, 5000000000, 5000000001), (down_up, 29000000000, 29000000001)]"

theorem health_traffic_bound_witness:
  "fst (check_run probe_call sample_checks (newCachedProbe ''u'' (30 * Second))) = [readyz_request ''u'']"
proof -
  have "forward_in_time 0 sample_checks 29000000001" "forward_in_time 0 ([] :: (upstream \<times> time \<times> time) list) 29000000001"
    by (simp_all add: sample_checks_def)
  note bound = health_traffic_bound [OF this, of "''u''" "NewOnePassword ''https://connect/''"]
  have "n \<le> 1" if "(int n - 1) * 30000000000 \<le> 29000000001 - 0" for n
  proof (rule ccontr)
    assume "\<not> n \<le> 1"
    then have "1 * 30000000000 \<le> (int n - 1) * 30000000000" by (intro mult_right_mono) simp_all
    with that show False by simp
  qed
  from this [OF conjunct1 [OF bound]] have "length (fst (check_run probe_call sample_checks (newCachedProbe ''u'' (30 * Second)))) \<le> 1" .
  moreover have "set (fst (check_run probe_call sample_checks (newCachedProbe ''u'' (30 * Second)))) \<subseteq> {readyz_request ''u''}"
    using bound by blast
  moreover have "fst (check_run probe_call sample_checks (newCachedProbe ''u'' (30 * Second))) \<noteq> []"
    by (simp add: sample_checks_def probe_call_def newCachedProbe_def down_up_def split_beta Let_def)
  ultimately show ?thesis by (cases "fst (check_run probe_call sample_checks (newCachedProbe ''u'' (30 * Second)))") auto
qed

end
