(* ===== verification/Proxy_Stream.thy ===== *)
theory Proxy_Stream
  imports Proxy_Main Emission_Runs
begin

text \<open>
  What a request does to the proxy's audit stream and to its upstream traffic, in a form that can be
  chained: \<open>serves\<close> for the stream and what stays as configured, \<open>forward_traffic\<close> for the requests
  sent, with the lease behind each call and the event that records it.
\<close>

section \<open>What the steps add to the stream\<close>

abbreviation proxy_stream_run :: "proxy_env \<Rightarrow> Emitter \<Rightarrow> Emitter \<Rightarrow> bool" where
  "proxy_stream_run e \<equiv> emissions_run (pe_crypto e) (pe_clock e) (pe_write e)"

text \<open>A step that serves: it emits, and leaves the policy, the clients and the signer alone.\<close>

definition serves :: "proxy_env \<Rightarrow> proxy \<Rightarrow> proxy \<Rightarrow> bool" where
  "serves e s s' \<longleftrightarrow> proxy_stream_run e (px_emitter s) (px_emitter s') \<and>
     px_policy s' = px_policy s \<and> px_ha s' = px_ha s \<and> px_lease s' = px_lease s \<and> px_signer s' = px_signer s"

text \<open>A status code has three digits: \<open>net/http\<close> refuses any other response.\<close>

definition http_statuses :: "proxy_env \<Rightarrow> bool" where
  "http_statuses e \<longleftrightarrow> (\<forall>k q resp. pu_do (pe_up e k) q = Inr resp \<longrightarrow> 0 \<le> hr_status resp \<and> hr_status resp < 1000)"

lemma serves_refl [intro!]: "serves e s s"
  by (simp add: serves_def run_refl)

lemma serves_trans: "serves e s1 s2 \<Longrightarrow> serves e s2 s3 \<Longrightarrow> serves e s1 s3"
  by (auto simp: serves_def intro: run_trans)

lemma serves_quiet [intro!]:
  "serves e s s1 \<Longrightarrow> serves e s (ptick s1)" "serves e s s1 \<Longrightarrow> serves e s (pinc e1 n ls s1)"
  "serves e s s1 \<Longrightarrow> serves e s (snd (pallow_limiter e1 k s1))" "serves e s s1 \<Longrightarrow> serves e s (snd (pallow_authFail e1 k s1))"
  "serves e s s1 \<Longrightarrow> serves e s (snd (pallow_rlAudit e1 k s1))" "serves e s s1 \<Longrightarrow> serves e s (psend qs s1)"
  by (simp_all add: serves_def ptick_def pinc_def pallow_limiter_def pallow_authFail_def pallow_rlAudit_def psend_def split_beta Let_def)

lemma pinc_hooks_signer: "px_signer (fold (\<lambda>t. pinc e n (f t)) hs s) = px_signer s"
  by (induction hs arbitrary: s) (simp_all add: pinc_def)

lemma serves_emit [intro!]:
  assumes "serves e s s1" "event_small ev"
  shows "serves e s (pemit e ev s1)"
proof -
  have "proxy_stream_run e (px_emitter s1) (px_emitter (pemit e ev s1))"
    using run_once [OF assms(2), of "pe_crypto e" "pe_clock e" "pe_write e" "px_emitter s1" "px_tick s1"]
    by (simp add: pemit_emitter pnow_def)
  moreover have "px_signer (pemit e ev s1) = px_signer s1"
    by (simp add: pemit_def split_beta Let_def pinc_hooks_signer) (simp add: ptick_def)
  ultimately show ?thesis using assms(1) unfolding serves_def by (auto intro: run_trans)
qed

lemma forwarded_small [intro!]:
  "0 \<le> st \<Longrightarrow> st < 1000 \<Longrightarrow> event_small (base_event typ rid sub src (forwarded_attested pol k d sv st dl li er) [])"
  by (auto simp: small forwarded_attested_def)

lemma HA_Call_status:
  assumes "http_statuses e"
  shows "0 \<le> fst (snd (HA_Call (pe_up e k) h tok d sv body))" "fst (snd (HA_Call (pe_up e k) h tok d sv body)) < 1000"
  using assms by (auto simp: HA_Call_def http_statuses_def Let_def split: sum.split)

lemma auth_failure_serves [intro!]: "serves e s s1 \<Longrightarrow> serves e s (notify_recordAuthFailure e rid src why s1)"
  by (auto simp: notify_recordAuthFailure_def split_beta Let_def small)

lemma notify_deny_serves [intro!]: "serves e s s1 \<Longrightarrow> serves e s (snd (notify_deny e rc k why st pt ti ass s1))"
  by (auto simp: notify_deny_def Let_def small)

lemma emitForwarded_serves [intro!]: "serves e s s1 \<Longrightarrow> 0 \<le> st \<Longrightarrow> st < 1000 \<Longrightarrow> serves e s (emitForwarded e rc k d sv st dl li er s1)"
  by (auto simp: emitForwarded_def)

lemma forward_serves: "http_statuses e \<Longrightarrow> serves e s s1 \<Longrightarrow> serves e s (snd (forward e rc k d sv body s1))"
  by (auto simp: forward_def split_beta Let_def HA_Call_status split: sum.split)

lemma rateOK_serves: "serves e s s1 \<Longrightarrow> serves e s (snd (rateOK e rc s1))"
  by (auto simp: rateOK_def split_beta Let_def small)

lemma notify_mux_serves:
  assumes "http_statuses e"
  shows "serves e s (snd (notify_mux e rt rc s))"
proof -
  obtain o1 s1 where rate: "rateOK e rc s = (o1, s1)" by fastforce
  then have "serves e s s1" using rateOK_serves [of e s s rc] by auto
  then show ?thesis
    by (cases rt; cases o1)
      (auto simp: handlePush_def handlePersistentCreate_def handlePersistentDismiss_def rate Let_def forward_serves [OF assms] serves_quiet
        split: option.split)
qed

lemma Notify_Handler_serves:
  assumes "http_statuses e"
  shows "serves e s (snd (Notify_Handler e r rt s))"
proof -
  have "serves e s (snd (notify_mux e rt rc (ptick (ptick s))))" for rc
    using serves_trans [OF _ notify_mux_serves [OF assms]] by blast
  then show ?thesis
    by (auto simp: Notify_Handler_def notify_withRequestID_def notify_withAuth_def split_beta Let_def split: sum.split)
qed

section \<open>What a request sends\<close>

text \<open>The broker answered \<open>q\<close> with a lease of \<open>token\<close>.\<close>

definition leased :: "proxy_env \<Rightarrow> http_request \<Rightarrow> string \<Rightarrow> bool" where
  "leased e q token \<longleftrightarrow>
     (\<exists>k resp lr. pu_do (pe_up e k) q = Inr resp \<and> hr_status resp = 201 \<and> decode_leaseResp (hr_body resp) = Some lr \<and>
        token = gindex (lp_Secret lr) ''token'' \<and> token \<noteq> [] \<and> lp_LeaseID lr \<noteq> [])"

lemma lease_backed:
  assumes "LeaseClient_Lease (pe_up e k) lc ctx = (qs, Inr l)"
  shows "\<exists>own. qs = [lease_request lc own ctx] \<and> leased e (lease_request lc own ctx) (nl_Token l)"
  using assms by (fastforce simp: LeaseClient_Lease_def leased_def Let_def split: if_splits sum.splits option.splits)

text \<open>A \<open>notify.forwarded\<close> event of the stream with this subject and action.\<close>

definition forward_recorded :: "proxy_env \<Rightarrow> Emitter \<Rightarrow> Subject \<Rightarrow> string \<Rightarrow> string \<Rightarrow> string \<Rightarrow> bool" where
  "forward_recorded e em sub kind domain service \<longleftrightarrow>
     (\<exists>ev. in_stream (pe_crypto e) em ev \<and> ev_Type ev = ''notify.forwarded'' \<and> ev_Subject ev = Some sub \<and>
        {(''kind'', JStr kind), (''ha_domain'', JStr domain), (''ha_service'', JStr service)} \<subseteq> set (ev_Attested ev))"

definition emitter_works :: "proxy_env \<Rightarrow> bool" where
  "emitter_works e \<longleftrightarrow> (\<forall>k. pe_write e k = Written) \<and> (\<forall>x. \<not> isl (cr_jcs (pe_crypto e) x))"

lemma committed_in_stream:
  assumes "em' = em\<lparr>em_out := em_out em @ event_line ev, em_seq := em_seq em + 1\<rparr>" "signed_by cr (em_signer em) ev"
  shows "in_stream cr em' ev"
  using assms by (auto simp: in_stream_def intro: exI [of _ "[]"])

lemma forward_event:
  "\<exists>st dl li er. attempted e (base_event ''notify.forwarded'' (rc_RequestID rc) (Some (rc_Subject rc)) (Some (rc_Source rc))
     (forwarded_attested (px_policy s) kind domain service st dl li er) []) (px_emitter s) (px_emitter (snd (forward e rc kind domain service body s)))"
proof -
  have ev: "attempted e (base_event ''notify.forwarded'' (rc_RequestID rc) (Some (rc_Subject rc)) (Some (rc_Source rc))
      (forwarded_attested (px_policy s1) kind domain service st dl li er) []) (px_emitter s1)
      (px_emitter (emitForwarded e rc kind domain service st dl li er s1))" for s1 st dl li er
    unfolding emitForwarded_def by (rule pemit_attempted [OF refl])
  obtain qs r where L: "LeaseClient_Lease (pe_up e (px_tick s)) (px_lease s) (lease_context (rc_Subject rc) kind domain service) = (qs, r)"
    by fastforce
  show ?thesis
  proof (cases r)
    case (Inl err)
    then show ?thesis unfolding forward_unleased [OF L [unfolded Inl]]
      using ev [of "pinc e ''acb_notify_lease_errors_total'' [] (psend qs s)"] by (auto intro!: exI)
  next
    case (Inr l)
    let ?H = "HA_Call (pe_up e (Suc (px_tick s))) (px_ha s) (nl_Token l) domain service body"
    obtain resp name er where f: "forward e rc kind domain service body s = (resp, pinc e name [(''kind'', kind)]
          (emitForwarded e rc kind domain service (fst (snd ?H)) (ha_delivered ?H) (nl_LeaseID l) er (psend (fst ?H) (psend qs s))))"
      using forward_leased [OF L [unfolded Inr] refl, of body] by blast
    show ?thesis unfolding f using ev [of "psend (fst ?H) (psend qs s)"] by (auto intro!: exI)
  qed
qed

lemma forward_is_recorded:
  assumes "emitter_works e"
  shows "forward_recorded e (px_emitter (snd (forward e rc kind domain service body s))) (rc_Subject rc) kind domain service"
proof -
  obtain st dl li er where "attempted e (base_event ''notify.forwarded'' (rc_RequestID rc) (Some (rc_Subject rc)) (Some (rc_Source rc))
      (forwarded_attested (px_policy s) kind domain service st dl li er) []) (px_emitter s) (px_emitter (snd (forward e rc kind domain service body s)))"
    using forward_event by blast
  from attempted_committed [OF this] assms obtain sev where
      sev: "px_emitter (snd (forward e rc kind domain service body s)) =
         px_emitter s\<lparr>em_out := em_out (px_emitter s) @ event_line sev, em_seq := em_seq (px_emitter s) + 1\<rparr>"
      "signed_by (pe_crypto e) (em_signer (px_emitter s)) sev" "ev_Type sev = ''notify.forwarded''"
      "ev_Subject sev = Some (rc_Subject rc)" "ev_Attested sev = forwarded_attested (px_policy s) kind domain service st dl li er"
    unfolding emitter_works_def by auto
  then show ?thesis
    using committed_in_stream [OF sev(1,2)] unfolding forward_recorded_def
    by (intro exI [of _ sev]) (simp add: forwarded_attested_def)
qed

lemma forward_recorded_mono:
  "proxy_stream_run e em em' \<Longrightarrow> forward_recorded e em sub kind domain service \<Longrightarrow> forward_recorded e em' sub kind domain service"
  using in_stream_mono [of "pe_crypto e" "pe_clock e" "pe_write e" em em'] unfolding forward_recorded_def by blast

text \<open>Nothing, the lease alone, or the lease and the one call with the token it gave.\<close>

lemma forward_traffic:
  fixes s :: proxy and rc :: reqctx and kind domain service :: string
  defines "L \<equiv> \<lambda>own. lease_request (px_lease s) own (lease_context (rc_Subject rc) kind domain service)"
  shows "\<exists>qs. px_sent (snd (forward e rc kind domain service body s)) = px_sent s @ qs \<and>
    (qs = [] \<or> (\<exists>own. qs = [L own]) \<or>
     (\<exists>own token. qs = [L own, ha_request (px_ha s) token domain service body] \<and> haAllowed domain service \<and> leased e (L own) token))"
proof -
  obtain qs r where lease: "LeaseClient_Lease (pe_up e (px_tick s)) (px_lease s) (lease_context (rc_Subject rc) kind domain service) = (qs, r)"
    by fastforce
  show ?thesis
  proof (cases r)
    case (Inl err)
    then have "px_sent (snd (forward e rc kind domain service body s)) = px_sent s @ qs" using lease by (simp add: forward_def)
    then show ?thesis using lease_sends(1) [of "pe_up e (px_tick s)" "px_lease s"] lease unfolding L_def by (metis fst_conv)
  next
    case (Inr l)
    let ?H = "HA_Call (pe_up e (Suc (px_tick s))) (px_ha s) (nl_Token l) domain service body"
    have "px_sent (snd (forward e rc kind domain service body s)) = px_sent s @ qs @ fst ?H"
      using Inr lease by (simp add: forward_def split_beta Let_def)
    moreover obtain own where "qs = [L own]" "leased e (L own) (nl_Token l)"
      using lease_backed [OF lease [unfolded Inr]] unfolding L_def by blast
    ultimately show ?thesis
      using ha_sends [of "pe_up e (Suc (px_tick s))" "px_ha s" "nl_Token l" domain service body] by auto
  qed
qed

end
