(* ===== verification/Proxy_System.thy ===== *)
theory Proxy_System
  imports Proxy_Stream
begin

text \<open>
  The notification proxy as a state machine: from what \<open>run\<close> sets up, its steps are requests,
  readiness checks and TLS handshakes, in any order. The invariants of the reachable states
  discharge the hypotheses of the theorems about single requests, and give the properties of the
  whole life of a proxy.
\<close>

section \<open>Starting\<close>

abbreviation proxy_signer_of :: "host \<Rightarrow> proxy_env \<Rightarrow> start_error + Signer" where
  "proxy_signer_of ho e \<equiv> proxy_loadSigner ho (pe_crypto e)
     (getenv_or ho ''HANP_SIGNING_KEY_FILE'' ''/etc/ha-notify-proxy/keys/signing.pem'') (proxy_devInsecure ho)"

abbreviation proxy_policy_file :: "host \<Rightarrow> string" where
  "proxy_policy_file ho \<equiv> getenv_or ho ''HANP_POLICY_FILE'' ''/etc/ha-notify-proxy/policy/policy.yaml''"

abbreviation lease_client_of :: "host \<Rightarrow> lease_error + LeaseClient" where
  "lease_client_of ho \<equiv> NewLeaseClient (ho_readFile ho) (ho_certs ho) (ho_getenv ho ''HANP_BROKER_URL'')
     (getenv_or ho ''HANP_BROKER_CA_FILE'' ''/etc/ha-notify-proxy/broker-ca/ca.crt'')
     (getenv_or ho ''HANP_LEASE_SCOPE'' ''ha-notify-token'') (getenv_or ho ''HANP_BROKER_TOKEN_FILE'' ''/var/run/secrets/broker/token'')"

definition initial_proxy :: "host \<Rightarrow> Signer \<Rightarrow> NotifyPolicy \<Rightarrow> LeaseClient \<Rightarrow> proxy" where
  "initial_proxy ho signer pol lease =
     New_Proxy zero_notify_config pol (NewHAClient (ho_getenv ho ''HANP_HA_URL'')) lease
       (SetCounter (NewEmitter signer (instance_name ho))) signer NewMetrics"

lemma proxy_run_Inr:
  "proxy_run ho yaml e = (out, Inr p) \<longleftrightarrow>
     (\<exists>signer raw pol cfg lease. ho_getenv ho ''HANP_HA_URL'' \<noteq> [] \<and> ho_getenv ho ''HANP_BROKER_URL'' \<noteq> [] \<and>
        proxy_signer_of ho e = Inr signer \<and> ho_readFile ho (proxy_policy_file ho) = Inr raw \<and>
        Notify_Parse yaml (cr_sha256 (pe_crypto e)) raw = Inr pol \<and> proxy_reviewer_config ho = Inr cfg \<and>
        New_Reviewer (ho_readFile ho) (ho_certs ho) cfg = Inr (pp_reviewer p) \<and> lease_client_of ho = Inr lease \<and>
        proxy_choose_listener ho = Inr (pp_listener p) \<and>
        pp_server p = EmitStarted e (initial_proxy ho signer pol lease) \<and>
        pp_probe p = newCachedProbe (ho_getenv ho ''HANP_HA_URL'' @ ''/manifest.json'') (30 * Second) \<and>
        pp_probed p = [] \<and> out = em_out (px_emitter (pp_server p)))"
  by (cases p) (auto simp: proxy_run_def proxy_setup_def initial_proxy_def Let_def split: sum.splits if_splits)

lemma initial_proxy_simps [simp]:
  "px_policy (initial_proxy ho signer pol lease) = pol" "px_lease (initial_proxy ho signer pol lease) = lease"
  "px_signer (initial_proxy ho signer pol lease) = signer" "px_sent (initial_proxy ho signer pol lease) = []"
  "px_ha (initial_proxy ho signer pol lease) = NewHAClient (ho_getenv ho ''HANP_HA_URL'')"
  "px_emitter (initial_proxy ho signer pol lease) = SetCounter (NewEmitter signer (instance_name ho))"
  by (simp_all add: initial_proxy_def New_Proxy_def Let_def)

lemma EmitStarted_serves: "serves e s (EmitStarted e s)"
  by (auto simp: EmitStarted_def small)

lemma EmitStarted_sent [simp]: "px_sent (EmitStarted e s) = px_sent s"
  by (simp add: EmitStarted_def)

lemma proxy_loadSigner_pub: "proxy_loadSigner ho cr path dev = Inr sg \<Longrightarrow> sg_pub sg = cr_public cr (sg_priv sg)"
  by (auto simp: proxy_loadSigner_def ParseSignerPEM_def NewSigner_def Let_def split: sum.splits if_splits option.splits pkcs8.splits)

lemma NewLeaseClient_pinned:
  "NewLeaseClient readFile certs url ca scope tok = Inr lc \<Longrightarrow> ca \<noteq> [] \<Longrightarrow>
    \<exists>pem. readFile ca = Inr pem \<and> certs pem \<and> lc_rootCAs lc = Some pem"
  by (auto simp: NewLeaseClient_def Let_def split: sum.splits if_splits)

section \<open>Steps\<close>

datatype proxy_act =
    NotifyRequest http_in notify_route
  | ReadyCheck proxy_up time time
  | ProxyHandshake "string disk"

fun proxy_step :: "proxy_env \<Rightarrow> proxy_act \<Rightarrow> proxy_process \<Rightarrow> proxy_process" where
  "proxy_step e (NotifyRequest r rt) p = p\<lparr>pp_server := snd (Notify_Handler e r rt (pp_server p))\<rparr>"
| "proxy_step e (ReadyCheck up now1 now2) p =
     (let (sent, ok, probe) = probe_call up now1 now2 (pp_probe p) in p\<lparr>pp_probe := probe, pp_probed := pp_probed p @ sent\<rparr>)"
| "proxy_step e (ProxyHandshake d) p =
     (case pp_listener p of
        ListenPlain \<Rightarrow> p
      | ListenTLS r \<Rightarrow> p\<lparr>pp_listener := ListenTLS (snd (GetCertificate d r))\<rparr>)"

inductive proxy_reachable :: "host \<Rightarrow> (string \<Rightarrow> string + NotifySubject list) \<Rightarrow> proxy_env \<Rightarrow> proxy_process \<Rightarrow> bool"
  for ho yaml e where
  started: "proxy_run ho yaml e = (out, Inr p) \<Longrightarrow> proxy_reachable ho yaml e p"
| step: "proxy_reachable ho yaml e p \<Longrightarrow> proxy_reachable ho yaml e (proxy_step e a p)"

text \<open>A step either serves a request or leaves the server alone, and keeps the reviewer.\<close>

lemma proxy_step_cases:
  obtains (request) r rt where "a = NotifyRequest r rt" "pp_server (proxy_step e a p) = snd (Notify_Handler e r rt (pp_server p))"
      "pp_reviewer (proxy_step e a p) = pp_reviewer p"
  | (other) "pp_server (proxy_step e a p) = pp_server p" "pp_reviewer (proxy_step e a p) = pp_reviewer p"
  by (cases a) (auto simp: split_beta Let_def split: listener.splits)

section \<open>What every step keeps\<close>

definition proxy_running :: "host \<Rightarrow> (string \<Rightarrow> string + NotifySubject list) \<Rightarrow> proxy_env \<Rightarrow> proxy_process \<Rightarrow> bool" where
  "proxy_running ho yaml e p \<longleftrightarrow>
     proxy_signer_of ho e = Inr (px_signer (pp_server p)) \<and> lease_client_of ho = Inr (px_lease (pp_server p)) \<and>
     px_ha (pp_server p) = NewHAClient (ho_getenv ho ''HANP_HA_URL'') \<and>
     (\<exists>raw. ho_readFile ho (proxy_policy_file ho) = Inr raw \<and>
        Notify_Parse yaml (cr_sha256 (pe_crypto e)) raw = Inr (px_policy (pp_server p))) \<and>
     (\<exists>cfg. proxy_reviewer_config ho = Inr cfg \<and> New_Reviewer (ho_readFile ho) (ho_certs ho) cfg = Inr (pp_reviewer p)) \<and>
     proxy_stream_run e (SetCounter (NewEmitter (px_signer (pp_server p)) (instance_name ho))) (px_emitter (pp_server p))"

lemma proxy_running_serves:
  assumes "proxy_running ho yaml e p" "serves e (pp_server p) (pp_server q)" "pp_reviewer q = pp_reviewer p"
  shows "proxy_running ho yaml e q"
  using assms run_trans by (auto simp: proxy_running_def serves_def)

lemma proxy_reachable_running:
  assumes "http_statuses e"
  shows "proxy_reachable ho yaml e p \<Longrightarrow> proxy_running ho yaml e p"
proof (induction rule: proxy_reachable.induct)
  case (started out p)
  then obtain signer raw pol cfg lease where p: "proxy_signer_of ho e = Inr signer" "ho_readFile ho (proxy_policy_file ho) = Inr raw"
      "Notify_Parse yaml (cr_sha256 (pe_crypto e)) raw = Inr pol" "proxy_reviewer_config ho = Inr cfg"
      "New_Reviewer (ho_readFile ho) (ho_certs ho) cfg = Inr (pp_reviewer p)" "lease_client_of ho = Inr lease"
      "pp_server p = EmitStarted e (initial_proxy ho signer pol lease)"
    unfolding proxy_run_Inr by blast
  let ?p = "p\<lparr>pp_server := initial_proxy ho signer pol lease\<rparr>"
  have "proxy_running ho yaml e ?p" using p by (simp add: proxy_running_def run_refl)
  then show ?case by (rule proxy_running_serves) (use EmitStarted_serves p(7) in auto)
next
  case (step p a)
  show ?case
    by (rule proxy_running_serves [OF step.IH])
      (cases rule: proxy_step_cases [of a e p]; use Notify_Handler_serves [OF assms] in auto)+
qed

section \<open>The upstream traffic\<close>

text \<open>The traffic of the readiness probe: GET requests for the manifest of the configured Home Assistant,
  with no credential.\<close>

lemma proxy_probes_bare:
  "proxy_reachable ho yaml e p \<Longrightarrow> cp_url (pp_probe p) = ho_getenv ho ''HANP_HA_URL'' @ ''/manifest.json'' \<and>
     (\<forall>q \<in> set (pp_probed p). hq_method q = ''GET'' \<and> hq_url q = ho_getenv ho ''HANP_HA_URL'' @ ''/manifest.json'' \<and>
        hq_header q = [(''User-Agent'', ''ha-notify-proxy-readyz/1.0'')] \<and> hq_body q = [])"
proof (induction rule: proxy_reachable.induct)
  case (started out p)
  then show ?case by (auto simp: proxy_run_Inr newCachedProbe_def)
next
  case (step p a)
  then show ?case by (cases a) (auto simp: probe_call_def Let_def split_beta split: listener.splits)
qed

text \<open>The traffic of the two clients.\<close>

text \<open>Request \<open>q\<close>, sent after those in \<open>earlier\<close>, has its reason: it asks the broker for a lease in the
  name of an authenticated subject, for an action that the policy permits to it; or it is that
  action, comes right after that request, and carries the token the broker gave in answer to it.
  While the emitter works, the action is in the audit stream.\<close>

definition in_turn :: "proxy_env \<Rightarrow> proxy \<Rightarrow> http_request list \<Rightarrow> http_request \<Rightarrow> bool" where
  "in_turn e s earlier q \<longleftrightarrow>
     (\<exists>sub kind domain service body own k presented.
        pe_authn e k presented = Inr sub \<and> permitted (px_policy s) sub kind domain service body \<and>
        (emitter_works e \<longrightarrow> forward_recorded e (px_emitter s) sub kind domain service) \<and>
        (q = lease_request (px_lease s) own (lease_context sub kind domain service) \<or>
         (\<exists>before token. earlier = before @ [lease_request (px_lease s) own (lease_context sub kind domain service)] \<and>
            leased e (last earlier) token \<and> haAllowed domain service \<and> q = ha_request (px_ha s) token domain service body)))"

lemma in_turn_mono:
  assumes "serves e s s'" "in_turn e s earlier q"
  shows "in_turn e s' earlier q"
proof -
  have "proxy_stream_run e (px_emitter s) (px_emitter s')" "px_policy s' = px_policy s" "px_ha s' = px_ha s" "px_lease s' = px_lease s"
    using assms(1) by (simp_all add: serves_def)
  then show ?thesis using assms(2) forward_recorded_mono [of e "px_emitter s" "px_emitter s'"] unfolding in_turn_def by metis
qed

definition all_in_turn :: "proxy_env \<Rightarrow> proxy \<Rightarrow> bool" where
  "all_in_turn e s \<longleftrightarrow> (\<forall>i < length (px_sent s). in_turn e s (take i (px_sent s)) (px_sent s ! i))"

lemma all_in_turn_append:
  assumes "all_in_turn e s" "serves e s s'" "px_sent s' = px_sent s @ qs"
    and "\<And>i. i < length qs \<Longrightarrow> in_turn e s' (px_sent s @ take i qs) (qs ! i)"
  shows "all_in_turn e s'"
  unfolding all_in_turn_def
proof (intro allI impI)
  fix i assume i: "i < length (px_sent s')"
  show "in_turn e s' (take i (px_sent s')) (px_sent s' ! i)"
  proof (cases "i < length (px_sent s)")
    case True
    then show ?thesis using in_turn_mono [OF assms(2)] assms(1,3) by (simp add: all_in_turn_def nth_append)
  next
    case False
    then show ?thesis using assms(4) [of "i - length (px_sent s)"] i assms(3) by (simp add: nth_append)
  qed
qed

lemma Notify_Handler_in_turn:
  assumes "order_of_range e" "http_statuses e" "all_in_turn e s"
  shows "all_in_turn e (snd (Notify_Handler e r rt s))"
proof -
  let ?s = "snd (Notify_Handler e r rt s)"
  note served = Notify_Handler_serves [OF assms(2), of s r rt]
  have quiet: ?thesis if "px_sent ?s = px_sent s"
    by (rule all_in_turn_append [OF assms(3) served, of "[]"]) (use that in simp_all)
  show ?thesis
  proof (cases rule: Notify_Handler_cases [of e r rt s])
    case (accepted presented sub rc)
    from assms(1) show ?thesis
    proof (cases rule: notify_mux_cases [of e rt rc "ptick (ptick s)"])
      case (limited s1)
      then show ?thesis using quiet accepted(5) by simp
    next
      case (denied kind why st pt ti ass s1)
      then show ?thesis using quiet accepted(5) by (simp add: after_rate_def)
    next
      case (forwarded kind domain service body s1)
      let ?L = "\<lambda>own. lease_request (px_lease s) own (lease_context sub kind domain service)"
      have s1: "px_sent s1 = px_sent s" "px_lease s1 = px_lease s" "px_ha s1 = px_ha s" using forwarded(2) by (simp_all add: after_rate_def)
      have s': "?s = snd (forward e rc kind domain service body s1)" using accepted(5) forwarded(1) by simp
      have kept: "px_policy ?s = px_policy s" "px_lease ?s = px_lease s" "px_ha ?s = px_ha s" using served by (simp_all add: serves_def)
      have rec: "emitter_works e \<longrightarrow> forward_recorded e (px_emitter ?s) sub kind domain service"
        using forward_is_recorded [of e rc kind domain service body s1] accepted(4) s' by simp
      have perm: "permitted (px_policy ?s) sub kind domain service body" using forwarded(3) accepted(4) kept(1) by simp
      note reason = accepted(3) perm rec
      obtain qs where qs: "px_sent ?s = px_sent s @ qs"
          "qs = [] \<or> (\<exists>own. qs = [?L own]) \<or>
           (\<exists>own token. qs = [?L own, ha_request (px_ha s) token domain service body] \<and> haAllowed domain service \<and> leased e (?L own) token)"
        using forward_traffic [of e rc kind domain service body s1] accepted(4) s1 s' by auto
      have lease: "in_turn e ?s earlier (?L own)" for earlier own
        unfolding in_turn_def using reason kept(2) by metis
      have call: "in_turn e ?s (before @ [?L own]) (ha_request (px_ha s) token domain service body)"
        if "haAllowed domain service" "leased e (?L own) token" for before own token
        unfolding in_turn_def kept(2,3) using reason that by (metis last_snoc)
      show ?thesis
      proof (rule all_in_turn_append [OF assms(3) served qs(1)])
        fix i assume "i < length qs"
        with qs(2) show "in_turn e ?s (px_sent s @ take i qs) (qs ! i)"
          by (auto simp: less_Suc_eq lease call)
      qed
    qed
  qed (rule quiet)
qed

lemma proxy_reachable_in_turn:
  assumes "order_of_range e" "http_statuses e"
  shows "proxy_reachable ho yaml e p \<Longrightarrow> all_in_turn e (pp_server p)"
proof (induction rule: proxy_reachable.induct)
  case (started out p)
  then show ?case unfolding proxy_run_Inr by (auto simp: all_in_turn_def)
next
  case (step p a)
  show ?case
    by (cases rule: proxy_step_cases [of a e p]) (use Notify_Handler_in_turn [OF assms step.IH] step.IH in auto)
qed

end
