(* ===== verification/Proxy_Life.thy ===== *)
theory Proxy_Life
  imports Proxy_System
begin

text \<open>
  What holds of a notification proxy from its start to its end: how it starts, what it sends
  upstream and why, that its stream has a record of it, and that the stream verifies.
\<close>

section \<open>Starting\<close>

text \<open>C33: a proxy that has started is a secure one. When \<open>run\<close> gets as far as serving, the policy is the
  parsed contents of the policy file, nothing has been sent upstream, and the broker is only
  trusted with a certificate of the configured bundle, which was read and holds one; and unless
  \<open>HANP_DEV_INSECURE\<close> is 1, the signing key comes from the key file and the proxy listens with TLS,
  with a certificate and a key that load from the two configured files.\<close>

theorem proxy_startup_secure:
  assumes "proxy_run ho yaml e = (out, Inr p)"
  shows "(\<exists>raw. ho_readFile ho (getenv_or ho ''HANP_POLICY_FILE'' ''/etc/ha-notify-proxy/policy/policy.yaml'') = Inr raw \<and>
       Notify_Parse yaml (cr_sha256 (pe_crypto e)) raw = Inr (px_policy (pp_server p))) \<and>
    px_sent (pp_server p) = [] \<and>
    (\<exists>ca. ho_readFile ho (getenv_or ho ''HANP_BROKER_CA_FILE'' ''/etc/ha-notify-proxy/broker-ca/ca.crt'') = Inr ca \<and>
       ho_certs ho ca \<and> lc_rootCAs (px_lease (pp_server p)) = Some ca) \<and>
    (ho_getenv ho ''HANP_DEV_INSECURE'' = ''1'' \<or>
     (\<exists>raw. ho_readFile ho (getenv_or ho ''HANP_SIGNING_KEY_FILE'' ''/etc/ha-notify-proxy/keys/signing.pem'') = Inr raw \<and>
        ParseSignerPEM (pe_crypto e) (ho_pem ho) (ho_pkcs8 ho) raw = Inr (px_signer (pp_server p))) \<and>
     (\<exists>r cert. pp_listener p = ListenTLS r \<and> tl_cert r = Some cert \<and>
        dk_load (ho_tls ho) (ho_getenv ho ''HANP_TLS_CERT_FILE'') (ho_getenv ho ''HANP_TLS_KEY_FILE'') = Inr cert))"
proof -
  obtain signer raw pol lease where p: "proxy_signer_of ho e = Inr signer" "ho_readFile ho (proxy_policy_file ho) = Inr raw"
      "Notify_Parse yaml (cr_sha256 (pe_crypto e)) raw = Inr pol" "lease_client_of ho = Inr lease"
      "proxy_choose_listener ho = Inr (pp_listener p)" "pp_server p = EmitStarted e (initial_proxy ho signer pol lease)"
    using assms unfolding proxy_run_Inr by blast
  have s: "px_policy (pp_server p) = pol" "px_lease (pp_server p) = lease" "px_signer (pp_server p) = signer" "px_sent (pp_server p) = []"
    using EmitStarted_serves [of e "initial_proxy ho signer pol lease"] by (simp_all add: p(6) serves_def)
  have "\<exists>ca. ho_readFile ho (getenv_or ho ''HANP_BROKER_CA_FILE'' ''/etc/ha-notify-proxy/broker-ca/ca.crt'') = Inr ca \<and>
      ho_certs ho ca \<and> lc_rootCAs lease = Some ca"
    by (rule NewLeaseClient_pinned [OF p(4)]) (simp add: getenv_or_def Let_def)
  moreover have "\<exists>raw. ho_readFile ho (getenv_or ho ''HANP_SIGNING_KEY_FILE'' ''/etc/ha-notify-proxy/keys/signing.pem'') = Inr raw \<and>
      ParseSignerPEM (pe_crypto e) (ho_pem ho) (ho_pkcs8 ho) raw = Inr signer" if "\<not> proxy_devInsecure ho"
    using p(1) that by (auto simp: proxy_loadSigner_def split: sum.splits)
  moreover have "\<exists>r cert. pp_listener p = ListenTLS r \<and> tl_cert r = Some cert \<and>
      dk_load (ho_tls ho) (ho_getenv ho ''HANP_TLS_CERT_FILE'') (ho_getenv ho ''HANP_TLS_KEY_FILE'') = Inr cert"
    if secure: "\<not> proxy_devInsecure ho"
  proof -
    obtain r where "Reloader_Config (ho_tls ho) (new_reloader (ho_getenv ho ''HANP_TLS_CERT_FILE'') (ho_getenv ho ''HANP_TLS_KEY_FILE'')) = Inr r"
        "pp_listener p = ListenTLS r"
      using p(5) secure by (auto simp: proxy_choose_listener_def Let_def split: if_splits sum.splits)
    then show ?thesis by (auto elim: Config_loaded)
  qed
  ultimately show ?thesis using p(2,3) unfolding s proxy_devInsecure_def by blast
qed

section \<open>Upstream\<close>

text \<open>C29: nothing goes upstream without a reason. In every state a proxy can reach, with its reviewer as the
  authenticator, each request its lease and Home Assistant clients have ever sent is one of two: a request to the configured broker
  for the configured scope, in the name of a service account that the API server vouched for and
  for an action that the policy permits to it; or that very action, sent to Home Assistant right
  after that request and with the token that the broker gave in answer to it.\<close>

theorem proxy_calls_in_turn:
  assumes "proxy_reachable ho yaml e p" "order_of_range e" "http_statuses e" "pe_authn e = authn_of ku (pp_reviewer p)"
    and "px_sent (pp_server p) = earlier @ q # later"
  shows "\<exists>sub kind domain service body own k presented tr.
    vouched (ku k) (pp_reviewer p) presented tr \<and>
    tu_Username (tt_User (tr_Status tr)) = saPrefix @ sub_Namespace sub @ '':'' @ sub_ServiceAccount sub \<and>
    permitted (px_policy (pp_server p)) sub kind domain service body \<and>
    (q = lease_request (px_lease (pp_server p)) own (lease_context sub kind domain service) \<or>
     (\<exists>before token. earlier = before @ [lease_request (px_lease (pp_server p)) own (lease_context sub kind domain service)] \<and>
        leased e (last earlier) token \<and> haAllowed domain service \<and> q = ha_request (px_ha (pp_server p)) token domain service body))"
proof -
  have "in_turn e (pp_server p) earlier q"
    using proxy_reachable_in_turn [OF assms(2,3,1)] assms(5) unfolding all_in_turn_def by (force dest: spec [of _ "length earlier"])
  then obtain sub kind domain service body own k presented where t: "pe_authn e k presented = Inr sub"
      "permitted (px_policy (pp_server p)) sub kind domain service body"
      "q = lease_request (px_lease (pp_server p)) own (lease_context sub kind domain service) \<or>
       (\<exists>before token. earlier = before @ [lease_request (px_lease (pp_server p)) own (lease_context sub kind domain service)] \<and>
          leased e (last earlier) token \<and> haAllowed domain service \<and> q = ha_request (px_ha (pp_server p)) token domain service body)"
    unfolding in_turn_def by blast
  obtain tr where "vouched (ku k) (pp_reviewer p) presented tr"
      "tu_Username (tt_User (tr_Status tr)) = saPrefix @ sub_Namespace sub @ '':'' @ sub_ServiceAccount sub"
    using t(1) review_Inr unfolding assms(4) authn_of_Inr by blast
  with t(2,3) show ?thesis by blast
qed

text \<open>C30: everything that goes upstream is on record. In every state a proxy can reach while the writer and
  the canonicalizer work, each request its two clients have ever sent, whether to the broker or to Home
  Assistant and whether it succeeded or not, belongs to an action for which its stream holds a
  signed \<open>notify.forwarded\<close> event, which names the subject, the kind, the domain and the service.\<close>

theorem proxy_calls_recorded:
  assumes "proxy_reachable ho yaml e p" "order_of_range e" "http_statuses e" "emitter_works e"
    and "q \<in> set (px_sent (pp_server p))"
  shows "\<exists>sub kind domain service. forward_recorded e (px_emitter (pp_server p)) sub kind domain service \<and>
    ((\<exists>own. q = lease_request (px_lease (pp_server p)) own (lease_context sub kind domain service)) \<or>
     (\<exists>token body. q = ha_request (px_ha (pp_server p)) token domain service body))"
proof -
  obtain i where "i < length (px_sent (pp_server p))" "q = px_sent (pp_server p) ! i" using assms(5) by (metis in_set_conv_nth)
  then have "in_turn e (pp_server p) (take i (px_sent (pp_server p))) q"
    using proxy_reachable_in_turn [OF assms(2,3,1)] unfolding all_in_turn_def by blast
  then show ?thesis using assms(4) unfolding in_turn_def by blast
qed

text \<open>C31: the verdict on the stream of a proxy. In every state a proxy can reach, with writes that either
  succeed or leave nothing behind, fewer than \<open>2 ^ 64\<close> lines, and an Ed25519 public key of 32 bytes:
  \<open>acb-verify\<close>, given the public key the proxy serves and its stream, counts one valid event for
  each number issued, reports no invalid line, gap or duplicate, and exits with 0, when every line
  fits its buffer of 1 MiB, and otherwise exits with 2 and a read error, calling no line invalid. So
  one verifier serves the two processes.\<close>

theorem proxy_stream_verifies:
  assumes "proxy_reachable ho yaml e p" "http_statuses e" "verifiable (pe_crypto e) edv (pe_write e) (px_emitter (pp_server p))"
  shows "acb_verify edv (cr_jcs (pe_crypto e)) (PublicBase64 (px_signer (pp_server p)))
      [Inr \<lparr>rd_bytes = em_out (px_emitter (pp_server p)), rd_error = False\<rparr>] =
    (if lines_fit (em_out (px_emitter (pp_server p))) then passed (unat (em_seq (px_emitter (pp_server p))))
     else usage ReadError [])"
  using proxy_reachable_running [OF assms(2,1)] proxy_loadSigner_pub run_verifies [OF _ assms(3)] unfolding proxy_running_def by blast

section \<open>A run\<close>

text \<open>The sample proxy on a host in production mode, asked to dismiss a notification by an account the
  playground vouches for.\<close>

definition proxy_host :: "string \<Rightarrow> host" where
  "proxy_host key = \<lparr>ho_getenv = (\<lambda>k. case map_of [(''HANP_HA_URL'', ''http://ha/''), (''HANP_BROKER_URL'', ''https://broker''),
       (''HANP_LEASE_SCOPE'', ''ha''), (''HANP_BROKER_TOKEN_FILE'', ''token''), (''HANP_KUBE_API'', ''http://pg''),
       (''HANP_AUDIENCE'', ''acb''), (''HANP_KUBE_TOKEN_FILE'', ''token''), (''HANP_TLS_CERT_FILE'', ''c''), (''HANP_TLS_KEY_FILE'', ''k'')] k of
         None \<Rightarrow> [] | Some v \<Rightarrow> v),
     ho_readFile = (\<lambda>_. Inr ''raw''), ho_isNotExist = (\<lambda>_. False), ho_hostname = Inr ''broker-0'', ho_genKey = Inl ''none'',
     ho_pem = Some, ho_pkcs8 = (\<lambda>_. PKCS8_ed25519 key), ho_rsa1 = (\<lambda>_. None), ho_rsa8 = (\<lambda>_. RSA8_error),
     ho_certs = (\<lambda>_. True), ho_loader = sample_loader, ho_errText = (\<lambda>_. ''error''), ho_tls = sample_disk 3 ''old''\<rparr>"

definition proxy_yaml :: "string \<Rightarrow> string + NotifySubject list" where
  "proxy_yaml raw = Inr [sample_notify_subject]"

definition started_proxy_policy :: "crypto \<Rightarrow> NotifyPolicy" where
  "started_proxy_policy cr = sample_notify_policy\<lparr>np_Hash := ''sha256:'' @ hex_encode (cr_sha256 cr ''raw'')\<rparr>"

definition started_proxy :: "string \<Rightarrow> proxy_env \<Rightarrow> proxy_process" where
  "started_proxy key e =
     \<lparr>pp_server = EmitStarted e (initial_proxy (proxy_host key) (NewSigner (pe_crypto e) key) (started_proxy_policy (pe_crypto e))
        (sample_lease_client\<lparr>lc_rootCAs := Some ''raw''\<rparr>)),
      pp_reviewer = playground_reviewer ''http://pg'' ''acb'',
      pp_listener = ListenTLS \<lparr>tl_CertFile = ''c'', tl_KeyFile = ''k'', tl_cert = Some ''old'', tl_mod = 3\<rparr>,
      pp_probe = newCachedProbe ''http://ha//manifest.json'' (30 * Second), pp_probed = []\<rparr>"

lemma proxy_env_vars:
  "ho_getenv (proxy_host key) ''HANP_HA_URL'' = ''http://ha/''" "ho_getenv (proxy_host key) ''HANP_BROKER_URL'' = ''https://broker''"
  "ho_getenv (proxy_host key) ''HANP_KUBE_API'' = ''http://pg''" "ho_getenv (proxy_host key) ''HANP_DEV_INSECURE'' = []"
  "ho_getenv (proxy_host key) ''HANP_KUBE_CA_FILE'' = []" "ho_getenv (proxy_host key) ''HANP_TLS_CERT_FILE'' = ''c''"
  "ho_getenv (proxy_host key) ''HANP_TLS_KEY_FILE'' = ''k''" "getenv_or (proxy_host key) ''HANP_LEASE_SCOPE'' d = ''ha''"
  "getenv_or (proxy_host key) ''HANP_BROKER_TOKEN_FILE'' d = ''token''" "getenv_or (proxy_host key) ''HANP_AUDIENCE'' d = ''acb''"
  "getenv_or (proxy_host key) ''HANP_KUBE_TOKEN_FILE'' d = ''token''" "getenv_or (proxy_host key) ''HANP_BROKER_CA_FILE'' d = d"
  "getenv_or (proxy_host key) ''HANP_POLICY_FILE'' d = d" "getenv_or (proxy_host key) ''HANP_SIGNING_KEY_FILE'' d = d"
  by (simp_all add: proxy_host_def getenv_or_def)

lemma proxy_policy_parsed:
  "Notify_Parse proxy_yaml (cr_sha256 cr) raw = Inr (sample_notify_policy\<lparr>np_Hash := ''sha256:'' @ hex_encode (cr_sha256 cr raw)\<rparr>)"
proof -
  have "notify_doc_valid [sample_notify_subject]" using sample_notify_ok by (simp add: notify_ok_def sample_notify_policy_def)
  then have "notify_subject_loop 0 [sample_notify_subject] [] = Inr [notify_entry sample_notify_subject]"
    unfolding notify_subject_loop_Inr by simp
  then show ?thesis by (simp add: Notify_Parse_def proxy_yaml_def sample_notify_policy_def del: notify_subject_loop.simps)
qed

lemma proxy_started: "proxy_run (proxy_host key) proxy_yaml e = (em_out (px_emitter (pp_server (started_proxy key e))), Inr (started_proxy key e))"
proof -
  have "proxy_signer_of (proxy_host key) e = Inr (NewSigner (pe_crypto e) key)"
    by (simp add: proxy_env_vars proxy_loadSigner_def) (simp add: proxy_host_def ParseSignerPEM_def)
  moreover have "proxy_choose_listener (proxy_host key) = Inr (pp_listener (started_proxy key e))"
    using sample_config
    by (simp add: proxy_choose_listener_def proxy_env_vars started_proxy_def Let_def) (simp add: proxy_host_def)
  moreover have "lease_client_of (proxy_host key) = Inr (sample_lease_client\<lparr>lc_rootCAs := Some ''raw''\<rparr>)"
    by (simp add: proxy_env_vars NewLeaseClient_def Let_def sample_lease_client_def TrimRight_def) (simp add: proxy_host_def)
  moreover have "ho_readFile (proxy_host key) f = Inr ''raw''" for f by (simp add: proxy_host_def)
  ultimately show ?thesis
    unfolding proxy_run_Inr
    by (simp add: proxy_env_vars proxy_reviewer_config_def New_Reviewer_def Let_def playground_reviewer_def TrimRight_def proxy_policy_parsed)
      (simp add: started_proxy_def started_proxy_policy_def playground_reviewer_def proxy_env_vars)
qed

theorem proxy_startup_secure_witness:
  "\<exists>r. pp_listener (started_proxy ''key'' (sample_proxy_env ''t1'')) = ListenTLS r \<and> tl_cert r = Some ''old''"
  using proxy_startup_secure [OF proxy_started, of "''key''" "sample_proxy_env ''t1''"]
  by (auto simp: proxy_env_vars) (simp add: proxy_host_def sample_disk_def)

definition life_env :: proxy_env where
  "life_env = (sample_proxy_env ''t1'')\<lparr>pe_authn :=
     authn_of (\<lambda>k. playground_kube ''http://pg'' ''t'') (playground_reviewer ''http://pg'' ''acb'')\<rparr>"

definition dismissed_proxy :: proxy_process where
  "dismissed_proxy = proxy_step life_env (NotifyRequest identified_http (PostDismiss (render sample_dismiss_json))) (started_proxy ''key'' life_env)"

lemma life_env_simps:
  "order_of_range life_env" "http_statuses life_env" "emitter_works life_env" "pe_up life_env = (\<lambda>_. sample_up ''t1'')"
  "pe_authn life_env = authn_of (\<lambda>k. playground_kube ''http://pg'' ''t'') (playground_reviewer ''http://pg'' ''acb'')"
  by (auto simp: life_env_def order_of_range_def http_statuses_def emitter_works_def sample_proxy_env_def sample_up_def sample_crypto_def
      split: if_splits)

lemma dismissed_reachable: "proxy_reachable (proxy_host ''key'') proxy_yaml life_env dismissed_proxy"
  unfolding dismissed_proxy_def by (intro proxy_reachable.step proxy_reachable.started [OF proxy_started])

lemma started_like: "like_sample_proxy (ptick (ptick (pp_server (started_proxy key e))))"
  by (simp add: like_sample_proxy_def started_proxy_def EmitStarted_def) (intro conjI exI [of _ "Some ''raw''"] refl;
    simp add: initial_proxy_def New_Proxy_def Let_def zero_notify_config_def notify_applyDefaults_def started_proxy_policy_def NewHAClient_def
      proxy_env_vars TrimRight_def)

lemma dismissed_sent: "\<exists>lease call. px_sent (pp_server dismissed_proxy) = [lease, call]"
proof -
  let ?s = "pp_server (started_proxy ''key'' life_env)" and ?rt = "PostDismiss (render sample_dismiss_json)"
  obtain sub where sub: "pe_authn life_env (Suc (px_tick ?s)) ''ns/sa'' = Inr sub" "Key sub = ''ns/sa''"
    using playground_sample by (simp add: life_env_simps authn_of_Inr Key_def)
  have "hi_Authorization identified_http = ''Bearer '' @ ''ns/sa''" by (simp add: identified_http_def)
  from Notify_Handler_accepted [OF this _ sub(1), of ?rt] obtain rc where "rc_Subject rc = sub"
      "snd (Notify_Handler life_env identified_http ?rt ?s) = snd (notify_mux life_env ?rt rc (ptick (ptick ?s)))" by blast
  then have rc: "Key (rc_Subject rc) = ''ns/sa''"
      "snd (Notify_Handler life_env identified_http ?rt ?s) = snd (notify_mux life_env ?rt rc (ptick (ptick ?s)))" using sub(2) by simp_all
  have "rp_status (fst (notify_mux life_env ?rt rc (ptick (ptick ?s)))) = 201"
    by (rule sample_dismissed [OF _ _ started_like rc(1) life_env_simps(4)]) (simp_all add: ascii_def)
  from notify_mux_delivered [OF life_env_simps(1) this] show ?thesis
    using rc(2) by (auto simp: dismissed_proxy_def) (simp add: started_proxy_def)
qed

theorem proxy_calls_in_turn_witness:
  "\<exists>sub kind domain service body presented tr. permitted (px_policy (pp_server dismissed_proxy)) sub kind domain service body \<and>
     vouched (playground_kube ''http://pg'' ''t'') (pp_reviewer dismissed_proxy) presented tr \<and>
     tu_Username (tt_User (tr_Status tr)) = saPrefix @ sub_Namespace sub @ '':'' @ sub_ServiceAccount sub"
proof -
  obtain lease call where sent: "px_sent (pp_server dismissed_proxy) = [lease] @ call # []" using dismissed_sent by auto
  have "pe_authn life_env = authn_of (\<lambda>k. playground_kube ''http://pg'' ''t'') (pp_reviewer dismissed_proxy)"
    by (simp add: life_env_simps dismissed_proxy_def started_proxy_def)
  from proxy_calls_in_turn [OF dismissed_reachable life_env_simps(1,2) this sent] show ?thesis
    by blast
qed

theorem proxy_calls_recorded_witness:
  "\<exists>sub kind domain service. forward_recorded life_env (px_emitter (pp_server dismissed_proxy)) sub kind domain service"
proof -
  obtain q where "q \<in> set (px_sent (pp_server dismissed_proxy))" using dismissed_sent by fastforce
  from proxy_calls_recorded [OF dismissed_reachable life_env_simps(1-3) this] show ?thesis by blast
qed

text \<open>The stream of a proxy with a key of 32 bytes, as it starts.\<close>

definition sorting_proxy_env :: proxy_env where
  "sorting_proxy_env = (sample_proxy_env ''t1'')\<lparr>pe_crypto := sorting_crypto\<rparr>"

theorem proxy_stream_verifies_witness:
  "acb_verify prefix_verify (cr_jcs sorting_crypto) (PublicBase64 (px_signer (pp_server (started_proxy key32 sorting_proxy_env))))
      [Inr \<lparr>rd_bytes = em_out (px_emitter (pp_server (started_proxy key32 sorting_proxy_env))), rd_error = False\<rparr>] = passed 1"
proof -
  let ?s = "initial_proxy (proxy_host key32) (NewSigner sorting_crypto key32) (started_proxy_policy sorting_crypto)
    (sample_lease_client\<lparr>lc_rootCAs := Some ''raw''\<rparr>)"
  let ?ev = "base_event ''proxy.started'' [] None None
    [(''policy_hash'', JStr (np_Hash (started_proxy_policy sorting_crypto))), (''kid'', JStr (sg_kid (NewSigner sorting_crypto key32))),
     (''public_key'', JStr (PublicBase64 (NewSigner sorting_crypto key32)))] []"
  have env: "pe_crypto sorting_proxy_env = sorting_crypto" "\<forall>k. pe_write sorting_proxy_env k \<in> {Written, Failed 0}" "http_statuses sorting_proxy_env"
    by (auto simp: sorting_proxy_env_def sample_proxy_env_def http_statuses_def sample_up_def split: if_splits)
  have inst: "instance_name (proxy_host key32) = ''broker-0''" by (simp add: instance_name_def proxy_host_def)
  have em: "px_emitter (pp_server (started_proxy key32 sorting_proxy_env)) = snd (snd (Emit sorting_crypto 0 Written ?ev
      (SetCounter (NewEmitter (NewSigner sorting_crypto key32) ''broker-0''))))"
    by (simp add: started_proxy_def EmitStarted_def pemit_emitter env(1) inst) (simp add: sorting_proxy_env_def sample_proxy_env_def pnow_def)
  have "6 * length (ev_Type ?ev) + weight (JMap (ev_Attested ?ev)) + weight (JStrMap (Some (ev_Asserted ?ev))) \<le> 10000"
    using key32_lengths by (simp add: JMap_def JStrMap_def started_proxy_policy_def hex_encode_length sorting_crypto_def sample_crypto_def)
  from first_line_verifiable [OF em _ _ _ env(2) this]
  have "verifiable sorting_crypto prefix_verify (pe_write sorting_proxy_env) (px_emitter (pp_server (started_proxy key32 sorting_proxy_env)))"
    "lines_fit (em_out (px_emitter (pp_server (started_proxy key32 sorting_proxy_env))))"
    "em_seq (px_emitter (pp_server (started_proxy key32 sorting_proxy_env))) = 1" by simp_all
  then show ?thesis
    using proxy_stream_verifies [OF proxy_reachable.started [OF proxy_started] env(3), of prefix_verify key32] unfolding env(1) by simp
qed

end
