(* ===== verification/Broker_Wire.thy ===== *)
theory Broker_Wire
  imports Identity Notify_Server Audit_Verify
begin

text \<open>
  The wire format of the broker's API: the bytes of a request body to the value a handler decodes,
  and the value of a response to its bytes. What a client that renders its objects with
  \<open>json.Marshal\<close> sends and receives is the subject of the round trips at the end.
\<close>

section \<open>Requests\<close>

text \<open>\<open>json.NewDecoder(r.Body).Decode\<close> under the limit of the middleware. A body with nothing but white
  space ends before a value does, which is \<open>io.EOF\<close>.\<close>

definition decode_request :: "nat \<Rightarrow> (string \<Rightarrow> jval \<Rightarrow> 'a \<Rightarrow> 'a option) \<Rightarrow> 'a \<Rightarrow> string \<Rightarrow> 'a decoded" where
  "decode_request limit field zero body =
     (case body_value limit body of
        Some v \<Rightarrow> (case to_struct field v zero of None \<Rightarrow> DecodeError_body | Some x \<Rightarrow> Decoded x)
      | None \<Rightarrow> if length body \<le> limit \<and> list_all is_space body then DecodeEOF else DecodeError_body)"

definition body_limit :: "server \<Rightarrow> nat" where
  "body_limit s = nat (sint (cf_MaxBodyBytes (sv_cfg s)))"

definition to_int64 :: "jval \<Rightarrow> int64 \<Rightarrow> int64 option" where
  "to_int64 v old = map_option word_of_int (to_int v (sint old))"

text \<open>A map that \<open>null\<close> makes nil.\<close>

definition to_strmap :: "jval \<Rightarrow> string gomap option \<Rightarrow> string gomap option option" where
  "to_strmap v old =
     (case v of VNull \<Rightarrow> Some None | _ \<Rightarrow> map_option Some (to_map (\<lambda>x. to_string x []) v (case old of None \<Rightarrow> [] | Some m \<Rightarrow> m)))"

definition lease_request_field :: "string \<Rightarrow> jval \<Rightarrow> leaseRequest \<Rightarrow> leaseRequest option" where
  "lease_request_field k v r =
     (if is_field ''scope'' k then map_option (\<lambda>x. r\<lparr>lq_Scope := x\<rparr>) (to_string v (lq_Scope r))
      else if is_field ''ttl_seconds'' k then map_option (\<lambda>x. r\<lparr>lq_TTLSeconds := x\<rparr>) (to_int64 v (lq_TTLSeconds r))
      else if is_field ''context'' k then map_option (\<lambda>x. r\<lparr>lq_Context := x\<rparr>) (to_strmap v (lq_Context r))
      else Some r)"

definition decode_lease_request :: "server \<Rightarrow> string \<Rightarrow> leaseRequest decoded" where
  "decode_lease_request s body =
     decode_request (body_limit s) lease_request_field \<lparr>lq_Scope = [], lq_TTLSeconds = 0, lq_Context = None\<rparr> body"

definition renew_field :: "string \<Rightarrow> jval \<Rightarrow> int64 \<Rightarrow> int64 option" where
  "renew_field k v ttl = (if is_field ''ttl_seconds'' k then to_int64 v ttl else Some ttl)"

definition decode_renew_request :: "server \<Rightarrow> string \<Rightarrow> int64 decoded" where
  "decode_renew_request s body = decode_request (body_limit s) renew_field 0 body"

definition claims_field :: "string \<Rightarrow> jval \<Rightarrow> claimsRequest \<Rightarrow> claimsRequest option" where
  "claims_field k v r =
     (if is_field ''lease_id'' k then map_option (\<lambda>x. r\<lparr>cq_LeaseID := x\<rparr>) (to_string v (cq_LeaseID r))
      else if is_field ''claims'' k then map_option (\<lambda>x. r\<lparr>cq_Claims := x\<rparr>) (to_slice (\<lambda>c. to_strmap c None) v)
      else Some r)"

definition decode_claims_request :: "server \<Rightarrow> string \<Rightarrow> claimsRequest decoded" where
  "decode_claims_request s body = decode_request (body_limit s) claims_field \<lparr>cq_LeaseID = [], cq_Claims = []\<rparr> body"

section \<open>Responses\<close>

text \<open>\<open>json.NewEncoder(w).Encode\<close> ends a value with a newline.\<close>

fun wire_body :: "resp_body \<Rightarrow> string" where
  "wire_body (BProblem p) = render (problem_json p) @ [CHR 0x0A]"
| "wire_body (BLease r) = render (lease_json r) @ [CHR 0x0A]"
| "wire_body (BJson j) = render j @ [CHR 0x0A]"
| "wire_body (BText t) = t"
| "wire_body BEmpty = []"

text \<open>One exchange over HTTP: a POST to the path \<open>/v1/leases\<close>.\<close>

definition post_leases :: "env \<Rightarrow> string \<Rightarrow> string \<Rightarrow> http_request \<Rightarrow> server \<Rightarrow> http_response \<times> server" where
  "post_leases e peer agent q s =
     (let r = \<lparr>hi_RemoteAddr = peer, hi_UserAgent = agent, hi_Authorization = gindex (hq_header q) ''Authorization''\<rparr>;
          (resp, s1) = Handler e r (PostLeases (decode_lease_request s (hq_body q))) s
      in (\<lparr>hr_status = rp_status resp, hr_body = wire_body (rp_body resp)\<rparr>, s1))"

section \<open>Members of a decoded map\<close>

lemma valid_utf8_to_ascii: "ascii (valid_utf8 s) \<Longrightarrow> valid_utf8 s = s"
proof (induction s rule: valid_utf8.induct)
  case (1 s)
  show ?case
  proof (cases "s = []")
    case False
    then have u: "valid_utf8 s = (if rune_size s = 0 then replacement else take (rune_size s) s) @ valid_utf8 (drop (max 1 (rune_size s)) s)"
      by (subst valid_utf8.simps) simp
    have "\<not> ascii replacement" by (simp add: ascii_def replacement_def)
    then have n: "rune_size s \<noteq> 0" using 1(2) unfolding u by (auto split: if_splits)
    then have "valid_utf8 (drop (max 1 (rune_size s)) s) = drop (max 1 (rune_size s)) s"
      using 1 False unfolding u by (simp split: if_splits)
    with n show ?thesis unfolding u by (simp add: max_def)
  qed (simp add: valid_utf8.simps)
qed

lemma valid_utf8_key: "ascii k \<Longrightarrow> valid_utf8 k' = k \<longleftrightarrow> k' = k"
  using valid_utf8_to_ascii valid_utf8_ascii by metis

lemma map_of_enter_all: "map_of (enter_all kvs) = map_of (rev kvs)"
proof -
  have "map_of (fold (\<lambda>(k, v) m. gupdate m k v) kvs m) = map_of m ++ map_of (rev kvs)" for m
    by (induction kvs arbitrary: m) (auto simp: fun_eq_iff map_add_def split: option.splits)
  from this [of "[]"] show ?thesis by (simp add: enter_all_def)
qed

abbreviation fixed :: "string gomap \<Rightarrow> string gomap" where
  "fixed m \<equiv> enter_all (map (\<lambda>(k, v). (valid_utf8 k, valid_utf8 v)) (sort_key fst m))"

lemma map_of_fixed_key: "ascii k \<Longrightarrow> map_of (map (\<lambda>(k, v). (valid_utf8 k, valid_utf8 v)) m) k = map_option valid_utf8 (map_of m k)"
  by (induction m) (auto simp: valid_utf8_key dest: valid_utf8_to_ascii)

lemma map_of_fixed:
  assumes "distinct (map fst m)" "ascii k"
  shows "map_of (fixed m) k = map_option valid_utf8 (map_of m k)"
proof -
  have "map_of (rev (sort_key fst m)) = map_of m"
    using assms(1) by (intro map_of_inject_set [THEN iffD2]) (simp_all add: rev_map [symmetric] distinct_map)
  then show ?thesis using map_of_fixed_key [OF assms(2), of "rev (sort_key fst m)"]
    by (simp add: map_of_enter_all rev_map)
qed

section \<open>Round trips\<close>

definition wire_fields :: "string list" where
  "wire_fields = [''lease_id'', ''scope'', ''issued_at'', ''expires_at'', ''upstream_expires_at'', ''renewable'', ''semantics'', ''secret'',
     ''ttl_seconds'', ''context'']"

lemma wire_fields_ok: "distinct (map (map fold_code) wire_fields)" "list_all ascii wire_fields"
  by (simp_all add: wire_fields_def fold_code_def ascii_def)

lemmas is_wire_field = is_field_distinct [OF wire_fields_ok, unfolded wire_fields_def]

lemma valid_wire_field: "k \<in> set wire_fields \<Longrightarrow> valid_utf8 k = k"
  using wire_fields_ok(2) by (auto simp: list_all_iff valid_utf8_ascii)

lemmas valid_wire_fields = valid_wire_field [unfolded wire_fields_def]

lemma nested_strmap: "nested_within (Suc d) (JStrMap (Some m))" if "0 < d"
  using that by (cases d) (auto simp: JStrMap_def JMap_def)

lemma body_value_render:
  "length (render j) \<le> limit \<Longrightarrow> nested_within maxNestingDepth j \<Longrightarrow> body_value limit (render j) = Some (val_of j)"
  using decode_render [of j "[]"] by (simp add: body_value_def closes_def)

lemma to_strmap_val: "to_strmap (val_of (JStrMap (Some m))) None = Some (Some (fixed m))"
proof -
  obtain ms where "val_of (JStrMap (Some m)) = VObj ms" by (simp add: JStrMap_def JMap_def)
  then show ?thesis using decode_asserted [of m] by (simp add: to_strmap_def)
qed

text \<open>What a client sends is what the handler sees.\<close>

lemma lease_request_decodes:
  assumes "length (render (leaseReq_json scope ctx)) \<le> body_limit s" "ctx \<noteq> []"
  shows "decode_lease_request s (render (leaseReq_json scope ctx)) =
    Decoded \<lparr>lq_Scope = valid_utf8 scope, lq_TTLSeconds = 0, lq_Context = Some (fixed ctx)\<rparr>"
proof -
  have "nested_within maxNestingDepth (leaseReq_json scope ctx)"
    using nested_strmap [of "maxNestingDepth - 2" ctx] by (simp add: leaseReq_json_def maxNestingDepth_def)
  from body_value_render [OF assms(1) this]
  have "body_value (body_limit s) (render (leaseReq_json scope ctx)) =
      Some (VObj [(''scope'', VStr (valid_utf8 scope)), (''context'', val_of (JStrMap (Some ctx)))])"
    using assms(2) by (simp add: leaseReq_json_def valid_wire_fields)
  then show ?thesis
    by (simp add: decode_lease_request_def decode_request_def to_struct_def lease_request_field_def is_wire_field to_string_def to_strmap_val)
qed

text \<open>What the handler answers is what a client sees.\<close>

lemma lease_response_decodes:
  "decode_leaseResp (wire_body (BLease r)) =
     Some \<lparr>lp_LeaseID = valid_utf8 (lr_LeaseID r), lp_Secret = (if lr_Secret r = [] then [] else fixed (lr_Secret r))\<rparr>"
proof -
  have "nested_within maxNestingDepth (lease_json r)"
    using nested_strmap [of "maxNestingDepth - 2" "lr_Secret r"] by (auto simp: lease_json_def maxNestingDepth_def omitempty_str_def)
  then have "decode_first (wire_body (BLease r)) = Some (val_of (lease_json r), [CHR 0x0A])"
    using decode_render [of "lease_json r" "[CHR 0x0A]"] by (simp add: closes_def)
  moreover have "to_struct leaseResp_field (val_of (lease_json r)) \<lparr>lp_LeaseID = [], lp_Secret = []\<rparr> =
      Some \<lparr>lp_LeaseID = valid_utf8 (lr_LeaseID r), lp_Secret = (if lr_Secret r = [] then [] else fixed (lr_Secret r))\<rparr>"
    using decode_asserted [of "lr_Secret r"]
    by (simp add: lease_json_def to_struct_def valid_wire_fields leaseResp_field_def is_wire_field to_string_def omitempty_str_def)
  ultimately show ?thesis by (simp add: decode_leaseResp_def)
qed

end
