(* ===== verification/Interop.thy ===== *)
theory Interop
  imports Broker_Wire Broker_Stream Proxy_Stream
begin

text \<open>
  The proxy and the broker together: the lease client of the one talks to the endpoint of the other
  over the wire format, and the audit streams of the two join on the lease.
\<close>

section \<open>A lease over the wire\<close>

lemma Handler_issues_201:
  assumes "rp_status (fst (Handler e r (PostLeases body) s)) = 201"
  obtains token sub rc where "hi_Authorization r = ''Bearer '' @ token" "en_authn e (Suc (sv_tick s)) token = Inr sub" "rc_Subject rc = sub"
    "rp_status (fst (handleLeaseCreate e rc body (tick (tick s)))) = 201"
    "rp_body (fst (Handler e r (PostLeases body) s)) = rp_body (fst (handleLeaseCreate e rc body (tick (tick s))))"
    "snd (Handler e r (PostLeases body) s) = snd (handleLeaseCreate e rc body (tick (tick s)))"
proof -
  obtain token ok where cut: "CutPrefix (hi_Authorization r) ''Bearer '' = (token, ok)" by fastforce
  have t: "sv_tick (tick s) = Suc (sv_tick s)" by (simp add: tick_def)
  have "ok \<and> token \<noteq> []"
    using assms by (auto simp: Handler_def withRequestID_def withAuth_def split_beta Let_def cut split: if_splits)
  moreover obtain sub where "en_authn e (Suc (sv_tick s)) token = Inr sub"
    using assms calculation
    by (cases "en_authn e (Suc (sv_tick s)) token") (simp_all add: Handler_def withRequestID_def withAuth_def split_beta Let_def cut t)
  moreover have "hi_Authorization r = ''Bearer '' @ token" using cut calculation by (auto simp: CutPrefix_def HasPrefix_iff split: if_splits)
  ultimately show thesis
    using Handler_accepted [of r token e s sub "PostLeases body"] assms that by (metis mux.simps(1))
qed

lemma NewID_ascii: "ascii (NewID ''lease'' rnd)"
proof -
  have "byte (hex_digit n) < 128" if "n < 16" for n using that by (auto simp: hex_digit_def of_char_of)
  moreover have "of_char c div 16 < (16 :: nat)" "of_char c mod 16 < (16 :: nat)" for c
    using byte_less_256 [of c] by (simp_all add: less_mult_imp_div_less)
  ultimately have "ascii (hex_encode rnd)" by (induction rnd) (auto simp: hex_encode_def ascii_def)
  then show ?thesis by (simp add: NewID_def ascii_def)
qed

text \<open>The record of a lease in the broker's stream and table, after a request in the name of \<open>caller\<close>.\<close>

definition lease_on_record :: "env \<Rightarrow> server \<Rightarrow> Subject \<Rightarrow> string \<Rightarrow> string \<Rightarrow> string gomap \<Rightarrow> bool" where
  "lease_on_record e b caller lid scope ctx \<longleftrightarrow>
     (\<exists>l. sv_leases b lid = Some l \<and> l_SubjectKey l = Key caller \<and> l_Scope l = scope) \<and>
     (\<exists>ev. in_stream (en_crypto e) (sv_emitter b) ev \<and> ev_Type ev = ''lease.issued'' \<and> ev_Subject ev = Some caller \<and>
        {(''lease_id'', JStr lid), (''scope'', JStr scope)} \<subseteq> set (ev_Attested ev) \<and> ev_Asserted ev = ctx)"

lemma lease_exchange:
  assumes "policy_ok (Current (sv_policies b))" "ctx \<noteq> []"
    and "LeaseClient_Lease up lc ctx = (qs, Inr l)"
    and "\<forall>q. hq_url q = lc_brokerURL lc @ ''/v1/leases'' \<longrightarrow> pu_do up q = Inr (fst (post_leases e peer agent q b))"
    and "\<forall>q \<in> set qs. length (hq_body q) \<le> body_limit b"
  shows "\<exists>own caller. qs = [lease_request lc own ctx] \<and> en_authn e (Suc (sv_tick b)) own = Inr caller \<and>
    lease_on_record e (snd (post_leases e peer agent (lease_request lc own ctx) b)) caller (nl_LeaseID l) (valid_utf8 (lc_scope lc)) (fixed ctx)"
proof -
  obtain own where qs: "qs = [lease_request lc own ctx]"
    using lease_sends(2) [of up lc ctx l] assms(3) by auto
  let ?q = "lease_request lc own ctx"
  let ?r = "\<lparr>hi_RemoteAddr = peer, hi_UserAgent = agent, hi_Authorization = ''Bearer '' @ own\<rparr>"
  let ?req = "\<lparr>lq_Scope = valid_utf8 (lc_scope lc), lq_TTLSeconds = 0, lq_Context = Some (fixed ctx)\<rparr>"
  have decoded: "decode_lease_request b (hq_body ?q) = Decoded ?req"
    using lease_request_decodes [of "lc_scope lc" ctx b] assms(2,5) qs by (simp add: lease_request_def)
  have post: "post_leases e peer agent ?q b = (\<lparr>hr_status = rp_status (fst (Handler e ?r (PostLeases (Decoded ?req)) b)),
      hr_body = wire_body (rp_body (fst (Handler e ?r (PostLeases (Decoded ?req)) b)))\<rparr>, snd (Handler e ?r (PostLeases (Decoded ?req)) b))"
    unfolding post_leases_def decoded by (simp add: lease_request_def gindex_def split_beta Let_def)
  have "pu_do up ?q = Inr (fst (post_leases e peer agent ?q b))" using assms(4) by (simp add: lease_request_def)
  with assms(3) qs have got: "rp_status (fst (Handler e ?r (PostLeases (Decoded ?req)) b)) = 201"
      "\<exists>lr. decode_leaseResp (wire_body (rp_body (fst (Handler e ?r (PostLeases (Decoded ?req)) b)))) = Some lr \<and> nl_LeaseID l = lp_LeaseID lr"
    unfolding post LeaseClient_Lease_def by (auto simp: Let_def split: if_splits sum.splits option.splits)
  from got(1) obtain token caller rc where h: "hi_Authorization ?r = ''Bearer '' @ token" "en_authn e (Suc (sv_tick b)) token = Inr caller"
      "rc_Subject rc = caller" "rp_status (fst (handleLeaseCreate e rc (Decoded ?req) (tick (tick b)))) = 201"
      "rp_body (fst (Handler e ?r (PostLeases (Decoded ?req)) b)) = rp_body (fst (handleLeaseCreate e rc (Decoded ?req) (tick (tick b))))"
      "snd (Handler e ?r (PostLeases (Decoded ?req)) b) = snd (handleLeaseCreate e rc (Decoded ?req) (tick (tick b)))"
    by (rule Handler_issues_201)
  let ?b = "snd (handleLeaseCreate e rc (Decoded ?req) (tick (tick b)))"
  have ok: "policy_ok (Current (sv_policies (tick (tick b))))" using assms(1) by simp
  then have "lease_on_record e ?b caller (nl_LeaseID l) (valid_utf8 (lc_scope lc)) (fixed ctx)"
  proof (cases rule: handleLeaseCreate_cases [of "tick (tick b)" "Decoded ?req" rc e])
    case (issued req g sc lease secret ev)
    note d = issued(5) [unfolded disclosed_def]
    have req: "req = ?req" using issued(1) by simp
    have "em_signer (sv_emitter ?b) = em_signer (sv_emitter (tick (tick b)))"
      using handleLeaseCreate_streams [of e "tick (tick b)" rc "Decoded ?req"] run_extends by (fastforce simp: streams_def)
    then have "in_stream (en_crypto e) (sv_emitter ?b) ev" using d by (auto simp: in_stream_def intro: exI [of _ "[]"])
    moreover obtain r where "rp_body (fst (handleLeaseCreate e rc (Decoded ?req) (tick (tick b)))) = BLease r" "lr_LeaseID r = l_ID lease"
      using d by blast
    then have "nl_LeaseID l = l_ID lease"
      using got(2) d h(5) lease_response_decodes [of r] NewID_ascii valid_utf8_ascii by auto
    ultimately show ?thesis using d h(3) unfolding lease_on_record_def req by (intro conjI exI [of _ lease] exI [of _ ev]) auto
  next
    case refused
    then show ?thesis using h(4) by auto
  qed
  moreover have "token = own" using h(1) by simp
  moreover have "snd (post_leases e peer agent ?q b) = ?b" unfolding post snd_conv by (rule h(6))
  ultimately show ?thesis using qs h(2) by metis
qed

section \<open>The streams join\<close>

lemma forward_delivered_recorded:
  assumes "emitter_works e" "rp_status (fst (forward e rc kind domain service body s)) = 201"
  shows "\<exists>qs calls l ev. LeaseClient_Lease (pe_up e (px_tick s)) (px_lease s) (lease_context (rc_Subject rc) kind domain service) = (qs, Inr l) \<and>
    px_sent (snd (forward e rc kind domain service body s)) = px_sent s @ qs @ calls \<and>
    in_stream (pe_crypto e) (px_emitter (snd (forward e rc kind domain service body s))) ev \<and>
    ev_Type ev = ''notify.forwarded'' \<and> ev_Subject ev = Some (rc_Subject rc) \<and>
    {(''kind'', JStr kind), (''lease_id'', JStr (nl_LeaseID l))} \<subseteq> set (ev_Attested ev)"
proof -
  obtain qs r where L: "LeaseClient_Lease (pe_up e (px_tick s)) (px_lease s) (lease_context (rc_Subject rc) kind domain service) = (qs, r)"
    by fastforce
  then obtain l where r: "r = Inr l" using assms(2) forward_unleased [of e s rc kind domain service] by (cases r) auto
  have lid: "nl_LeaseID l \<noteq> []" using L r by (auto simp: LeaseClient_Lease_def Let_def split: if_splits sum.splits option.splits)
  let ?H = "HA_Call (pe_up e (Suc (px_tick s))) (px_ha s) (nl_Token l) domain service body"
  obtain resp name er where f: "forward e rc kind domain service body s = (resp, pinc e name [(''kind'', kind)]
        (emitForwarded e rc kind domain service (fst (snd ?H)) (ha_delivered ?H) (nl_LeaseID l) er (psend (fst ?H) (psend qs s))))"
    using forward_leased [OF L [unfolded r] refl, of body] by blast
  let ?att = "forwarded_attested (px_policy s) kind domain service (fst (snd ?H)) (ha_delivered ?H) (nl_LeaseID l) er"
  have "attempted e (base_event ''notify.forwarded'' (rc_RequestID rc) (Some (rc_Subject rc)) (Some (rc_Source rc)) ?att [])
      (px_emitter s) (px_emitter (snd (forward e rc kind domain service body s)))"
    unfolding f snd_conv pinc_frame using pemit_attempted [of "psend (fst ?H) (psend qs s)"] by (simp add: emitForwarded_def)
  from attempted_committed [OF this] assms(1) obtain ev where
      ev: "px_emitter (snd (forward e rc kind domain service body s)) =
         px_emitter s\<lparr>em_out := em_out (px_emitter s) @ event_line ev, em_seq := em_seq (px_emitter s) + 1\<rparr>"
      "signed_by (pe_crypto e) (em_signer (px_emitter s)) ev" "ev_Type ev = ''notify.forwarded''"
      "ev_Subject ev = Some (rc_Subject rc)" "ev_Attested ev = ?att"
    unfolding emitter_works_def by auto
  have "px_sent (snd (forward e rc kind domain service body s)) = px_sent s @ qs @ fst ?H" unfolding f by simp
  moreover have "{(''kind'', JStr kind), (''lease_id'', JStr (nl_LeaseID l))} \<subseteq> set (ev_Attested ev)"
    using lid unfolding ev(5) by (simp add: forwarded_attested_def)
  ultimately show ?thesis using L r committed_in_stream [OF ev(1,2)] ev(3,4) by blast
qed

lemma lease_context_members:
  "lease_context sub kind domain service \<noteq> []"
  "map_of (fixed (lease_context sub kind domain service)) ''originating_agent'' = Some (valid_utf8 (Key sub))"
  "map_of (fixed (lease_context sub kind domain service)) ''action'' = Some (valid_utf8 kind)"
proof -
  have d: "distinct (map fst (lease_context sub kind domain service))" by (simp add: lease_context_def)
  show "lease_context sub kind domain service \<noteq> []"
    "map_of (fixed (lease_context sub kind domain service)) ''originating_agent'' = Some (valid_utf8 (Key sub))"
    "map_of (fixed (lease_context sub kind domain service)) ''action'' = Some (valid_utf8 kind)"
    by (simp_all add: map_of_fixed [OF d] ascii_def) (simp_all add: lease_context_def)
qed

text \<open>C28: the audit streams of the proxy and the broker join. When a proxy whose upstream is a broker answers
  201, its stream holds a signed \<open>notify.forwarded\<close> event with the caller, and the broker's
  stream a signed \<open>lease.issued\<close> event with the same lease ID, whose subject is the proxy as the
  broker authenticated it, and whose asserted context names the caller and the kind of action; the
  lease is in the broker's table under the configured scope. So every delivered notification can be
  followed from the one stream to the other and back to the agent that caused it. The two only
  exchange bytes; text that is not UTF-8 arrives with the replacement character.\<close>

theorem audit_streams_join:
  fixes e :: proxy_env and rt :: notify_route and rc :: reqctx and p :: proxy
  defines "p' \<equiv> snd (notify_mux e rt rc p)"
  assumes "order_of_range e" "emitter_works e" "policy_ok (Current (sv_policies b))"
    and "\<forall>k q. hq_url q = lc_brokerURL (px_lease p) @ ''/v1/leases'' \<longrightarrow> pu_do (pe_up e k) q = Inr (fst (post_leases eb peer agent q b))"
    and "\<forall>q \<in> set (drop (length (px_sent p)) (px_sent p')). length (hq_body q) \<le> body_limit b"
    and "rp_status (fst (notify_mux e rt rc p)) = 201"
  shows "\<exists>q calls caller lid kind ctx evp own. px_sent p' = px_sent p @ q # calls \<and>
    in_stream (pe_crypto e) (px_emitter p') evp \<and> ev_Type evp = ''notify.forwarded'' \<and> ev_Subject evp = Some (rc_Subject rc) \<and>
    {(''kind'', JStr kind), (''lease_id'', JStr lid)} \<subseteq> set (ev_Attested evp) \<and>
    en_authn eb (Suc (sv_tick b)) own = Inr caller \<and> hq_header q = [(''Authorization'', ''Bearer '' @ own), (''Content-Type'', ''application/json'')] \<and>
    lease_on_record eb (snd (post_leases eb peer agent q b)) caller lid (valid_utf8 (lc_scope (px_lease p))) ctx \<and>
    map_of ctx ''originating_agent'' = Some (valid_utf8 (Key (rc_Subject rc))) \<and> map_of ctx ''action'' = Some (valid_utf8 kind)"
  using assms(2)
proof (cases rule: notify_mux_cases [of e rt rc p])
  case (forwarded kind domain service body s1)
  have s1: "px_sent s1 = px_sent p" "px_lease s1 = px_lease p" using forwarded(2) by (simp_all add: after_rate_def)
  let ?ctx = "lease_context (rc_Subject rc) kind domain service"
  obtain qs calls l ev where f: "LeaseClient_Lease (pe_up e (px_tick s1)) (px_lease p) ?ctx = (qs, Inr l)" "px_sent p' = px_sent p @ qs @ calls"
      "in_stream (pe_crypto e) (px_emitter p') ev" "ev_Type ev = ''notify.forwarded''" "ev_Subject ev = Some (rc_Subject rc)"
      "{(''kind'', JStr kind), (''lease_id'', JStr (nl_LeaseID l))} \<subseteq> set (ev_Attested ev)"
    using forward_delivered_recorded [OF assms(3), of rc kind domain service body s1] assms(7) s1 unfolding p'_def forwarded(1) by auto
  have up: "\<forall>q. hq_url q = lc_brokerURL (px_lease p) @ ''/v1/leases'' \<longrightarrow>
      pu_do (pe_up e (px_tick s1)) q = Inr (fst (post_leases eb peer agent q b))" using assms(5) by blast
  have "\<forall>q \<in> set qs. length (hq_body q) \<le> body_limit b" using assms(6) f(2) by simp
  from lease_exchange [OF assms(4) lease_context_members(1) f(1) up this] obtain own caller where
      x: "qs = [lease_request (px_lease p) own ?ctx]" "en_authn eb (Suc (sv_tick b)) own = Inr caller"
      "lease_on_record eb (snd (post_leases eb peer agent (lease_request (px_lease p) own ?ctx) b)) caller (nl_LeaseID l)
         (valid_utf8 (lc_scope (px_lease p))) (fixed ?ctx)"
    by blast
  have "hq_header (lease_request (px_lease p) own ?ctx) = [(''Authorization'', ''Bearer '' @ own), (''Content-Type'', ''application/json'')]"
    by (simp add: lease_request_def)
  then show ?thesis using f(2-6) x(2,3) lease_context_members(2,3) [of "rc_Subject rc" kind domain service] unfolding x(1) append_Cons append_Nil by blast
qed (use assms(7) in auto)

section \<open>The sample proxy and the sample broker\<close>

definition wired_up :: proxy_up where
  "wired_up = \<lparr>pu_validURL = (\<lambda>u. True), pu_readFile = (\<lambda>f. Inr ''own''),
     pu_do = (\<lambda>q. if hq_url q = ''https://broker/v1/leases'' then Inr (fst (post_leases (sample_env Written) ''10.0.0.2:1'' ''proxy'' q sample_server))
                   else Inr \<lparr>hr_status = 200, hr_body = []\<rparr>)\<rparr>"

definition wired_env :: proxy_env where
  "wired_env = (sample_proxy_env [])\<lparr>pe_up := (\<lambda>_. wired_up)\<rparr>"

definition wired_proxy :: proxy where
  "wired_proxy = sample_proxy\<lparr>px_lease := sample_lease_client\<lparr>lc_scope := ''db''\<rparr>\<rparr>"

abbreviation wired_context :: "string gomap" where
  "wired_context \<equiv> lease_context sample_subject KindPersistentDismiss ''persistent_notification'' ''dismiss''"

lemma wired_sizes:
  "length (render (leaseReq_json ''db'' wired_context)) \<le> 1000" "length (render (JStrMap (Some (fixed wired_context)))) \<le> 1000"
  by code_simp+

lemma sample_body_limit: "body_limit sample_server = 131072"
  by (simp add: body_limit_def sample_server_def New_Server_def Let_def applyDefaults_def sample_config_def)

lemma valid_utf8_eq_Nil [simp]: "valid_utf8 s = [] \<longleftrightarrow> s = []"
  using valid_utf8_to_ascii [of s] by (auto simp: ascii_def)

lemma wired_issues:
  "\<exists>r v. post_leases (sample_env Written) ''10.0.0.2:1'' ''proxy'' (lease_request (sample_lease_client\<lparr>lc_scope := ''db''\<rparr>) ''own'' wired_context) sample_server =
     (\<lparr>hr_status = 201, hr_body = wire_body (BLease r)\<rparr>, snd (post_leases (sample_env Written) ''10.0.0.2:1'' ''proxy''
        (lease_request (sample_lease_client\<lparr>lc_scope := ''db''\<rparr>) ''own'' wired_context) sample_server)) \<and>
     lr_LeaseID r \<noteq> [] \<and> lr_Secret r = [(''token'', v)] \<and> v \<noteq> []"
proof -
  let ?req = "\<lparr>lq_Scope = ''db'', lq_TTLSeconds = 0, lq_Context = Some (fixed wired_context)\<rparr>"
  let ?r = "\<lparr>hi_RemoteAddr = ''10.0.0.2:1'', hi_UserAgent = ''proxy'', hi_Authorization = ''Bearer '' @ ''own''\<rparr>"
  have decoded: "decode_lease_request sample_server (render (leaseReq_json ''db'' wired_context)) = Decoded ?req"
    using lease_request_decodes [of "''db''" wired_context sample_server] wired_sizes(1) lease_context_members(1)
    by (simp add: sample_body_limit valid_utf8_ascii ascii_def)
  have "hi_Authorization ?r = ''Bearer '' @ ''own''" "en_authn (sample_env Written) (Suc (sv_tick sample_server)) ''own'' = Inr sample_subject"
    by (simp_all add: sample_env_def)
  then obtain rc where rc: "rc_Subject rc = sample_subject"
      "rp_status (fst (Handler (sample_env Written) ?r (PostLeases (Decoded ?req)) sample_server)) =
       rp_status (fst (handleLeaseCreate (sample_env Written) rc (Decoded ?req) (tick (tick sample_server))))"
      "rp_body (fst (Handler (sample_env Written) ?r (PostLeases (Decoded ?req)) sample_server)) =
       rp_body (fst (handleLeaseCreate (sample_env Written) rc (Decoded ?req) (tick (tick sample_server))))"
    using Handler_accepted [of ?r "''own''" "sample_env Written" sample_server sample_subject "PostLeases (Decoded ?req)"] by auto
  have created: "rp_status (fst (handleLeaseCreate (sample_env Written) rc (Decoded ?req) (tick (tick sample_server)))) = 201"
    using wired_sizes(2) by (intro sample_create_request like_sample_server) (simp_all add: rc(1))
  have ok: "policy_ok (Current (sv_policies (tick (tick sample_server))))" using sample_policy_ok by simp
  then obtain r v where r: "rp_body (fst (handleLeaseCreate (sample_env Written) rc (Decoded ?req) (tick (tick sample_server)))) = BLease r"
      "lr_LeaseID r \<noteq> []" "lr_Secret r = [(''token'', v)]" "v \<noteq> []"
  proof (cases rule: handleLeaseCreate_cases [of "tick (tick sample_server)" "Decoded ?req" rc "sample_env Written"])
    case (issued req g sc l secret ev)
    have "lq_Scope req = ''db''" using issued(1) by auto
    then have "sc = sample_scope" using issued(3) sample_lookup(2) by (simp add: Current_def)
    then have "map fst secret = [''token'']" using issued(6) by (simp add: sample_scope_def)
    then obtain v where "secret = [(''token'', v)]" "v \<noteq> []" using issued(7) by auto
    then show ?thesis using that issued(5) by (auto simp: disclosed_def NewID_def)
  next
    case refused
    then show ?thesis using created by auto
  qed
  have "post_leases (sample_env Written) ''10.0.0.2:1'' ''proxy'' (lease_request (sample_lease_client\<lparr>lc_scope := ''db''\<rparr>) ''own'' wired_context) sample_server =
      (\<lparr>hr_status = rp_status (fst (Handler (sample_env Written) ?r (PostLeases (Decoded ?req)) sample_server)),
        hr_body = wire_body (rp_body (fst (Handler (sample_env Written) ?r (PostLeases (Decoded ?req)) sample_server)))\<rparr>,
       snd (Handler (sample_env Written) ?r (PostLeases (Decoded ?req)) sample_server))"
    by (simp add: post_leases_def lease_request_def decoded gindex_def split_beta Let_def)
  then show ?thesis using r created rc(2,3) by auto
qed

lemma wired_leased: "\<not> isl (snd (LeaseClient_Lease wired_up (sample_lease_client\<lparr>lc_scope := ''db''\<rparr>) wired_context))"
proof -
  obtain r v s' where p: "post_leases (sample_env Written) ''10.0.0.2:1'' ''proxy''
        (lease_request (sample_lease_client\<lparr>lc_scope := ''db''\<rparr>) ''own'' wired_context) sample_server =
      (\<lparr>hr_status = 201, hr_body = wire_body (BLease r)\<rparr>, s')" "lr_LeaseID r \<noteq> []" "lr_Secret r = [(''token'', v)]" "v \<noteq> []"
    using wired_issues by blast
  have "tokenFn (pu_readFile wired_up) (sample_lease_client\<lparr>lc_scope := ''db''\<rparr>) = Inr ''own''"
    using TrimSpace_visible [of "''own''"] by (simp add: tokenFn_def wired_up_def visible_def)
  moreover have "pu_do wired_up (lease_request (sample_lease_client\<lparr>lc_scope := ''db''\<rparr>) ''own'' wired_context) =
      Inr \<lparr>hr_status = 201, hr_body = wire_body (BLease r)\<rparr>"
    using p(1) by (simp add: wired_up_def) (simp add: lease_request_def sample_lease_client_def)
  moreover have "gindex (fixed [(''token'', v)]) ''token'' \<noteq> []"
    using p(4) map_of_fixed [of "[(''token'', v)]" "''token''"] by (simp add: gindex_def ascii_def)
  ultimately show ?thesis
    using p lease_response_decodes [of r]
    by (simp add: LeaseClient_Lease_def Let_def) (simp add: wired_up_def)
qed

lemma wired_delivers:
  "rp_status (fst (notify_mux wired_env (PostDismiss (render sample_dismiss_json)) sample_rc wired_proxy)) = 201"
proof (rule dismissed_when_leased)
  show "\<not> isl (snd (LeaseClient_Lease (pe_up wired_env k) (px_lease wired_proxy)
      (lease_context (rc_Subject sample_rc) KindPersistentDismiss ''persistent_notification'' ''dismiss'')))" for k
    using wired_leased by (simp add: wired_env_def wired_proxy_def)
  show "snd (HA_Call (pe_up wired_env k) (px_ha wired_proxy) tok ''persistent_notification'' ''dismiss'' body) = (200, None)" for k tok body
    by (simp add: wired_env_def wired_proxy_def HA_Call_def haAllowed_def ha_request_def wired_up_def Let_def)
qed (simp_all add: wired_proxy_def)

lemma wired_sent: "px_sent wired_proxy = []"
  by (simp add: wired_proxy_def)

lemma wired_bodies:
  "\<forall>q \<in> set (px_sent (snd (notify_mux wired_env (PostDismiss (render sample_dismiss_json)) sample_rc wired_proxy))). length (hq_body q) \<le> 1000"
proof -
  let ?s = "snd (pallow_limiter wired_env (Key (rc_Subject sample_rc)) wired_proxy)" and ?body = "[(''notification_id'', JStr ''sa-1'')]"
  have sent: "px_sent ?s = []" "px_lease ?s = sample_lease_client\<lparr>lc_scope := ''db''\<rparr>"
      "lc_scope (sample_lease_client\<lparr>lc_scope := ''db''\<rparr>) = ''db''" by (simp_all add: wired_proxy_def)
  have bodies: "length (hq_body (lease_request (px_lease ?s) own wired_context)) \<le> 1000"
      "length (hq_body (ha_request (px_ha ?s) token ''persistent_notification'' ''dismiss'' ?body)) \<le> 1000" for own token
  proof -
    have "length (render (JMap ?body)) \<le> 1000" by code_simp
    then show "length (hq_body (lease_request (px_lease ?s) own wired_context)) \<le> 1000"
      "length (hq_body (ha_request (px_ha ?s) token ''persistent_notification'' ''dismiss'' ?body)) \<le> 1000"
      using wired_sizes(1) by (simp_all only: sent lease_request_def ha_request_def http_request.simps LeaseClient.simps)
  qed
  have "notify_mux wired_env (PostDismiss (render sample_dismiss_json)) sample_rc wired_proxy =
      forward wired_env sample_rc KindPersistentDismiss ''persistent_notification'' ''dismiss'' ?body ?s"
    by (rule dismissal_forwards) (simp_all add: wired_proxy_def)
  then show ?thesis
    using forward_traffic [of wired_env sample_rc KindPersistentDismiss "''persistent_notification''" "''dismiss''" ?body ?s] bodies
    by (auto simp: wired_sent)
qed

theorem audit_streams_join_witness:
  "\<exists>caller lid ctx q. lease_on_record (sample_env Written) (snd (post_leases (sample_env Written) ''10.0.0.2:1'' ''proxy'' q sample_server)) caller lid ''db'' ctx \<and>
     map_of ctx ''originating_agent'' = Some ''ns/sa''"
proof -
  let ?rt = "PostDismiss (render sample_dismiss_json)"
  have works: "order_of_range wired_env" "emitter_works wired_env"
    by (simp_all add: wired_env_def order_of_range_def emitter_works_def sample_proxy_env_def sample_crypto_def)
  have wired: "\<forall>k q. hq_url q = lc_brokerURL (px_lease wired_proxy) @ ''/v1/leases'' \<longrightarrow>
      pu_do (pe_up wired_env k) q = Inr (fst (post_leases (sample_env Written) ''10.0.0.2:1'' ''proxy'' q sample_server))"
    by (simp add: wired_env_def wired_proxy_def sample_lease_client_def wired_up_def)
  have fits: "\<forall>q \<in> set (drop (length (px_sent wired_proxy)) (px_sent (snd (notify_mux wired_env ?rt sample_rc wired_proxy)))).
      length (hq_body q) \<le> body_limit sample_server"
  proof
    fix q assume "q \<in> set (drop (length (px_sent wired_proxy)) (px_sent (snd (notify_mux wired_env ?rt sample_rc wired_proxy))))"
    then have "length (hq_body q) \<le> 1000" using wired_bodies by (blast dest: in_set_dropD)
    then show "length (hq_body q) \<le> body_limit sample_server" unfolding sample_body_limit by simp
  qed
  have scope: "valid_utf8 (lc_scope (px_lease wired_proxy)) = ''db''" by (simp add: wired_proxy_def valid_utf8_ascii ascii_def)
  have key: "valid_utf8 (Key (rc_Subject sample_rc)) = ''ns/sa''" by (simp add: valid_utf8_ascii ascii_def)
  from audit_streams_join [OF works sample_policy_ok wired fits wired_delivers] show ?thesis unfolding scope key by blast
qed

end
