(* ===== verification/Delivery.thy ===== *)
theory Delivery
  imports Broker_Start Interop
begin

text \<open>
  What is permitted is done: the converse of the confinement theorems, for the broker's lease
  endpoint and for the proxy's notifications; and the end of a lease against the expiry of the
  credential that the provider delivered for it.
\<close>

section \<open>Leases\<close>

lemma create_issue_served:
  assumes "\<forall>k. en_write e k = Written" "\<forall>x. \<not> isl (cr_jcs (en_crypto e) x)"
  shows "rp_status (fst (create_issue e rc pol req g prov ttl r s)) = 201 \<and>
    (\<exists>resp. rp_body (fst (create_issue e rc pol req g prov ttl r s)) = BLease resp \<and> lr_Secret resp = rs_Secret r \<and> lr_Scope resp = lq_Scope req)"
  using assms
  by (simp add: create_issue_def split_beta Let_def issue_record_def emit_writes Create_def leaseMeta_def del: split_paired_Ex)

lemma granted_path:
  fixes s :: server
  defines "pol \<equiv> Current (sv_policies s)"
  assumes "fst (Allow (now_of e s) (Key (rc_Subject rc)) (sv_leaseLimiter s))"
    and "lq_Scope req \<noteq> []" "int (length (render (JStrMap (lq_Context req)))) \<le> cf_MaxContextBytes (sv_cfg s)" "0 \<le> sint (lq_TTLSeconds req)"
    and "GrantOf pol (Key (rc_Subject rc)) (lq_Scope req) = Some g" "ScopeOf pol (lq_Scope req) = Some sc"
    and "WindowOpen g (en_clock e (Suc (sv_tick s)))" "map_of (sv_providers s) (s_Provider sc) = Some prov"
    and "snd (Fetch (en_upstream e (Suc (Suc (sv_tick s)))) prov
      \<lparr>rq_Ref = s_Ref sc, rq_Fields = s_Fields sc, rq_Params = s_Params sc, rq_TTL = fst (clampTTL (lq_TTLSeconds req) g)\<rparr>) = Inr r"
  shows "\<exists>ttl s3. handleLeaseCreate e rc (Decoded req) s = create_issue e rc pol req g prov ttl r s3"
proof -
  define s1 where "s1 = snd (allow_lease e (Key (rc_Subject rc)) s)"
  have s1: "fst (allow_lease e (Key (rc_Subject rc)) s)" "sv_cfg s1 = sv_cfg s" "sv_providers s1 = sv_providers s" "sv_tick s1 = Suc (sv_tick s)"
    using assms(2) by (simp_all add: s1_def allow_lease_def split_beta Let_def tick_def)
  have "snd (clampTTL (lq_TTLSeconds req) g)" using assms(5) by (simp add: clampTTL_def Let_def)
  then obtain ttl where ttl: "clampTTL (lq_TTLSeconds req) g = (ttl, True)" by (cases "clampTTL (lq_TTLSeconds req) g") auto
  have "handleLeaseCreate e rc (Decoded req) s = create_fetch e rc pol sc req g ttl (tick s1)"
    using s1 assms(3,4,6,7,8) ttl by (simp add: handleLeaseCreate_def split_beta Let_def pol_def s1_def [symmetric] now_of_def)
  moreover have "\<exists>s3. create_fetch e rc pol sc req g ttl (tick s1) = create_issue e rc pol req g prov ttl r s3"
    using assms(9,10) ttl s1(3,4) by (simp add: create_fetch_def split_beta Let_def) (simp add: tick_def, blast)
  ultimately show ?thesis by auto
qed

text \<open>C6: a granted request is served. A caller within its rate that asks for a scope its policy grants,
  within an open window and with a lifetime that is not negative and a context that fits, gets 201
  and exactly the secret that the provider delivered, whenever the provider of the scope is
  configured and delivers and the audit stream can be written: the broker refuses nothing that the
  policy grants.\<close>

theorem granted_request_served:
  fixes s :: server
  defines "pol \<equiv> Current (sv_policies s)"
  assumes "fst (Allow (now_of e s) (Key (rc_Subject rc)) (sv_leaseLimiter s))"
    and "lq_Scope req \<noteq> []" "int (length (render (JStrMap (lq_Context req)))) \<le> cf_MaxContextBytes (sv_cfg s)" "0 \<le> sint (lq_TTLSeconds req)"
    and "GrantOf pol (Key (rc_Subject rc)) (lq_Scope req) = Some g" "ScopeOf pol (lq_Scope req) = Some sc"
    and "WindowOpen g (en_clock e (Suc (sv_tick s)))" "map_of (sv_providers s) (s_Provider sc) = Some prov"
    and "snd (Fetch (en_upstream e (Suc (Suc (sv_tick s)))) prov
      \<lparr>rq_Ref = s_Ref sc, rq_Fields = s_Fields sc, rq_Params = s_Params sc, rq_TTL = fst (clampTTL (lq_TTLSeconds req) g)\<rparr>) = Inr r"
    and "\<forall>k. en_write e k = Written" "\<forall>x. \<not> isl (cr_jcs (en_crypto e) x)"
  shows "rp_status (fst (handleLeaseCreate e rc (Decoded req) s)) = 201 \<and>
    (\<exists>resp. rp_body (fst (handleLeaseCreate e rc (Decoded req) s)) = BLease resp \<and> lr_Secret resp = rs_Secret r \<and> lr_Scope resp = lq_Scope req)"
  using granted_path [OF assms(2-10) [unfolded pol_def]] create_issue_served [OF assms(11,12)] by auto

section \<open>The lease and its credential\<close>

text \<open>A request that is answered with 201 went through to the provider, whose result became the lease.\<close>

lemma created_issue:
  assumes "rp_status (fst (handleLeaseCreate e rc (Decoded req) s)) = 201"
    and "GrantOf (Current (sv_policies s)) (Key (rc_Subject rc)) (lq_Scope req) = Some g" "ScopeOf (Current (sv_policies s)) (lq_Scope req) = Some sc"
    and "map_of (sv_providers s) (s_Provider sc) = Some prov"
    and "snd (Fetch (en_upstream e (sv_tick s + 2)) prov
      \<lparr>rq_Ref = s_Ref sc, rq_Fields = s_Fields sc, rq_Params = s_Params sc, rq_TTL = fst (clampTTL (lq_TTLSeconds req) g)\<rparr>) = Inr r"
  obtains s3 where "handleLeaseCreate e rc (Decoded req) s =
      create_issue e rc (Current (sv_policies s)) req g prov (fst (clampTTL (lq_TTLSeconds req) g)) r s3"
    "sv_tick s3 = sv_tick s + 4" "sv_emitter s3 = sv_emitter s"
proof -
  define s1 where "s1 = snd (allow_lease e (Key (rc_Subject rc)) s)"
  have s1: "sv_providers s1 = sv_providers s" "sv_tick s1 = Suc (sv_tick s)" "sv_emitter s1 = sv_emitter s"
    by (simp_all add: s1_def allow_lease_def split_beta Let_def tick_def)
  obtain ttl ok where ttl: "clampTTL (lq_TTLSeconds req) g = (ttl, ok)" by fastforce
  have path: "handleLeaseCreate e rc (Decoded req) s = create_fetch e rc (Current (sv_policies s)) sc req g ttl (tick s1)"
    using assms(1-3) ttl
    by (cases ok) (auto simp: handleLeaseCreate_def split_beta Let_def s1_def [symmetric] split: if_splits)
  let ?labels = "[(''provider'', s_Provider sc)]" and ?s2 = "tick (tick (tick s1))"
  let ?s3 = "metric_inc e ''acb_provider_duration_seconds_count'' ?labels
    (metric_add e ''acb_provider_duration_seconds_sum'' ?labels (Seconds (Sub (now_of e (tick (tick s1))) (now_of e (tick s1)))) ?s2)"
  have "create_fetch e rc (Current (sv_policies s)) sc req g ttl (tick s1) = create_issue e rc (Current (sv_policies s)) req g prov ttl r ?s3"
    using assms(4,5) ttl s1 by (simp add: create_fetch_def split_beta Let_def) (simp add: tick_def)
  then show ?thesis using that [of ?s3] path ttl s1 by (simp add: tick_def)
qed

lemma clamp_upstream_bound:
  assumes "now < expiry"
  shows "sint (clamp_upstream expiry now ttl) \<le> expiry - now"
proof (cases "expiry - now \<le> max_int64")
  case True
  then have "sint (Sub expiry now) = expiry - now" using assms by (simp add: sint_Sub min_int64_def max_int64_def)
  then show ?thesis using assms by (simp add: clamp_upstream_def Let_def)
next
  case False
  then show ?thesis using sint_range [of "clamp_upstream expiry now ttl"] by linarith
qed

lemma create_issue_expiry:
  assumes "rp_status (fst (create_issue e rc pol req g prov ttl r s)) = 201" "\<not> IsZero (rs_ExpiresAt r)" "now_of e s < rs_ExpiresAt r"
  shows "\<exists>resp l ev. rp_body (fst (create_issue e rc pol req g prov ttl r s)) = BLease resp \<and>
    sv_leases (snd (create_issue e rc pol req g prov ttl r s)) (lr_LeaseID resp) = Some l \<and>
    l_IssuedAt l = now_of e (tick s) \<and> l_ExpiresAt l \<le> rs_ExpiresAt r + (now_of e (tick s) - now_of e s) \<and>
    lr_ExpiresAt resp = format_rfc3339 (l_ExpiresAt l) \<and> lr_UpstreamExpiresAt resp = format_rfc3339 (rs_ExpiresAt r) \<and>
    em_out (sv_emitter (snd (create_issue e rc pol req g prov ttl r s))) = em_out (sv_emitter s) @ event_line ev \<and>
    {(''expires_at'', JStr (format_rfc3339 (l_ExpiresAt l))), (''upstream_expires_at'', JStr (format_rfc3339 (rs_ExpiresAt r)))} \<subseteq> set (ev_Attested ev)"
proof -
  let ?up = "format_rfc3339 (rs_ExpiresAt r)" and ?ttl = "clamp_upstream (rs_ExpiresAt r) (now_of e s) ttl"
  define l where "l = fst (Create (now_of e (tick s)) (en_rand e (sv_tick (tick s)) 13) (Key (rc_Subject rc)) (lq_Scope req)
    (Semantics prov) ?ttl (g_Renewable g) (sv_leases s))"
  define s2 where "s2 = tick (tick s)\<lparr>sv_leases := (sv_leases s)(l_ID l \<mapsto> l)\<rparr>"
  define ev where "ev = base_event ''lease.issued'' (rc_RequestID rc) (Some (rc_Subject rc)) (Some (rc_Source rc))
    (issued_attested l ?ttl ?up pol) (case lq_Context req of None \<Rightarrow> [] | Some c \<Rightarrow> c)"
  have eq: "create_issue e rc pol req g prov ttl r s = issue_record e rc pol req r ?up ?ttl l s2"
    using assms(2) by (simp add: create_issue_def l_def s2_def Create_def split_beta Let_def)
  have lease: "l_IssuedAt l = now_of e (tick s)" "l_ExpiresAt l = now_of e (tick s) + sint ?ttl"
    by (simp_all add: l_def Create_def Let_def Add_def)
  have up: "?up \<noteq> []" by (simp add: format_rfc3339_def Let_def)
  show ?thesis
  proof (cases rule: emit_cases [of e ev s2])
    case ok
    let ?ev = "emitted e ev s2"
    have "sv_emitter s2 = sv_emitter s" "sv_leases s2 = (sv_leases s)(l_ID l \<mapsto> l)" by (simp_all add: s2_def)
    then show ?thesis
      using ok lease clamp_upstream_bound [OF assms(3), of ttl] up
      by (intro exI [of _ "leaseMeta l\<lparr>lr_UpstreamExpiresAt := ?up, lr_Secret := rs_Secret r\<rparr>"] exI [of _ l] exI [of _ ?ev])
        (simp add: eq issue_record_def ev_def [symmetric] split_beta Let_def leaseMeta_def, simp add: ev_def issued_attested_def omitempty_str_def)
  next
    case (failed n err)
    then show ?thesis using assms(1) by (simp add: eq issue_record_def ev_def [symmetric] split_beta Let_def auditFailClosed_def)
  qed
qed

text \<open>C39: a lease does not outlive the credential it stands for. When a request is answered with 201 and
  the provider delivered a credential with an expiry that lies after the clock reading of the clamp,
  the lease in the table ends no later than the credential, up to the time that passes between that
  reading and the one \<open>Create\<close> makes; the response and the line that the stream gained both
  state the end of the lease and the expiry of the credential.\<close>

theorem lease_upstream_expiry:
  assumes "rp_status (fst (handleLeaseCreate e rc (Decoded req) s)) = 201"
    and "GrantOf (Current (sv_policies s)) (Key (rc_Subject rc)) (lq_Scope req) = Some g" "ScopeOf (Current (sv_policies s)) (lq_Scope req) = Some sc"
    and "map_of (sv_providers s) (s_Provider sc) = Some prov"
    and "snd (Fetch (en_upstream e (sv_tick s + 2)) prov
      \<lparr>rq_Ref = s_Ref sc, rq_Fields = s_Fields sc, rq_Params = s_Params sc, rq_TTL = fst (clampTTL (lq_TTLSeconds req) g)\<rparr>) = Inr r"
    and "\<not> IsZero (rs_ExpiresAt r)" "en_clock e (sv_tick s + 4) < rs_ExpiresAt r"
  shows "\<exists>resp l ev. rp_body (fst (handleLeaseCreate e rc (Decoded req) s)) = BLease resp \<and>
    sv_leases (snd (handleLeaseCreate e rc (Decoded req) s)) (lr_LeaseID resp) = Some l \<and>
    l_IssuedAt l = en_clock e (sv_tick s + 5) \<and>
    l_ExpiresAt l \<le> rs_ExpiresAt r + (en_clock e (sv_tick s + 5) - en_clock e (sv_tick s + 4)) \<and>
    lr_ExpiresAt resp = format_rfc3339 (l_ExpiresAt l) \<and> lr_UpstreamExpiresAt resp = format_rfc3339 (rs_ExpiresAt r) \<and>
    em_out (sv_emitter (snd (handleLeaseCreate e rc (Decoded req) s))) = em_out (sv_emitter s) @ event_line ev \<and>
    {(''expires_at'', JStr (format_rfc3339 (l_ExpiresAt l))), (''upstream_expires_at'', JStr (format_rfc3339 (rs_ExpiresAt r)))} \<subseteq> set (ev_Attested ev)"
proof -
  obtain s3 where s3: "handleLeaseCreate e rc (Decoded req) s =
      create_issue e rc (Current (sv_policies s)) req g prov (fst (clampTTL (lq_TTLSeconds req) g)) r s3"
      "sv_tick s3 = sv_tick s + 4" "sv_emitter s3 = sv_emitter s"
    by (rule created_issue [OF assms(1-5)])
  have now: "now_of e s3 = en_clock e (sv_tick s + 4)" "now_of e (tick s3) = en_clock e (sv_tick s + 5)"
    using s3(2) by (simp_all add: now_of_def tick_def add.commute)
  show ?thesis
    using create_issue_expiry [OF assms(1) [unfolded s3(1)] assms(6)] assms(7) unfolding now s3(1,3) by blast
qed

section \<open>Notifications\<close>

text \<open>The grants that the document of a policy gives a subject.\<close>

definition granted_kind :: "NotifyPolicy \<Rightarrow> Subject \<Rightarrow> string \<Rightarrow> NotifyGrant \<Rightarrow> bool" where
  "granted_kind pol sub kind g \<longleftrightarrow>
     (\<exists>sp \<in> set (np_Subjects pol). ns_ServiceAccount sp = Key sub \<and> g \<in> set (ns_Grants sp) \<and> ng_Kind g = kind)"

text \<open>What a request asks for, when its body decodes and a grant of the document covers it.\<close>

fun asks_for :: "proxy \<Rightarrow> Subject \<Rightarrow> notify_route \<Rightarrow> string \<Rightarrow> string \<Rightarrow> string \<Rightarrow> (string \<times> json) list \<Rightarrow> bool" where
  "asks_for s sub (PostPush raw) kind domain service body \<longleftrightarrow> kind = KindPush \<and> domain = ''notify'' \<and>
     (\<exists>g. granted_kind (px_policy s) sub KindPush g \<and> service = hd (ng_Targets g)) \<and>
     (\<exists>req. decode_body push_field \<lparr>pq_Title = [], pq_Message = [], pq_Data = []\<rparr> s raw = Some req \<and>
        fst ` set (pq_Data req) \<subseteq> {''group'', ''tag'', ''url''} \<and> body = push_body req)"
| "asks_for s sub (PostPersistent raw) kind domain service body \<longleftrightarrow> kind = KindPersistentCreate \<and>
     domain = ''persistent_notification'' \<and> service = ''create'' \<and>
     (\<exists>g req. granted_kind (px_policy s) sub KindPersistentCreate g \<and>
        decode_body persist_field \<lparr>sq_NotificationID = [], sq_Title = [], sq_Message = []\<rparr> s raw = Some req \<and>
        HasPrefix (sq_NotificationID req) (ng_IDPrefix g) \<and>
        body = [(''notification_id'', JStr (sq_NotificationID req)), (''title'', JStr (sq_Title req)), (''message'', JStr (sq_Message req))])"
| "asks_for s sub (PostDismiss raw) kind domain service body \<longleftrightarrow> kind = KindPersistentDismiss \<and>
     domain = ''persistent_notification'' \<and> service = ''dismiss'' \<and>
     (\<exists>g req. granted_kind (px_policy s) sub KindPersistentDismiss g \<and>
        decode_body dismiss_field \<lparr>dq_NotificationID = []\<rparr> s raw = Some req \<and>
        HasPrefix (dq_NotificationID req) (ng_IDPrefix g) \<and> body = [(''notification_id'', JStr (dq_NotificationID req))])"

text \<open>The broker is there: its URL is one, the proxy's own token can be read, and the lease request is
  answered with 201 and the body the broker renders for a lease with a token.\<close>

definition broker_leases :: "proxy_up \<Rightarrow> LeaseClient \<Rightarrow> string gomap \<Rightarrow> bool" where
  "broker_leases up lc ctx \<longleftrightarrow> pu_validURL up (lc_brokerURL lc @ ''/v1/leases'') \<and>
     (\<exists>own resp r v. pu_readFile up (lc_tokenFile lc) = Inr own \<and> pu_do up (lease_request lc (TrimSpace own) ctx) = Inr resp \<and>
        hr_status resp = 201 \<and> hr_body resp = wire_body (BLease r) \<and> lr_LeaseID r \<noteq> [] \<and>
        distinct (map fst (lr_Secret r)) \<and> map_of (lr_Secret r) ''token'' = Some v \<and> v \<noteq> [])"

text \<open>Home Assistant is there: the URL of the service is one, and the call is answered with a 2xx status.\<close>

definition ha_accepts :: "proxy_up \<Rightarrow> HAClient \<Rightarrow> string \<Rightarrow> string \<Rightarrow> (string \<times> json) list \<Rightarrow> bool" where
  "ha_accepts up h domain service body \<longleftrightarrow>
     (\<forall>token. pu_validURL up (hq_url (ha_request h token domain service body)) \<and>
        (\<exists>resp. pu_do up (ha_request h token domain service body) = Inr resp \<and> 200 \<le> hr_status resp \<and> hr_status resp < 300))"

lemma broker_leases_client:
  assumes "broker_leases up lc ctx"
  obtains own l where "LeaseClient_Lease up lc ctx = ([lease_request lc own ctx], Inr l)"
proof -
  obtain own resp r v where b: "pu_validURL up (lc_brokerURL lc @ ''/v1/leases'')" "pu_readFile up (lc_tokenFile lc) = Inr own"
      "pu_do up (lease_request lc (TrimSpace own) ctx) = Inr resp" "hr_status resp = 201" "hr_body resp = wire_body (BLease r)"
      "lr_LeaseID r \<noteq> []" "distinct (map fst (lr_Secret r))" "map_of (lr_Secret r) ''token'' = Some v" "v \<noteq> []"
    using assms unfolding broker_leases_def by blast
  have "gindex (fixed (lr_Secret r)) ''token'' \<noteq> []"
    using b(8,9) map_of_fixed [OF b(7), of "''token''"] by (simp add: gindex_def ascii_def)
  moreover have "lr_Secret r \<noteq> []" using b(8) by auto
  ultimately show ?thesis
    using b lease_response_decodes [of r] that by (simp add: LeaseClient_Lease_def tokenFn_def Let_def)
qed

lemma ha_accepts_delivered:
  "ha_accepts up h domain service body \<Longrightarrow> haAllowed domain service \<Longrightarrow> ha_delivered (HA_Call up h token domain service body)"
  by (auto simp: ha_accepts_def HA_Call_def ha_delivered_def Let_def split: sum.split) (metis Inl_Inr_False Inr_inject)+

lemma granted_kind_lookup: "notify_ok pol \<Longrightarrow> granted_kind pol sub kind g \<longleftrightarrow> NotifyGrantOf pol (Key sub) kind = Some g"
  by (simp add: granted_kind_def NotifyGrantOf_iff)

lemma granted_push:
  assumes "notify_ok pol" "granted_kind pol sub KindPush g"
  shows "PushTarget pol (Key sub) = hd (ng_Targets g)" "hd (ng_Targets g) \<noteq> []" "\<forall>c \<in> set (hd (ng_Targets g)). target_char c"
proof -
  have g: "NotifyGrantOf pol (Key sub) KindPush = Some g" using assms granted_kind_lookup by blast
  then have v: "ng_Targets g \<noteq> []" "\<forall>t \<in> set (ng_Targets g). t \<noteq> [] \<and> (\<forall>c \<in> set t. target_char c)"
    using gate.grant_kind [OF assms(1) g] by (auto simp: notify_grant_valid_def)
  show "PushTarget pol (Key sub) = hd (ng_Targets g)" using g v(1) by (simp add: PushTarget_def hd_conv_nth)
  show "hd (ng_Targets g) \<noteq> []" "\<forall>c \<in> set (hd (ng_Targets g)). target_char c" using v hd_in_set [OF v(1)] by blast+
qed

lemma granted_id:
  assumes "notify_ok pol" "granted_kind pol sub kind g" "kind = KindPersistentCreate \<or> kind = KindPersistentDismiss" "HasPrefix nid (ng_IDPrefix g)"
  shows "idAllowed pol sub kind nid"
proof -
  have g: "NotifyGrantOf pol (Key sub) kind = Some g" using assms(1,2) granted_kind_lookup by blast
  have "nid \<noteq> []" using gate.prefix_needed [OF assms(1) g assms(3)] assms(4) by (auto simp: HasPrefix_iff)
  then show ?thesis using g assms(4) by (simp add: idAllowed_def)
qed

lemma asked_allowed:
  assumes "notify_ok (px_policy s)" "asks_for s sub rt kind domain service body"
  shows "haAllowed domain service"
  using assms granted_push [of "px_policy s" sub] by (cases rt) (auto simp: haAllowed_iff)

lemma decode_body_cfg: "px_cfg t = px_cfg s \<Longrightarrow> decode_body f z t raw = decode_body f z s raw"
  by (simp add: decode_body_def)

lemma asked_is_forwarded:
  assumes "order_of_range e" "fst (Allow (pnow e s) (Key (rc_Subject rc)) (px_limiter s))"
    and "asks_for s (rc_Subject rc) rt kind domain service body" "notify_ok (px_policy s)"
  shows "\<exists>s1. notify_mux e rt rc s = forward e rc kind domain service body s1 \<and>
    px_sent s1 = px_sent s \<and> px_lease s1 = px_lease s \<and> px_ha s1 = px_ha s"
proof -
  let ?s = "snd (pallow_limiter e (Key (rc_Subject rc)) s)"
  have rate: "rateOK e rc s = (None, ?s)" using assms(2) by (simp add: rateOK_def pallow_limiter_def split_beta Let_def)
  have dec: "decode_body f z ?s raw = decode_body f z s raw" for f :: "string \<Rightarrow> jval \<Rightarrow> 'x \<Rightarrow> 'x option" and z raw
    by (rule decode_body_cfg) simp
  show ?thesis
  proof (cases rt)
    case (PostPush raw)
    then obtain g req where req: "decode_body push_field \<lparr>pq_Title = [], pq_Message = [], pq_Data = []\<rparr> s raw = Some req"
        "fst ` set (pq_Data req) \<subseteq> {''group'', ''tag'', ''url''}" "body = push_body req" "kind = KindPush" "domain = ''notify''"
        "granted_kind (px_policy s) (rc_Subject rc) KindPush g" "service = hd (ng_Targets g)"
      using assms(3) by auto
    have "find (\<lambda>k. \<not> List.member allowedPushDataKeys k) (pe_range e (px_tick ?s) (map fst (pq_Data req))) = None"
      using req(2) assms(1) by (auto simp: find_None_iff order_of_range_def List.member_iff allowedPushDataKeys_def)
    then show ?thesis
      using req PostPush granted_push [OF assms(4) req(6)] by (intro exI [of _ "ptick ?s"]) (simp add: handlePush_def rate dec Let_def)
  next
    case (PostPersistent raw)
    then show ?thesis
      using assms(3) granted_id [OF assms(4)] by (intro exI [of _ ?s]) (auto simp: handlePersistentCreate_def rate dec)
  next
    case (PostDismiss raw)
    then show ?thesis
      using assms(3) granted_id [OF assms(4)] by (intro exI [of _ ?s]) (auto simp: handlePersistentDismiss_def rate dec)
  qed
qed

text \<open>C32: a permitted notification is delivered. A caller within its rate whose request decodes and asks for
  what a grant of the policy document covers gets 201, and Home Assistant gets exactly that call,
  right after the lease, whenever the broker answers the lease request with 201 and a rendered
  lease with a token, and Home Assistant answers the call with a 2xx status: the proxy refuses
  nothing that the policy permits.\<close>

theorem permitted_notification_delivered:
  assumes "order_of_range e" "notify_ok (px_policy s)" "fst (Allow (pnow e s) (Key (rc_Subject rc)) (px_limiter s))"
    and "asks_for s (rc_Subject rc) rt kind domain service body"
    and "\<forall>k. broker_leases (pe_up e k) (px_lease s) (lease_context (rc_Subject rc) kind domain service)"
    and "\<forall>k. ha_accepts (pe_up e k) (px_ha s) domain service body"
  shows "rp_status (fst (notify_mux e rt rc s)) = 201 \<and>
    (\<exists>own token. px_sent (snd (notify_mux e rt rc s)) =
       px_sent s @ [lease_request (px_lease s) own (lease_context (rc_Subject rc) kind domain service), ha_request (px_ha s) token domain service body])"
proof -
  let ?ctx = "lease_context (rc_Subject rc) kind domain service"
  obtain s1 where s1: "notify_mux e rt rc s = forward e rc kind domain service body s1"
      "px_sent s1 = px_sent s" "px_lease s1 = px_lease s" "px_ha s1 = px_ha s"
    using asked_is_forwarded [OF assms(1,3,4,2)] by blast
  obtain own l where L: "LeaseClient_Lease (pe_up e (px_tick s1)) (px_lease s1) ?ctx = ([lease_request (px_lease s1) own ?ctx], Inr l)"
    using broker_leases_client [of "pe_up e (px_tick s1)" "px_lease s1" ?ctx] assms(5) s1(3) by auto
  let ?H = "HA_Call (pe_up e (Suc (px_tick s1))) (px_ha s1) (nl_Token l) domain service body"
  have H: "ha_delivered ?H"
    using assms(6) s1(4) asked_allowed [OF assms(2,4)] by (intro ha_accepts_delivered) auto
  then have "fst ?H = [ha_request (px_ha s) (nl_Token l) domain service body]" using HA_Call_delivered s1(4) by fastforce
  then show ?thesis using forward_leased [OF L refl, of body] H s1(1-3) by fastforce
qed

section \<open>The samples\<close>

text \<open>A broker with a GitHub scope, whose grant lasts two hours, longer than the token GitHub mints.\<close>

definition gh_doc :: policy_doc where
  "gh_doc = \<lparr>d_Scopes = [sample_gh_scope], d_Subjects = [\<lparr>sp_ServiceAccount = ''ns/sa'',
     sp_Grants = [sample_grant\<lparr>g_Scope := ''gh'', g_TTLDefault := 2 * Hour\<rparr>], sp_ClaimBytesPerDay = 4096\<rparr>]\<rparr>"

definition gh_granted :: grant where
  "gh_granted = compile_grant (\<lambda>_. Inr hourly) (sample_grant\<lparr>g_Scope := ''gh'', g_TTLDefault := 2 * Hour\<rparr>)"

definition gh_server :: server where
  "gh_server = sample_server\<lparr>sv_policies := sample_store\<lparr>ps_current := compile_policy (\<lambda>_. Inr hourly) (\<lambda>raw. raw) ''raw'' gh_doc\<rparr>,
     sv_providers := [(''github-app'', PGitHubApp (NewGitHubApp [] ''7'' ''key''))]\<rparr>"

abbreviation gh_lease_req :: leaseRequest where
  "gh_lease_req \<equiv> sample_lease_req\<lparr>lq_Scope := ''gh''\<rparr>"

lemma gh_lookup:
  "GrantOf (Current (sv_policies gh_server)) (Key (rc_Subject sample_rc)) (lq_Scope gh_lease_req) = Some gh_granted"
  "ScopeOf (Current (sv_policies gh_server)) (lq_Scope gh_lease_req) = Some sample_gh_scope"
  "map_of (sv_providers gh_server) (s_Provider sample_gh_scope) = Some (PGitHubApp (NewGitHubApp [] ''7'' ''key''))"
  by (simp_all add: gh_server_def Current_def GrantOf_def ScopeOf_def compile_policy_def gh_doc_def subject_entry_def compile_subject_def
      grant_entries_def gh_granted_def compile_grant_def set_windows_def sample_gh_scope_def)

lemma gh_fetched:
  "snd (Fetch (en_upstream (sample_env Written) k) (PGitHubApp (NewGitHubApp [] ''7'' ''key''))
     \<lparr>rq_Ref = s_Ref sample_gh_scope, rq_Fields = s_Fields sample_gh_scope, rq_Params = s_Params sample_gh_scope,
       rq_TTL = fst (clampTTL (lq_TTLSeconds gh_lease_req) gh_granted)\<rparr>) =
   Inr \<lparr>rs_Secret = [(''GITHUB_TOKEN'', ''ghs_1'')], rs_ExpiresAt = 3600000000000\<rparr>"
proof -
  have "ghRef_submatch (s_Ref sample_gh_scope) = Some ''42''"
    by (simp add: ghRef_submatch_def MatchString_lang installation_lang sample_gh_scope_def digit_def)
  moreover have "gindex (s_Params sample_gh_scope) ''permissions'' = ''contents=read''"
    by (simp add: sample_gh_scope_def gindex_def)
  moreover have "gh_collect t (s_Fields sample_gh_scope) = Inr [(''GITHUB_TOKEN'', t)]" for t by (simp add: sample_gh_scope_def)
  ultimately show ?thesis
    using parsePermissions_valid(1) [OF sample_gh_permissions]
    by (simp add: GitHubApp_Fetch_def sample_env_def sample_upstream_def Let_def appJWT_def IsZero_def zero_time_def)
qed

lemma gh_issued:
  "rp_status (fst (handleLeaseCreate (sample_env Written) sample_rc (Decoded gh_lease_req) gh_server)) = 201"
proof -
  have allow: "fst (Allow (now_of (sample_env Written) gh_server) (Key (rc_Subject sample_rc)) (sv_leaseLimiter gh_server))"
    using like_sample_server(1) New_Limiter_first [of 10] by (simp add: like_sample_def gh_server_def)
  have req: "lq_Scope gh_lease_req \<noteq> []" "0 \<le> sint (lq_TTLSeconds gh_lease_req)" by (simp_all add: sample_lease_req_def)
  have size: "int (length (render (JStrMap (lq_Context gh_lease_req)))) \<le> cf_MaxContextBytes (sv_cfg gh_server)"
    using like_sample_server(1) by (simp add: sample_lease_req_def JStrMap_def like_sample_def applyDefaults_def sample_config_def gh_server_def)
  have window: "WindowOpen gh_granted (en_clock (sample_env Written) (Suc (sv_tick gh_server)))"
    by (simp add: WindowOpen_def gh_granted_def compile_grant_def set_windows_def sample_grant_def compile_window_def
        sample_window_def Open_def Let_def After_def Add_def hourly_def Minute_def Second_def sample_env_def)
  have "\<forall>k. en_write (sample_env Written) k = Written" "\<forall>x. \<not> isl (cr_jcs (en_crypto (sample_env Written)) x)"
    by (simp_all add: sample_env_def sample_crypto_def)
  from create_issue_served [OF this] granted_path [OF allow req(1) size req(2) gh_lookup(1,2) window gh_lookup(3) gh_fetched] show ?thesis by auto
qed

theorem lease_upstream_expiry_witness:
  "\<exists>resp l. rp_body (fst (handleLeaseCreate (sample_env Written) sample_rc (Decoded gh_lease_req) gh_server)) = BLease resp \<and>
     sv_leases (snd (handleLeaseCreate (sample_env Written) sample_rc (Decoded gh_lease_req) gh_server)) (lr_LeaseID resp) = Some l \<and>
     l_ExpiresAt l \<le> 3600000000000"
proof -
  have "\<not> IsZero (rs_ExpiresAt \<lparr>rs_Secret = [(''GITHUB_TOKEN'', ''ghs_1'')], rs_ExpiresAt = 3600000000000\<rparr>)"
    by (simp add: IsZero_def zero_time_def)
  from lease_upstream_expiry [OF gh_issued gh_lookup gh_fetched this] show ?thesis by (auto simp: sample_env_def)
qed

theorem granted_request_served_witness:
  "\<exists>resp. rp_body (fst (handleLeaseCreate (sample_env Written) sample_rc (Decoded sample_lease_req) sample_server)) = BLease resp \<and>
     lr_Secret resp = [(''token'', ''hunter2'')]"
proof -
  let ?e = "sample_env Written" and ?prov = "POnePassword (NewOnePassword ''https://connect/'')"
  have allow: "fst (Allow (now_of ?e sample_server) (Key (rc_Subject sample_rc)) (sv_leaseLimiter sample_server))"
    using like_sample_server(1) New_Limiter_first [of 10] by (simp add: like_sample_def)
  have req: "lq_Scope sample_lease_req = ''db''" "lq_TTLSeconds sample_lease_req = 0" "lq_Context sample_lease_req = None"
    by (simp_all add: sample_lease_req_def)
  have size: "int (length (render (JStrMap (lq_Context sample_lease_req)))) \<le> cf_MaxContextBytes (sv_cfg sample_server)"
    using like_sample_server(1) by (simp add: req JStrMap_def like_sample_def applyDefaults_def sample_config_def)
  have pol: "GrantOf (Current (sv_policies sample_server)) (Key (rc_Subject sample_rc)) (lq_Scope sample_lease_req) = Some sample_granted"
      "ScopeOf (Current (sv_policies sample_server)) (lq_Scope sample_lease_req) = Some sample_scope"
    using sample_lookup by (simp_all add: req Current_def)
  have env: "WindowOpen sample_granted (en_clock ?e (Suc (sv_tick sample_server)))" "\<forall>k. en_write ?e k = Written" "\<forall>x. \<not> isl (cr_jcs (en_crypto ?e) x)"
      "map_of (sv_providers sample_server) (s_Provider sample_scope) = Some ?prov"
    using sample_window_open by (simp_all add: sample_env_def sample_crypto_def sample_scope_def)
  have "snd (Fetch (en_upstream ?e (Suc (Suc (sv_tick sample_server)))) ?prov
      \<lparr>rq_Ref = s_Ref sample_scope, rq_Fields = s_Fields sample_scope, rq_Params = s_Params sample_scope,
        rq_TTL = fst (clampTTL (lq_TTLSeconds sample_lease_req) sample_granted)\<rparr>) =
      Inr \<lparr>rs_Secret = [(''token'', ''hunter2'')], rs_ExpiresAt = zero_time\<rparr>"
    using sample_fetch(1) sample_clamp by (simp add: req sample_request_def sample_env_def)
  from granted_request_served [OF allow _ size _ pol env(1,4) this env(2,3)] show ?thesis by (auto simp: req)
qed

lemma wired_broker_leases: "broker_leases wired_up (sample_lease_client\<lparr>lc_scope := ''db''\<rparr>) wired_context"
proof -
  obtain r v s' where p: "post_leases (sample_env Written) ''10.0.0.2:1'' ''proxy''
        (lease_request (sample_lease_client\<lparr>lc_scope := ''db''\<rparr>) ''own'' wired_context) sample_server =
      (\<lparr>hr_status = 201, hr_body = wire_body (BLease r)\<rparr>, s')" "lr_LeaseID r \<noteq> []" "lr_Secret r = [(''token'', v)]" "v \<noteq> []"
    using wired_issues by blast
  have "pu_do wired_up (lease_request (sample_lease_client\<lparr>lc_scope := ''db''\<rparr>) ''own'' wired_context) =
      Inr \<lparr>hr_status = 201, hr_body = wire_body (BLease r)\<rparr>"
    using p(1) by (simp add: wired_up_def) (simp add: lease_request_def sample_lease_client_def)
  then have answer: "pu_do wired_up (lease_request (sample_lease_client\<lparr>lc_scope := ''db''\<rparr>) (TrimSpace ''own'') wired_context) =
      Inr \<lparr>hr_status = 201, hr_body = wire_body (BLease r)\<rparr>" using TrimSpace_visible [of "''own''"] by (simp add: visible_def)
  have "pu_readFile wired_up f = Inr ''own''" "pu_validURL wired_up url" for f url by (simp_all add: wired_up_def)
  then show ?thesis
    unfolding broker_leases_def
    by (intro conjI exI [of _ "''own''"] exI [of _ "\<lparr>hr_status = 201, hr_body = wire_body (BLease r)\<rparr>"] exI [of _ r] exI [of _ v] answer)
      (use p(2-4) in simp_all)
qed

theorem permitted_notification_delivered_witness:
  "rp_status (fst (notify_mux wired_env (PostDismiss (render sample_dismiss_json)) sample_rc wired_proxy)) = 201"
proof -
  let ?body = "[(''notification_id'', JStr ''sa-1'')]" and ?kind = KindPersistentDismiss
  have frame: "px_policy wired_proxy = sample_notify_policy" "px_limiter wired_proxy = New_Limiter 12 6"
      "px_lease wired_proxy = sample_lease_client\<lparr>lc_scope := ''db''\<rparr>" "pe_up wired_env k = wired_up" for k
    by (simp_all add: wired_proxy_def wired_env_def)
  have grant: "granted_kind sample_notify_policy (rc_Subject sample_rc) ?kind sample_dismiss_grant"
    by (simp add: granted_kind_def sample_notify_policy_def sample_notify_subject_def sample_dismiss_grant_def)
  have decoded: "decode_body dismiss_field \<lparr>dq_NotificationID = []\<rparr> wired_proxy (render sample_dismiss_json) = Some \<lparr>dq_NotificationID = ''sa-1''\<rparr>"
    by (rule sample_dismiss_decoded) (simp add: wired_proxy_def)
  have prefix: "HasPrefix (dq_NotificationID \<lparr>dq_NotificationID = ''sa-1''\<rparr>) (ng_IDPrefix sample_dismiss_grant)"
    by (simp add: sample_dismiss_grant_def HasPrefix_def)
  have asks: "asks_for wired_proxy (rc_Subject sample_rc) (PostDismiss (render sample_dismiss_json)) ?kind
      ''persistent_notification'' ''dismiss'' ?body"
    unfolding asks_for.simps frame
    by (intro conjI refl exI [of _ sample_dismiss_grant] exI [of _ "\<lparr>dq_NotificationID = ''sa-1''\<rparr>"] grant decoded prefix) simp
  have range: "order_of_range wired_env" by (simp add: wired_env_def order_of_range_def sample_proxy_env_def)
  have ok: "notify_ok (px_policy wired_proxy)" unfolding frame by (rule sample_notify_ok)
  have allow: "fst (Allow (pnow wired_env wired_proxy) (Key (rc_Subject sample_rc)) (px_limiter wired_proxy))"
    unfolding frame by (rule sample_limiter)
  have leases: "broker_leases wired_up (sample_lease_client\<lparr>lc_scope := ''db''\<rparr>) wired_context"
    by (rule wired_broker_leases)
  have accepts: "ha_accepts (pe_up wired_env k) (px_ha wired_proxy) ''persistent_notification'' ''dismiss'' ?body" for k
    unfolding frame ha_accepts_def by (simp add: wired_proxy_def ha_request_def wired_up_def)
  show ?thesis
    using permitted_notification_delivered [OF range ok allow asks] leases accepts unfolding frame by simp
qed

end
