(* ===== verification/Spec2Isabelle.thy ===== *)
theory Spec2Isabelle
  imports Broker_System Cached_Check Proxy_Life Interop Delivery
begin

text \<open>
  A verification of agent-cred-broker, a service that leases credentials to agents running as
  Kubernetes service accounts, of the notification proxy beside it, and of the commands around them.

  \<^bold>\<open>The program.\<close> The broker (\<open>cmd/broker\<close>) authenticates a bearer token with the TokenReview API
  (\<open>internal/authn\<close>), looks the caller up in a policy that denies by default
  (\<open>internal/policy\<close>), fetches secret material from 1Password Connect or a GitHub App
  (\<open>internal/provider\<close>), keeps a table of leases (\<open>internal/lease\<close>), limits rates and bytes
  (\<open>internal/ratelimit\<close>), counts (\<open>internal/server/metrics.go\<close>) and writes one signed event per
  decision (\<open>internal/audit\<close>); the endpoints are in \<open>internal/server\<close>. TLS certificates are
  reloaded from disk (\<open>internal/tlsx\<close>). \<open>cmd/acb-verify\<close> checks an event stream offline. The
  notification proxy (\<open>cmd/ha-notify-proxy\<close>, \<open>internal/notify\<close>) leases a Home Assistant token from the broker for each
  permitted notification. \<open>cmd/acb-playground\<close> stands in for the API server and for Connect.

  \<^bold>\<open>The library theories.\<close> \<open>Broker_Prelude\<close>: Go maps as association lists in the order of a \<open>range\<close>,
  string functions, the collections \<open>frame\<close>, \<open>preserve\<close> and \<open>go_defs\<close>, and the locale
  \<open>last_good_cell\<close> of a cell that keeps its value while nothing better is offered. \<open>Go_Time\<close>,
  \<open>Go_Duration\<close>: instants, 64-bit durations, RFC 3339, \<open>ParseDuration\<close>. \<open>Go_Float\<close>: float64 as
  rounded rationals. \<open>Go_Regexp\<close>: anchored patterns, matched by derivatives. \<open>Go_Encoding\<close>:
  \<open>json.Marshal\<close>, base64 and hex. \<open>Go_Json\<close>, \<open>Json_Decode\<close>: \<open>json.Unmarshal\<close> and decoding into Go
  values. \<open>Json_Roundtrip\<close>: what is rendered is read back. \<open>Go_Base64\<close>: \<open>DecodeString\<close>.

  \<^bold>\<open>The components.\<close> One theory per source file or package, with the source's names; a name that is
  taken gets a suffix or a prefix (\<open>New_Limiter\<close>, \<open>Notify_Parse\<close>). A struct is a record, a method
  a function from the old state to the result and the new state, an error a datatype.

  \<^item> \<open>Ratelimit\<close> (\<open>ratelimit.go\<close>): \<open>Allow\<close>, \<open>Spend\<close>; bounds on what is admitted, isolation of keys
    (locale \<open>keyed_gate\<close>).
  \<^item> \<open>Lease_Store\<close> (\<open>lease/store.go\<close>): every operation of the table, its invariant \<open>table_ok\<close>, what
    an operation may change of a lease (locale \<open>lease_repo\<close>).
  \<^item> \<open>Policy\<close> (\<open>policy/policy.go\<close>): \<open>Parse\<close> with each validation error, lookups and issue windows;
    \<open>Parse\<close> against a declarative notion of validity, the invariant \<open>policy_ok\<close> of a loaded policy
    (locale \<open>grant_policy\<close>). \<open>Policy_Store\<close> (\<open>watcher.go\<close>): reloading, a refinement of the last good cell.
  \<^item> \<open>Audit_Log\<close> (\<open>audit.go\<close>): events, their JSON, signing and \<open>Emit\<close>; gapless sequence numbers (locale
    \<open>event_log\<close>). \<open>Audit_Verify\<close>: \<open>Verify\<close>, and that it accepts what \<open>Emit\<close> writes. \<open>Stream_Verify\<close>
    (\<open>cmd/acb-verify\<close>): the whole command; exactness of its gap analysis and its verdict on a
    stream of the broker.
  \<^item> \<open>Metrics\<close> (\<open>metrics.go\<close>): counters, gauges and their text form.
  \<^item> \<open>Provider\<close> (\<open>provider.go\<close>, \<open>onepassword.go\<close>, \<open>github.go\<close>): \<open>Fetch\<close> of both providers; all or
    nothing (locale \<open>secret_source\<close>), confined requests, least privilege.
  \<^item> \<open>Server\<close> (\<open>server.go\<close>, \<open>problem.go\<close>) and \<open>Handlers\<close> (\<open>handlers.go\<close>): the state of the broker, its
    middleware and every endpoint. \<open>Disclosure\<close>: what \<open>POST /v1/leases\<close> promises. \<open>Lifecycle\<close>:
    renewal, surrender, claims, expiry, tenant isolation, the whole \<open>Handler\<close>. \<open>Broker_Sample\<close>: a
    concrete broker for the witnesses.
  \<^item> \<open>Authn\<close> (\<open>tokenreview.go\<close>): \<open>Review\<close> down to the bytes of the objects exchanged. \<open>Playground\<close>
    (\<open>cmd/acb-playground\<close>): the stand-ins, and that \<open>Review\<close> accepts their answers. \<open>Identity\<close>: the
    broker composed with the reviewer.
  \<^item> \<open>Notify_Policy\<close> (\<open>notify/policy.go\<close>, locale \<open>notify_gate\<close>), \<open>Notify_Upstream\<close> (\<open>ha.go\<close>, \<open>lease.go\<close>,
    locale \<open>one_call\<close>), \<open>Notify_Server\<close> (\<open>server.go\<close>, \<open>problem.go\<close>): the proxy. \<open>Notify_Gate\<close>: how a
    request can end. \<open>Notify_Guarantees\<close>: which calls the proxy can make, that each decision is
    recorded, that the token goes nowhere else, how many calls a caller can cause.
    \<open>Notify_Sample\<close>: a concrete proxy for the witnesses.
  \<^item> \<open>Tlsx\<close> (\<open>reloader.go\<close>): handshakes against changing files, a last good cell too.
  \<^item> \<open>Broker_Main\<close> (\<open>cmd/broker/main.go\<close>): start-up with every error, the policy callbacks, the
    Connect token gauge, readiness, the choice of listener. \<open>Broker_Start\<close>: what holds of a broker
    that has started, and what a policy tick records.
  \<^item> \<open>Proxy_Main\<close> (\<open>cmd/ha-notify-proxy/main.go\<close>): start-up with every error, the readiness probe,
    the choice of listener. \<open>Cached_Check\<close>: that probe and the one of the 1Password provider as two
    instances of the locale \<open>cached_check\<close>, and how many requests they can cause.

  \<^bold>\<open>The processes.\<close> \<open>Broker_System\<close> and \<open>Proxy_System\<close> are the two services as state machines: the
  relations \<open>reachable\<close> and \<open>proxy_reachable\<close> start from what \<open>run\<close> sets up and close it under
  requests, ticks, sweeps, probes and handshakes in any order. \<open>Emission_Runs\<close> is what both have in
  common, runs of an emitter and their verification; \<open>Broker_Stream\<close> and \<open>Proxy_Stream\<close> show that
  every step is such a run and what it leaves alone. The invariants discharge the hypotheses of the
  theorems about single requests; on top of them: every lease is accounted for in the stream, a
  secret only goes to the account that holds the grant, nothing leaves the proxy without a reason
  and a record (\<open>Proxy_Life\<close>), and the verdict of \<open>acb-verify\<close> on both streams: they pass unless a line
  outgrows its buffer, which nothing in the two services prevents. \<open>Broker_Wire\<close> is the wire format
  of the broker's API, from the bytes of a body to the value a handler gets and back; over it,
  \<open>Interop\<close> puts the proxy's lease client in front of the broker's endpoint and shows how the two
  audit streams join on a lease. \<open>Delivery\<close> is the converse of the confinement theorems: what the
  policies grant is served while the upstream works; and it relates the end of a lease to the expiry
  of the credential delivered for it.

  \<^bold>\<open>The outside world.\<close> Clock readings, random bytes, outcomes of writes, map orders and the
  answers of the network come from environment records (\<open>env\<close>, \<open>proxy_env\<close>, \<open>host\<close>), indexed by a
  counter in the state that every use advances, so that no two uses share an answer unless the
  environment says so. A call of an HTTP client is one use of the transport, \<open>http.Client.Do\<close> with the
  redirects it may follow; \<open>px_sent\<close> holds the requests the proxy handed to its lease and Home Assistant
  clients and \<open>pp_probed\<close> those of its readiness probe, while TokenReview calls are inside the
  authenticator, which \<open>Identity\<close> and \<open>Proxy_Life\<close> instantiate with the reviewer. Third-party code is a parameter: YAML and cron, JCS, Ed25519, SHA-256 and RSA,
  PEM and PKCS#8, the HTTP transport, the TLS files, Go's table of printable runes and the \<open>%g\<close> format.
  Where a theorem relies on one of them the documented law is a named hypothesis (\<open>crypto_laws\<close>,
  \<open>order_of_range\<close>, \<open>http_statuses\<close>, \<open>next_of\<close>) with an instance that satisfies it.

  \<^bold>\<open>Bounds and fuel.\<close> Machine integers keep their width: sequence numbers are 64-bit words, durations
  and byte counts 64-bit integers with their wrap-around. The recursive JSON parser has fuel
  \<open>2 * length + 2\<close>, which \<open>parse_fuel\<close> proves enough for every text; \<open>raw_members\<close> and the trimming
  loops are bounded by the length of the text. The scanner of \<open>acb-verify\<close> keeps its limit of \<open>2 ^ 20\<close>
  bytes per line, and the proxy's bodies the limit of \<open>MaxBytesReader\<close>.

  \<^bold>\<open>Not modelled.\<close> A handler is one atomic step, so interleavings inside a handler are not covered.
  Unknown routes and methods (404, 405), listening sockets, signals, graceful shutdown and log
  lines are left to the HTTP server. A decoded slice replaces the old one as a whole. The request
  bodies of the broker's endpoints enter the handlers as the outcome of their decoding, which
  \<open>Broker_Wire\<close> defines; paths are given as matched.
\<close>

end
